(* ===== verification/Prelude.thy ===== *)
theory Prelude
  imports Main "HOL-Library.Word" "HOL-Library.Multiset"
begin

text \<open>
  Shared vocabulary of the development: the machine integers of the Go source, the three
  collections of automation hints, generic lemmas on lists and maps, the stable sort that models
  the Go library routine \<^verbatim>\<open>sort.SliceStable\<close> (stated once, in a locale, for every comparator the
  server passes to it) and the locale of state machines with an invariant.
\<close>

unbundle bit_operations_syntax

subsection \<open>Machine integers and bytes\<close>

type_synonym u8 = "8 word"
type_synonym u16 = "16 word"
type_synonym u32 = "32 word"
type_synonym u64 = "64 word"
type_synonym bytes = "u8 list"

named_theorems frame_simps \<open>what an operation leaves unchanged\<close>
named_theorems store_defs \<open>definitions of store operations, unfolded together\<close>
named_theorems handler_defs \<open>definitions of request handlers, unfolded together\<close>

lemma u32_of_nat_less: "n < 2 ^ 32 \<Longrightarrow> unat (of_nat n :: u32) = n"
  by (simp add: of_nat_inverse)

lemma u32_inc: "x + 1 \<noteq> 0 \<Longrightarrow> unat (x + 1 :: u32) = Suc (unat x)"
  by (metis add.commute unatSuc)

text \<open>Conversions to a wider type keep the value.\<close>

lemma unat_u16_u32: "unat (ucast x :: u32) = unat x" for x :: u16
  by (simp add: unsigned_ucast_eq take_bit_nat_eq_self less_trans [OF unsigned_less])

lemma unat_u32_u64: "unat (ucast x :: u64) = unat x" for x :: u32
  by (simp add: unsigned_ucast_eq take_bit_nat_eq_self less_trans [OF unsigned_less])

lemma ucast_u32_u64_eq: "(ucast x :: u64) = ucast y \<longleftrightarrow> x = y" for x y :: u32
  by (metis unat_u32_u64 word_unat_eq_iff)

lemma ucast_u16_u32_eq_0: "(ucast x :: u32) = 0 \<longleftrightarrow> x = 0" for x :: u16
  by (metis unat_u16_u32 unat_eq_zero)

subsection \<open>Lists\<close>

text \<open>The sublist of the first occurrences, by the loop over a set of seen keys that the Go code
  uses (common-go's \<^verbatim>\<open>RemoveDuplicates\<close>).\<close>

fun dedup_from :: "'a set \<Rightarrow> 'a list \<Rightarrow> 'a list" where
  "dedup_from seen [] = []"
| "dedup_from seen (x # xs) =
     (if x \<in> seen then dedup_from seen xs else x # dedup_from (insert x seen) xs)"

definition RemoveDuplicates :: "'a list \<Rightarrow> 'a list" where
  "RemoveDuplicates xs = dedup_from {} xs"

lemma set_dedup_from: "set (dedup_from seen xs) = set xs - seen"
  by (induction seen xs rule: dedup_from.induct) auto

lemma distinct_dedup_from: "distinct (dedup_from seen xs)"
  by (induction seen xs rule: dedup_from.induct) (auto simp: set_dedup_from)

lemma set_RemoveDuplicates [simp]: "set (RemoveDuplicates xs) = set xs"
  by (simp add: RemoveDuplicates_def set_dedup_from)

lemma distinct_RemoveDuplicates [simp]: "distinct (RemoveDuplicates xs)"
  by (simp add: RemoveDuplicates_def distinct_dedup_from)

lemma RemoveDuplicates_Nil [simp]: "RemoveDuplicates [] = []"
  by (simp add: RemoveDuplicates_def)

lemma dedup_from_eq_Nil: "dedup_from seen xs = [] \<longleftrightarrow> set xs \<subseteq> seen"
  by (metis Diff_eq_empty_iff set_dedup_from set_empty)

lemma RemoveDuplicates_eq_Nil [simp]: "RemoveDuplicates xs = [] \<longleftrightarrow> xs = []"
  by (simp add: RemoveDuplicates_def dedup_from_eq_Nil)

lemma filter_neq_append_replicate [simp]:
  "p \<notin> set xs \<Longrightarrow> filter (\<lambda>x. x \<noteq> p) (xs @ replicate n p) = xs"
  by (induction xs) auto

lemma find_Some_set: "List.find P xs = Some x \<Longrightarrow> x \<in> set xs \<and> P x"
  by (induction xs) (auto split: if_splits)

lemma find_unique:
  assumes "x \<in> set xs" and "P x" and "\<And>y. y \<in> set xs \<Longrightarrow> P y \<Longrightarrow> y = x"
  shows "List.find P xs = Some x"
proof (cases "List.find P xs")
  case None
  then show ?thesis using assms(1,2) by (auto simp: find_None_iff)
next
  case (Some y)
  then show ?thesis using find_Some_set [OF Some] assms(3) [of y] by simp
qed

subsection \<open>Ranging over a map\<close>

text \<open>
  Go visits the keys of a map in an order it does not specify. A definition that ranges over a map
  takes the order as a function from the set of keys to a list; \<^verbatim>\<open>visits_all\<close> states what Go
  promises of it: every key once.
\<close>

definition visits_all :: "('k set \<Rightarrow> 'k list) \<Rightarrow> bool" where
  "visits_all ord \<longleftrightarrow> (\<forall>A. finite A \<longrightarrow> distinct (ord A) \<and> set (ord A) = A)"

fun range_map :: "('k \<rightharpoonup> 'v) \<Rightarrow> 'k list \<Rightarrow> ('k \<times> 'v) list" where
  "range_map m [] = []"
| "range_map m (k # ks) =
     (case m k of None \<Rightarrow> range_map m ks | Some v \<Rightarrow> (k, v) # range_map m ks)"

lemma set_range_map: "set (range_map m ks) = {(k, v). k \<in> set ks \<and> m k = Some v}"
  by (induction ks) (auto split: option.splits)

lemma map_fst_range_map: "map fst (range_map m ks) = filter (\<lambda>k. k \<in> dom m) ks"
  by (induction ks) (auto split: option.splits)

lemma distinct_range_map: "distinct ks \<Longrightarrow> distinct (map fst (range_map m ks))"
  by (simp add: map_fst_range_map)

lemma visits_all_sorted: "visits_all (sorted_list_of_set :: 'k::linorder set \<Rightarrow> 'k list)"
  by (simp add: visits_all_def)

lemma range_map_visits_all:
  assumes "visits_all ord" and "finite (dom m)"
  shows "set (range_map m (ord (dom m))) = {(k, v). m k = Some v}"
    and "map fst (range_map m (ord (dom m))) = ord (dom m)"
    and "distinct (map fst (range_map m (ord (dom m))))"
proof -
  have ord: "distinct (ord (dom m))" "set (ord (dom m)) = dom m"
    using assms by (auto simp: visits_all_def)
  then show "set (range_map m (ord (dom m))) = {(k, v). m k = Some v}"
    by (auto simp: set_range_map)
  show "map fst (range_map m (ord (dom m))) = ord (dom m)"
    using ord by (simp add: map_fst_range_map)
  then show "distinct (map fst (range_map m (ord (dom m))))" using ord by simp
qed

subsection \<open>Stable sorting by a comparator\<close>

text \<open>
  \<^verbatim>\<open>sort.SliceStable(xs, lt)\<close> sorts in place and keeps the original order of elements that are
  equal under \<^verbatim>\<open>lt\<close>. For a strict weak order that determines the result, so inserting each
  element in turn computes it.
\<close>

fun insert_stable :: "('a \<Rightarrow> 'a \<Rightarrow> bool) \<Rightarrow> 'a \<Rightarrow> 'a list \<Rightarrow> 'a list" where
  "insert_stable lt x [] = [x]"
| "insert_stable lt x (y # ys) =
     (if lt y x then y # insert_stable lt x ys else x # y # ys)"

fun SliceStable :: "('a \<Rightarrow> 'a \<Rightarrow> bool) \<Rightarrow> 'a list \<Rightarrow> 'a list" where
  "SliceStable lt [] = []"
| "SliceStable lt (x # xs) = insert_stable lt x (SliceStable lt xs)"

lemma mset_insert_stable [simp]: "mset (insert_stable lt x xs) = add_mset x (mset xs)"
  by (induction xs) auto

lemma mset_SliceStable [simp]: "mset (SliceStable lt xs) = mset xs"
  by (induction xs) auto

lemma set_SliceStable [simp]: "set (SliceStable lt xs) = set xs"
  using mset_SliceStable by (metis set_mset_mset)

lemma length_SliceStable [simp]: "length (SliceStable lt xs) = length xs"
  using mset_SliceStable by (metis size_mset)

lemma distinct_SliceStable [simp]: "distinct (SliceStable lt xs) = distinct xs"
  using mset_SliceStable mset_eq_imp_distinct_iff by blast

locale strict_weak_order =
  fixes lt :: "'a \<Rightarrow> 'a \<Rightarrow> bool"
  assumes irreflexive: "\<not> lt x x"
    and transitive: "lt x y \<Longrightarrow> lt y z \<Longrightarrow> lt x z"
    and incomparable: "\<not> lt x y \<Longrightarrow> \<not> lt y z \<Longrightarrow> \<not> lt x z"
begin

lemma asymmetric: "lt x y \<Longrightarrow> \<not> lt y x"
  using irreflexive transitive by blast

lemma sorted_insert_stable:
  "sorted_wrt (\<lambda>a b. \<not> lt b a) xs \<Longrightarrow> sorted_wrt (\<lambda>a b. \<not> lt b a) (insert_stable lt x xs)"
proof (induction xs)
  case Nil
  then show ?case by simp
next
  case (Cons y ys)
  have set_ins: "set (insert_stable lt x ys) = insert x (set ys)"
    using mset_insert_stable [of lt x ys] by (metis set_mset_add_mset_insert set_mset_mset)
  show ?case
  proof (cases "lt y x")
    case True
    with Cons show ?thesis by (auto simp: set_ins dest: asymmetric)
  next
    case False
    with Cons.prems show ?thesis by (auto dest: incomparable)
  qed
qed

lemma sorted_SliceStable: "sorted_wrt (\<lambda>a b. \<not> lt b a) (SliceStable lt xs)"
  by (induction xs) (simp_all add: sorted_insert_stable)

lemma hd_SliceStable:
  assumes "x \<in> set xs"
  shows "\<not> lt x (hd (SliceStable lt xs))"
proof -
  have "SliceStable lt xs \<noteq> []" using assms by (metis empty_iff empty_set set_SliceStable)
  then obtain y ys where eq: "SliceStable lt xs = y # ys" by (cases "SliceStable lt xs") auto
  have "x \<in> set (y # ys)" using assms eq by (metis set_SliceStable)
  moreover have "sorted_wrt (\<lambda>a b. \<not> lt b a) (y # ys)" using sorted_SliceStable eq by metis
  ultimately show ?thesis using eq irreflexive by auto
qed

lemma filter_insert_stable:
  assumes "sorted_wrt (\<lambda>a b. \<not> lt b a) xs"
  shows "filter (\<lambda>y. \<not> lt y a \<and> \<not> lt a y) (insert_stable lt x xs) =
    (if \<not> lt x a \<and> \<not> lt a x then x # filter (\<lambda>y. \<not> lt y a \<and> \<not> lt a y) xs
     else filter (\<lambda>y. \<not> lt y a \<and> \<not> lt a y) xs)"
  using assms
proof (induction xs)
  case Nil
  then show ?case by simp
next
  case (Cons y ys)
  show ?case
  proof (cases "lt y x")
    case True
    then have "\<not> lt x a \<and> \<not> lt a x \<Longrightarrow> lt y a \<or> lt a y"
      using incomparable by blast
    with True Cons show ?thesis by auto
  next
    case False
    then show ?thesis by simp
  qed
qed

text \<open>Elements that compare equal keep the order they had in the input.\<close>

lemma stable_SliceStable:
  "filter (\<lambda>y. \<not> lt y a \<and> \<not> lt a y) (SliceStable lt xs) =
   filter (\<lambda>y. \<not> lt y a \<and> \<not> lt a y) xs"
  by (induction xs) (simp_all add: filter_insert_stable sorted_SliceStable)

end

text \<open>Every comparator of the server compares a key of a linear order.\<close>

locale key_order =
  fixes key :: "'a \<Rightarrow> 'k::linorder"
begin

sublocale strict_weak_order "\<lambda>a b. key a < key b"
  by unfold_locales auto

lemma sorted_by_key: "sorted (map key (SliceStable (\<lambda>a b. key a < key b) xs))"
  using sorted_SliceStable [of xs] by (simp add: sorted_map not_less)

lemma first_has_least_key:
  "x \<in> set xs \<Longrightarrow> key (hd (SliceStable (\<lambda>a b. key a < key b) xs)) \<le> key x"
  using hd_SliceStable [of x xs] by (simp add: not_less)

end

subsection \<open>State machines with an invariant\<close>

locale invariant_system =
  fixes initial :: "'s \<Rightarrow> bool"
    and step :: "'s \<Rightarrow> 's \<Rightarrow> bool"
    and inv :: "'s \<Rightarrow> bool"
  assumes inv_initial: "initial s \<Longrightarrow> inv s"
    and inv_step: "step s t \<Longrightarrow> inv s \<Longrightarrow> inv t"
begin

lemma inv_steps: "step\<^sup>*\<^sup>* s t \<Longrightarrow> inv s \<Longrightarrow> inv t"
  by (induction rule: rtranclp_induct) (auto dest: inv_step)

lemma inv_reachable: "initial s \<Longrightarrow> step\<^sup>*\<^sup>* s t \<Longrightarrow> inv t"
  using inv_initial inv_steps by blast

end

end
