(* ===== verification/GoStd.thy ===== *)
theory GoStd
  imports Prelude
begin

text \<open>
  The parts of Go's standard library the server computes with: \<^verbatim>\<open>strconv\<close> (decimal parsing and
  formatting), \<^verbatim>\<open>strings.Cut\<close>, \<^verbatim>\<open>strings.TrimSpace\<close> and \<^verbatim>\<open>strings.ToLower\<close> on ASCII letters, \<^verbatim>\<open>encoding/binary\<close>
  little-endian integers, \<^verbatim>\<open>encoding/hex\<close> decoding and \<^verbatim>\<open>unicode/utf8.RuneCountInString\<close>. A Go string is
  a byte string, which is what HOL's \<^typ>\<open>string\<close> is: a list of 8-bit characters whose length is
  Go's \<^verbatim>\<open>len\<close>.
\<close>

subsection \<open>Bytes and characters\<close>

definition byte_of_char :: "char \<Rightarrow> u8" where
  "byte_of_char c = of_nat (of_char c)"

definition char_of_byte :: "u8 \<Rightarrow> char" where
  "char_of_byte b = char_of (unat b)"

abbreviation bytes_of_string :: "string \<Rightarrow> bytes" where
  "bytes_of_string s \<equiv> map byte_of_char s"

abbreviation string_of_bytes :: "bytes \<Rightarrow> string" where
  "string_of_bytes bs \<equiv> map char_of_byte bs"

lemma of_char_less_256: "(of_char c :: nat) < 256"
  by (metis nat_of_char_less_256)

lemma unat_byte_of_char: "unat (byte_of_char c) = of_char c"
  using of_char_less_256 [of c] by (simp add: byte_of_char_def of_nat_inverse)

lemma char_of_byte_of_char [simp]: "char_of_byte (byte_of_char c) = c"
  unfolding char_of_byte_def unat_byte_of_char by simp

lemma string_of_bytes_of_string [simp]: "string_of_bytes (bytes_of_string s) = s"
  by (induction s) auto

subsection \<open>Decimal numbers: strconv.ParseUint, FormatUint, Atoi\<close>

definition digit_val :: "char \<Rightarrow> nat option" where
  "digit_val c = (let n = of_char c :: nat in if 48 \<le> n \<and> n \<le> 57 then Some (n - 48) else None)"

definition digit_char :: "nat \<Rightarrow> char" where
  "digit_char d = char_of (48 + d)"

fun parse_digits :: "nat \<Rightarrow> string \<Rightarrow> nat option" where
  "parse_digits acc [] = Some acc"
| "parse_digits acc (c # cs) =
     (case digit_val c of None \<Rightarrow> None | Some d \<Rightarrow> parse_digits (10 * acc + d) cs)"

definition ParseUint :: "string \<Rightarrow> nat \<Rightarrow> nat option" where
  "ParseUint s bits =
     (if s = [] then None
      else case parse_digits 0 s of
        None \<Rightarrow> None
      | Some n \<Rightarrow> (if n < 2 ^ bits then Some n else None))"

fun FormatUint :: "nat \<Rightarrow> string" where
  "FormatUint n =
     (if n < 10 then [digit_char n] else FormatUint (n div 10) @ [digit_char (n mod 10)])"

declare FormatUint.simps [simp del]

definition Atoi :: "string \<Rightarrow> int option" where
  "Atoi s =
     (let (neg, ds) = (case s of [] \<Rightarrow> (False, [])
                       | c # cs \<Rightarrow> if c = CHR ''-'' then (True, cs)
                                    else if c = CHR ''+'' then (False, cs) else (False, s))
      in if ds = [] then None
         else case parse_digits 0 ds of
           None \<Rightarrow> None
         | Some n \<Rightarrow>
             (if neg then (if n \<le> 2 ^ 63 then Some (- int n) else None)
              else (if n < 2 ^ 63 then Some (int n) else None)))"

lemma digit_val_char [simp]: "d < 10 \<Longrightarrow> digit_val (digit_char d) = Some d"
  by (simp add: digit_val_def digit_char_def of_char_of Let_def)

lemma digit_val_less: "digit_val c = Some d \<Longrightarrow> d < 10"
  by (auto simp: digit_val_def Let_def split: if_splits)

lemma parse_digits_append:
  "parse_digits acc (xs @ ys) =
     (case parse_digits acc xs of None \<Rightarrow> None | Some n \<Rightarrow> parse_digits n ys)"
  by (induction acc xs rule: parse_digits.induct) (auto split: option.splits)

lemma FormatUint_nonempty [simp]: "FormatUint n \<noteq> []"
  by (subst FormatUint.simps) simp

lemma parse_digits_FormatUint: "parse_digits 0 (FormatUint n) = Some n"
proof (induction n rule: FormatUint.induct)
  case (1 n)
  show ?case
  proof (cases "n < 10")
    case True
    then show ?thesis by (simp add: FormatUint.simps [of n])
  next
    case False
    then have "parse_digits 0 (FormatUint n) =
        parse_digits (n div 10) [digit_char (n mod 10)]"
      using 1 by (simp add: FormatUint.simps [of n] parse_digits_append)
    then show ?thesis by simp
  qed
qed

lemma ParseUint_FormatUint: "n < 2 ^ bits \<Longrightarrow> ParseUint (FormatUint n) bits = Some n"
  by (simp add: ParseUint_def parse_digits_FormatUint)

lemma ParseUint_bound: "ParseUint s bits = Some n \<Longrightarrow> n < 2 ^ bits"
  by (auto simp: ParseUint_def split: if_splits option.splits)

lemma FormatUint_inject: "FormatUint m = FormatUint n \<Longrightarrow> m = n"
  by (metis option.inject parse_digits_FormatUint)

lemma digit_char_digit: "d < 10 \<Longrightarrow> \<exists>e. digit_val (digit_char d) = Some e"
  by simp

lemma FormatUint_digits: "c \<in> set (FormatUint n) \<Longrightarrow> \<exists>d. digit_val c = Some d"
proof (induction n rule: FormatUint.induct)
  case (1 n)
  show ?case
  proof (cases "n < 10")
    case True
    with "1.prems" show ?thesis by (simp add: FormatUint.simps [of n] digit_char_digit)
  next
    case False
    then have "c \<in> set (FormatUint (n div 10)) \<or> c = digit_char (n mod 10)"
      using "1.prems" by (auto simp add: FormatUint.simps [of n])
    then show ?thesis using False "1.IH" digit_char_digit [of "n mod 10"] by auto
  qed
qed

text \<open>Computing with concrete numbers, and the length of what is printed.\<close>

lemma digit_char_eqI:
  assumes "of_char c = 48 + d"
  shows "digit_char d = c"
  unfolding digit_char_def assms [symmetric] by simp

lemma digit_chars:
  "digit_char 0 = CHR ''0''" "digit_char 1 = CHR ''1''" "digit_char 2 = CHR ''2''" "digit_char 3 = CHR ''3''"
  "digit_char 4 = CHR ''4''" "digit_char 5 = CHR ''5''" "digit_char 6 = CHR ''6''" "digit_char 7 = CHR ''7''"
  "digit_char 8 = CHR ''8''" "digit_char 9 = CHR ''9''"
  by (rule digit_char_eqI; simp)+

lemmas decimal_eval = FormatUint.simps digit_chars digit_chars(2) [simplified]

lemma length_FormatUint: "n < 10 ^ Suc k \<Longrightarrow> length (FormatUint n) \<le> Suc k"
proof (induction k arbitrary: n)
  case 0
  then show ?case by (simp add: FormatUint.simps)
next
  case (Suc k)
  have "n div 10 < 10 ^ Suc k" using Suc.prems by (simp add: div_less_iff_less_mult)
  then show ?case using Suc.IH [of "n div 10"] by (subst FormatUint.simps) simp
qed

subsection \<open>strings.Cut, TrimSpace, ToLower\<close>

definition Cut :: "string \<Rightarrow> char \<Rightarrow> string \<times> string \<times> bool" where
  "Cut s sep = (takeWhile (\<lambda>c. c \<noteq> sep) s, tl (dropWhile (\<lambda>c. c \<noteq> sep) s), sep \<in> set s)"

lemma Cut_found: "sep \<notin> set a \<Longrightarrow> Cut (a @ sep # b) sep = (a, b, True)"
  by (induction a) (auto simp: Cut_def)

lemma Cut_absent: "sep \<notin> set a \<Longrightarrow> Cut a sep = (a, [], False)"
  by (induction a) (auto simp: Cut_def)

text \<open>The length of the UTF-8 encoding of a space (\<^verbatim>\<open>unicode.IsSpace\<close>) at the start of a string, 0 if
  there is none.\<close>

definition space_length :: "string \<Rightarrow> nat" where
  "space_length s =
     (let bs = map of_char s :: nat list in
      if bs = [] then 0
      else if hd bs \<in> {9, 10, 11, 12, 13, 32} then 1
      else if take 2 bs \<in> {[0xC2, 0x85], [0xC2, 0xA0]} then 2
      else if take 3 bs \<in> {[0xE1, 0x9A, 0x80], [0xE2, 0x80, 0xA8], [0xE2, 0x80, 0xA9],
             [0xE2, 0x80, 0xAF], [0xE2, 0x81, 0x9F], [0xE3, 0x80, 0x80]}
        \<or> (take 2 bs = [0xE2, 0x80] \<and> 2 < length bs \<and> 0x80 \<le> bs ! 2 \<and> bs ! 2 \<le> 0x8A) then 3
      else 0)"

lemma space_length_Nil [simp]: "space_length [] = 0"
  by (simp add: space_length_def)

lemma space_length_ascii: "33 \<le> (of_char c :: nat) \<Longrightarrow> (of_char c :: nat) < 128 \<Longrightarrow> space_length (c # s) = 0"
  by (auto simp: space_length_def Let_def)

function trim_left :: "string \<Rightarrow> string" where
  "trim_left s = (if space_length s = 0 then s else trim_left (drop (space_length s) s))"
  by pat_completeness auto
termination
proof (relation "measure length")
  fix s
  assume "space_length s \<noteq> 0"
  then have "s \<noteq> []" by auto
  with \<open>space_length s \<noteq> 0\<close> show "(drop (space_length s) s, s) \<in> measure length" by simp
qed simp

definition last_space :: "string \<Rightarrow> nat option" where
  "last_space s = List.find (\<lambda>n. n \<le> length s \<and> space_length (drop (length s - n) s) = n) [1, 2, 3]"

function trim_right :: "string \<Rightarrow> string" where
  "trim_right s =
     (case last_space s of None \<Rightarrow> s | Some n \<Rightarrow> trim_right (take (length s - n) s))"
  by pat_completeness auto
termination
proof (relation "measure length")
  fix s n
  assume "last_space s = Some n"
  then have "n \<in> {1, 2, 3}" "n \<le> length s"
    by (auto simp: last_space_def split: if_splits)
  then show "(take (length s - n) s, s) \<in> measure length" by auto
qed simp

declare trim_left.simps [simp del] trim_right.simps [simp del]

definition TrimSpace :: "string \<Rightarrow> string" where
  "TrimSpace s = trim_right (trim_left s)"

definition to_lower_char :: "char \<Rightarrow> char" where
  "to_lower_char c = (let n = of_char c :: nat in if 65 \<le> n \<and> n \<le> 90 then char_of (n + 32) else c)"

definition ToLower :: "string \<Rightarrow> string" where
  "ToLower s = map to_lower_char s"

subsection \<open>strings.Split, strings.Join and path/filepath\<close>

fun split_on :: "char \<Rightarrow> string \<Rightarrow> string list" where
  "split_on sep [] = [[]]"
| "split_on sep (c # cs) =
     (if c = sep then [] # split_on sep cs
      else (case split_on sep cs of [] \<Rightarrow> [[c]] | w # ws \<Rightarrow> (c # w) # ws))"

fun join :: "string \<Rightarrow> string list \<Rightarrow> string" where
  "join sep [] = []"
| "join sep [w] = w"
| "join sep (w # ws) = w @ sep @ join sep ws"

lemma split_on_nonempty [simp]: "split_on sep xs \<noteq> []"
  by (induction sep xs rule: split_on.induct) (auto split: list.splits)

lemma split_on_absent: "sep \<notin> set w \<Longrightarrow> split_on sep w = [w]"
  by (induction w) auto

lemma split_on_append: "sep \<notin> set w \<Longrightarrow> split_on sep (w @ sep # r) = w # split_on sep r"
  by (induction w) auto

lemma split_on_join:
  "ws \<noteq> [] \<Longrightarrow> \<forall>w \<in> set ws. sep \<notin> set w \<Longrightarrow> split_on sep (join [sep] ws) = ws"
  by (induction "[sep]" ws rule: join.induct) (auto simp: split_on_absent split_on_append)

text \<open>\<^verbatim>\<open>filepath.Clean\<close> on Unix: components are kept on a stack, \<^verbatim>\<open>.\<close> and empty ones dropped, \<^verbatim>\<open>..\<close> pops.\<close>

fun clean_path :: "bool \<Rightarrow> string list \<Rightarrow> string list \<Rightarrow> string list" where
  "clean_path rooted stack [] = rev stack"
| "clean_path rooted stack (c # cs) =
     (if c = [] \<or> c = ''.'' then clean_path rooted stack cs
      else if c = ''..'' then
        (case stack of
           [] \<Rightarrow> clean_path rooted (if rooted then [] else [c]) cs
         | d # ds \<Rightarrow> clean_path rooted (if d = ''..'' then c # stack else ds) cs)
      else clean_path rooted (c # stack) cs)"

definition Clean :: "string \<Rightarrow> string" where
  "Clean p =
     (let rooted = (p \<noteq> [] \<and> hd p = CHR ''/'');
          out = (if rooted then ''/'' else []) @ join ''/'' (clean_path rooted [] (split_on (CHR ''/'') p))
      in if out = [] then ''.'' else out)"

definition Join :: "string \<Rightarrow> string \<Rightarrow> string" where
  "Join d f = (if d = [] then Clean f else Clean (d @ ''/'' @ f))"

text \<open>\<^verbatim>\<open>filepath.Dir\<close>: all but the last component.\<close>

definition Dir :: "string \<Rightarrow> string" where
  "Dir p = Clean (rev (dropWhile (\<lambda>c. c \<noteq> CHR ''/'') (rev p)))"

subsection \<open>encoding/binary: little-endian integers\<close>

fun le_bytes :: "nat \<Rightarrow> nat \<Rightarrow> bytes" where
  "le_bytes 0 n = []"
| "le_bytes (Suc k) n = of_nat (n mod 256) # le_bytes k (n div 256)"

fun of_le :: "bytes \<Rightarrow> nat" where
  "of_le [] = 0"
| "of_le (b # bs) = unat b + 256 * of_le bs"

lemma length_le_bytes [simp]: "length (le_bytes k n) = k"
  by (induction k n rule: le_bytes.induct) auto

lemma of_le_le_bytes: "of_le (le_bytes k n) = n mod 256 ^ k"
proof (induction k n rule: le_bytes.induct)
  case (1 n)
  then show ?case by simp
next
  case (2 k n)
  have "unat (of_nat (n mod 256) :: u8) = n mod 256"
    by (simp add: unat_of_nat)
  with 2 show ?case by (simp add: mod_mult2_eq add.commute)
qed

lemma of_le_bound: "of_le bs < 256 ^ length bs"
proof (induction bs)
  case Nil
  then show ?case by simp
next
  case (Cons b bs)
  have "unat b < 256" using unsigned_less [of b, where ?'a = nat] by simp
  with Cons show ?case by simp
qed

subsection \<open>encoding/hex: DecodeString\<close>

definition hex_val :: "char \<Rightarrow> nat option" where
  "hex_val c = (let n = of_char c :: nat in
     if 48 \<le> n \<and> n \<le> 57 then Some (n - 48)
     else if 97 \<le> n \<and> n \<le> 102 then Some (n - 87)
     else if 65 \<le> n \<and> n \<le> 70 then Some (n - 55) else None)"

fun HexDecodeString :: "string \<Rightarrow> bytes option" where
  "HexDecodeString [] = Some []"
| "HexDecodeString [c] = None"
| "HexDecodeString (c # d # cs) =
     (case (hex_val c, hex_val d, HexDecodeString cs) of
        (Some h, Some l, Some bs) \<Rightarrow> Some (of_nat (16 * h + l) # bs)
      | _ \<Rightarrow> None)"

lemma HexDecodeString_length: "HexDecodeString s = Some bs \<Longrightarrow> length s = 2 * length bs"
  by (induction s arbitrary: bs rule: HexDecodeString.induct) (auto split: option.splits)

definition hex_digit :: "nat \<Rightarrow> char" where
  "hex_digit d = (if d < 10 then char_of (48 + d) else char_of (87 + d))"

fun HexEncodeToString :: "bytes \<Rightarrow> string" where
  "HexEncodeToString [] = []"
| "HexEncodeToString (b # bs) =
     hex_digit (unat b div 16) # hex_digit (unat b mod 16) # HexEncodeToString bs"

lemma hex_val_digit [simp]: "d < 16 \<Longrightarrow> hex_val (hex_digit d) = Some d"
  by (simp add: hex_val_def hex_digit_def of_char_of Let_def)

lemma HexDecode_Encode [simp]: "HexDecodeString (HexEncodeToString bs) = Some bs"
proof (induction bs)
  case (Cons b bs)
  have "unat b < 256" using unsigned_less [of b, where ?'a = nat] by simp
  then have "unat b div 16 < 16" "unat b mod 16 < 16" by auto
  moreover have "of_nat (16 * (unat b div 16) + unat b mod 16) = b" by simp
  ultimately show ?case using Cons by simp
qed simp

lemma length_HexEncode [simp]: "length (HexEncodeToString bs) = 2 * length bs"
  by (induction bs) auto

subsection \<open>unicode/utf8: RuneCountInString\<close>

definition between :: "nat \<Rightarrow> nat \<Rightarrow> nat \<Rightarrow> bool" where
  "between lo hi n = (lo \<le> n \<and> n \<le> hi)"

definition first_class :: "nat \<Rightarrow> (nat \<times> nat \<times> nat) option" where
  "first_class b =
     (if between 194 223 b then Some (2, 128, 191)
      else if b = 224 then Some (3, 160, 191)
      else if b = 237 then Some (3, 128, 159)
      else if between 225 239 b then Some (3, 128, 191)
      else if b = 240 then Some (4, 144, 191)
      else if between 241 243 b then Some (4, 128, 191)
      else if b = 244 then Some (4, 128, 143)
      else None)"

definition rune_size :: "nat list \<Rightarrow> nat" where
  "rune_size bs =
     (case first_class (hd bs) of
        None \<Rightarrow> 1
      | Some (sz, lo, hi) \<Rightarrow>
          if length bs < sz then 1
          else if between lo hi (bs ! 1) \<and> (\<forall>i < sz - 2. between 128 191 (bs ! (i + 2))) then sz
          else 1)"

lemma rune_size_pos: "0 < rune_size bs"
  by (auto simp: rune_size_def first_class_def split: option.splits if_splits)

function rune_count :: "nat list \<Rightarrow> nat" where
  "rune_count bs = (if bs = [] then 0 else Suc (rune_count (drop (rune_size bs) bs)))"
  by pat_completeness auto
termination
  by (relation "measure length") (auto simp: rune_size_pos)

declare rune_count.simps [simp del]

definition RuneCountInString :: "string \<Rightarrow> nat" where
  "RuneCountInString s = rune_count (map of_char s)"

lemma rune_count_le: "rune_count bs \<le> length bs"
proof (induction bs rule: rune_count.induct)
  case (1 bs)
  show ?case
  proof (cases "bs = []")
    case True
    then show ?thesis by (simp add: rune_count.simps)
  next
    case False
    have "rune_count (drop (rune_size bs) bs) \<le> length bs - rune_size bs"
      using 1 False by (metis length_drop)
    moreover have "rune_count bs = Suc (rune_count (drop (rune_size bs) bs))"
      using False by (simp add: rune_count.simps [of bs])
    moreover have "0 < length bs" using False by simp
    ultimately show ?thesis using rune_size_pos [of bs] by linarith
  qed
qed

text \<open>Every string has at most as many characters as bytes.\<close>

lemma RuneCountInString_le: "RuneCountInString s \<le> length s"
  using rune_count_le [of "map of_char s"] by (simp add: RuneCountInString_def)

end
