(* ===== verification/NexCore.thy ===== *)
theory NexCore
  imports GoStd
begin

text \<open>
  What the server takes from \<^verbatim>\<open>nex-go\<close> (vendored under \<^verbatim>\<open>src/third_party/nex-go\<close>): NEX errors and the
  result codes it returns, the wire encoding of the primitive types and its decoding, with the
  locale of a codec that returns the unread input, and the RMC response a handler builds. Structures
  of \<^verbatim>\<open>nex-protocols-go\<close> (not in the repository) have no known encoding here: \<^verbatim>\<open>WriteTo\<close> takes it as
  a parameter. Protocol and method identifiers of that package appear by name.
\<close>

subsection \<open>Result codes and errors (result_codes.go, error.go)\<close>

definition Core_Unknown :: u32 where "Core_Unknown = 0x00010001"

definition Core_NotImplemented :: u32 where "Core_NotImplemented = 0x00010002"

definition Core_InvalidArgument :: u32 where "Core_InvalidArgument = 0x0001000A"

definition RendezVous_InvalidUsername :: u32 where "RendezVous_InvalidUsername = 0x00030064"

definition RendezVous_SessionVoid :: u32 where "RendezVous_SessionVoid = 0x00030073"

definition RendezVous_SessionFull :: u32 where "RendezVous_SessionFull = 0x000300C8"

definition RendezVous_InvalidOperation :: u32 where "RendezVous_InvalidOperation = 0x000300D3"

definition RendezVous_AlreadyParticipatedGathering :: u32 where
  "RendezVous_AlreadyParticipatedGathering = 0x000300D8"

definition RendezVous_PermissionDenied :: u32 where "RendezVous_PermissionDenied = 0x000300D9"

definition RendezVous_NotFriend :: u32 where "RendezVous_NotFriend = 0x000300DA"

definition Ranking_InvalidArgument :: u32 where "Ranking_InvalidArgument = 0x00670002"

definition Ranking_NotFound :: u32 where "Ranking_NotFound = 0x00670005"

definition Ranking_Unknown :: u32 where "Ranking_Unknown = 0x0067000A"

definition Authentication_ValidationFailed :: u32 where
  "Authentication_ValidationFailed = 0x00680007"

lemmas result_code_defs =
  Core_Unknown_def Core_NotImplemented_def Core_InvalidArgument_def
  RendezVous_InvalidUsername_def RendezVous_SessionVoid_def RendezVous_SessionFull_def
  RendezVous_InvalidOperation_def RendezVous_AlreadyParticipatedGathering_def
  RendezVous_PermissionDenied_def RendezVous_NotFriend_def Ranking_InvalidArgument_def
  Ranking_NotFound_def Ranking_Unknown_def Authentication_ValidationFailed_def

record nex_error =
  ResultCode :: u32
  Message :: string

definition errorMask :: u32 where "errorMask = push_bit 31 1"

definition NewError :: "u32 \<Rightarrow> string \<Rightarrow> nex_error" where
  "NewError code msg =
     \<lparr>ResultCode = (if code AND errorMask = 0 then code OR errorMask else code), Message = msg\<rparr>"

text \<open>Every error carries the most significant bit, and marking a code twice changes nothing.\<close>

lemma bit_errorMask: "bit errorMask n \<longleftrightarrow> n = 31"
  unfolding errorMask_def bit_push_bit_iff bit_1_iff by auto

lemma and_errorMask: "x AND errorMask = (if bit x 31 then errorMask else 0)"
  by (rule bit_word_eqI) (auto simp: bit_and_iff bit_errorMask)

lemma NewError_marked: "ResultCode (NewError code msg) AND errorMask = errorMask"
  by (auto simp: NewError_def and_errorMask bit_or_iff bit_errorMask)

subsection \<open>Wire encoding of the primitive types (byte_stream_out.go, types/)\<close>

record stream_settings =
  StringLengthSize :: nat
  PIDSize :: nat
  UseStructureHeader :: bool

definition NewByteStreamSettings :: stream_settings where
  "NewByteStreamSettings = \<lparr>StringLengthSize = 2, PIDSize = 4, UseStructureHeader = False\<rparr>"

datatype 'f wire =
    WBool bool
  | WU8 u8
  | WU16 u16
  | WU32 u32
  | WU64 u64
  | WPID u64
  | WString string
  | WBuffer bytes
  | WList "'f wire list"
  | WStruct 'f

definition write_string :: "stream_settings \<Rightarrow> string \<Rightarrow> bytes" where
  "write_string cfg s =
     (let z = s @ [CHR 0x00]; n = length z in
      (if StringLengthSize cfg = 4 then le_bytes 4 n else le_bytes 2 n) @ bytes_of_string z)"

definition write_buffer :: "bytes \<Rightarrow> bytes" where
  "write_buffer b = le_bytes 4 (length b) @ b"

definition write_pid :: "stream_settings \<Rightarrow> u64 \<Rightarrow> bytes" where
  "write_pid cfg p = (if PIDSize cfg = 8 then le_bytes 8 (unat p) else le_bytes 4 (unat p))"

definition write_list :: "('a \<Rightarrow> bytes) \<Rightarrow> 'a list \<Rightarrow> bytes" where
  "write_list w xs = le_bytes 4 (length xs) @ concat (map w xs)"

lemma write_list_cong [fundef_cong]:
  "xs = ys \<Longrightarrow> (\<And>x. x \<in> set ys \<Longrightarrow> w x = v x) \<Longrightarrow> write_list w xs = write_list v ys"
  by (auto simp: write_list_def cong: map_cong)

fun WriteTo :: "stream_settings \<Rightarrow> ('f \<Rightarrow> bytes) \<Rightarrow> 'f wire \<Rightarrow> bytes" where
  "WriteTo cfg fw (WBool b) = [if b then 1 else 0]"
| "WriteTo cfg fw (WU8 x) = le_bytes 1 (unat x)"
| "WriteTo cfg fw (WU16 x) = le_bytes 2 (unat x)"
| "WriteTo cfg fw (WU32 x) = le_bytes 4 (unat x)"
| "WriteTo cfg fw (WU64 x) = le_bytes 8 (unat x)"
| "WriteTo cfg fw (WPID p) = write_pid cfg p"
| "WriteTo cfg fw (WString s) = write_string cfg s"
| "WriteTo cfg fw (WBuffer b) = write_buffer b"
| "WriteTo cfg fw (WList ws) = write_list (WriteTo cfg fw) ws"
| "WriteTo cfg fw (WStruct f) = fw f"

subsection \<open>Reading it back (byte_stream_in.go, ExtractFrom)\<close>

definition read_bytes :: "nat \<Rightarrow> bytes \<Rightarrow> (bytes \<times> bytes) option" where
  "read_bytes n bs = (if length bs < n then None else Some (take n bs, drop n bs))"

definition read_le :: "nat \<Rightarrow> bytes \<Rightarrow> (nat \<times> bytes) option" where
  "read_le k bs = map_option (\<lambda>(x, r). (of_le x, r)) (read_bytes k bs)"

definition read_u32 :: "bytes \<Rightarrow> (u32 \<times> bytes) option" where
  "read_u32 bs = map_option (\<lambda>(n, r). (of_nat n, r)) (read_le 4 bs)"

definition trim_nul :: "string \<Rightarrow> string" where
  "trim_nul s = rev (dropWhile (\<lambda>c. c = CHR 0x00) (rev s))"

definition read_string :: "stream_settings \<Rightarrow> bytes \<Rightarrow> (string \<times> bytes) option" where
  "read_string cfg bs =
     (case read_le (if StringLengthSize cfg = 4 then 4 else 2) bs of
        None \<Rightarrow> None
      | Some (n, r) \<Rightarrow>
          (case read_bytes n r of
             None \<Rightarrow> None
           | Some (d, r') \<Rightarrow> Some (trim_nul (string_of_bytes d), r')))"

definition read_buffer :: "bytes \<Rightarrow> (bytes \<times> bytes) option" where
  "read_buffer bs = (case read_le 4 bs of None \<Rightarrow> None | Some (n, r) \<Rightarrow> read_bytes n r)"

fun read_items :: "(bytes \<Rightarrow> ('a \<times> bytes) option) \<Rightarrow> nat \<Rightarrow> bytes \<Rightarrow> ('a list \<times> bytes) option" where
  "read_items rd 0 bs = Some ([], bs)"
| "read_items rd (Suc n) bs =
     (case rd bs of
        None \<Rightarrow> None
      | Some (x, r) \<Rightarrow> map_option (\<lambda>(xs, r'). (x # xs, r')) (read_items rd n r))"

definition read_list :: "(bytes \<Rightarrow> ('a \<times> bytes) option) \<Rightarrow> bytes \<Rightarrow> ('a list \<times> bytes) option" where
  "read_list rd bs = (case read_le 4 bs of None \<Rightarrow> None | Some (n, r) \<Rightarrow> read_items rd n r)"

lemma read_bytes_append [simp]: "read_bytes (length x) (x @ r) = Some (x, r)"
  by (simp add: read_bytes_def)

lemma read_le_append: "read_le k (le_bytes k n @ r) = Some (n mod 256 ^ k, r)"
  using read_bytes_append [of "le_bytes k n" r] by (simp add: read_le_def of_le_le_bytes)

text \<open>A codec decodes what it encoded and returns the rest of the input unread.\<close>

locale codec =
  fixes enc :: "'a \<Rightarrow> bytes"
    and dec :: "bytes \<Rightarrow> ('a \<times> bytes) option"
    and ok :: "'a \<Rightarrow> bool"
  assumes dec_enc: "ok x \<Longrightarrow> dec (enc x @ rest) = Some (x, rest)"
begin

lemma dec_enc_all: "ok x \<Longrightarrow> dec (enc x) = Some (x, [])"
  using dec_enc [of x "[]"] by simp

lemma enc_inject: "ok x \<Longrightarrow> ok y \<Longrightarrow> enc x = enc y \<Longrightarrow> x = y"
  by (metis dec_enc_all fst_conv option.inject)

lemma read_items_enc:
  "\<forall>x \<in> set xs. ok x \<Longrightarrow> read_items dec (length xs) (concat (map enc xs) @ rest) = Some (xs, rest)"
  by (induction xs) (auto simp: dec_enc)

lemma list_codec:
  "codec (write_list enc) (read_list dec) (\<lambda>xs. length xs < 2 ^ 32 \<and> (\<forall>x \<in> set xs. ok x))"
  by unfold_locales (simp add: write_list_def read_list_def read_le_append read_items_enc)

end

lemma trim_nul_string: "s = [] \<or> last s \<noteq> CHR 0x00 \<Longrightarrow> trim_nul (s @ [CHR 0x00]) = s"
  by (cases s rule: rev_cases) (auto simp: trim_nul_def)

text \<open>The strings that survive the wire: short enough for the length field, and with no trailing
  terminator of their own (the reader trims them all).\<close>

definition wire_string :: "stream_settings \<Rightarrow> string \<Rightarrow> bool" where
  "wire_string cfg s \<longleftrightarrow>
     length s + 1 < (if StringLengthSize cfg = 4 then 2 ^ 32 else 2 ^ 16) \<and>
     (s = [] \<or> last s \<noteq> CHR 0x00)"

interpretation string_codec: codec "write_string cfg" "read_string cfg" "wire_string cfg"
proof
  fix s rest
  assume ok: "wire_string cfg s"
  let ?k = "if StringLengthSize cfg = 4 then 4 else 2 :: nat"
  have len: "Suc (length s) mod 256 ^ ?k = Suc (length s)"
    using ok by (auto simp: wire_string_def split: if_splits)
  have enc: "write_string cfg s =
      le_bytes ?k (Suc (length s)) @ bytes_of_string (s @ [CHR 0x00])"
    by (simp add: write_string_def Let_def)
  have "read_bytes (Suc (length s)) (bytes_of_string (s @ [CHR 0x00]) @ rest) =
      Some (bytes_of_string (s @ [CHR 0x00]), rest)"
    using read_bytes_append [of "bytes_of_string (s @ [CHR 0x00])" rest] by simp
  then show "read_string cfg (write_string cfg s @ rest) = Some (s, rest)"
    using len ok
    by (simp only: enc read_string_def append_assoc read_le_append option.case prod.case
        string_of_bytes_of_string) (simp add: trim_nul_string wire_string_def)
qed

interpretation buffer_codec: codec write_buffer read_buffer "\<lambda>b. length b < 2 ^ 32"
  by unfold_locales (simp add: write_buffer_def read_buffer_def read_le_append)

interpretation u32_codec: codec "\<lambda>x :: u32. le_bytes 4 (unat x)" read_u32 "\<lambda>_. True"
proof
  fix x :: u32 and rest
  have "unat x < 256 ^ 4" using unsigned_less [of x, where ?'a = nat] by simp
  then show "read_u32 (le_bytes 4 (unat x) @ rest) = Some (x, rest)"
    by (simp add: read_u32_def read_le_append)
qed

subsection \<open>Responses (matchmaking/protocol.go)\<close>

record 'f response =
  ProtocolID :: string
  MethodID :: string
  CallID :: u32
  Body :: "'f wire list"

definition respond :: "string \<Rightarrow> string \<Rightarrow> u32 \<Rightarrow> 'f wire list \<Rightarrow> 'f response" where
  "respond proto method callID body =
     \<lparr>ProtocolID = proto, MethodID = method, CallID = callID, Body = body\<rparr>"

definition respondEmpty :: "string \<Rightarrow> string \<Rightarrow> u32 \<Rightarrow> 'f response" where
  "respondEmpty proto method callID = respond proto method callID []"

definition invalidArgument :: "string option \<Rightarrow> nex_error" where
  "invalidArgument err =
     (case err of
        Some e \<Rightarrow> NewError Core_InvalidArgument e
      | None \<Rightarrow> NewError Core_InvalidArgument ''Invalid argument'')"

lemma Body_respond [simp]: "Body (respond p m c b) = b"
  by (simp add: respond_def)

lemma Body_respondEmpty [simp]: "Body (respondEmpty p m c) = []"
  by (simp add: respondEmpty_def)

end
