(* ===== verification/StationURL.thy ===== *)
theory StationURL
  imports NexCore
begin

text \<open>
  Station URLs (\<^verbatim>\<open>src/third_party/nex-go/types/station_url.go\<close>): the addresses consoles publish and
  exchange, \<^verbatim>\<open>prudps:/address=...;port=...;PID=...\<close>. The two parameter maps are HOL maps; where the
  code ranges over one (\<^verbatim>\<open>Format\<close>) the definition takes the order Go's runtime visits the keys in, and
  the lemmas hold for every such order. The main result is that formatting and parsing back
  recovers every parameter, so \<^verbatim>\<open>Copy\<close>, which is implemented that way, loses nothing.
\<close>

subsection \<open>State\<close>

datatype station_url_type =
    UnknownStationURLType
  | StationURLPRUDP
  | StationURLPRUDPS
  | StationURLUDP

record station_url =
  urlType :: station_url_type
  url :: string
  flags :: u8
  standardParams :: "string \<rightharpoonup> string"
  customParams :: "string \<rightharpoonup> string"

definition StationURLFlagBehindNAT :: u8 where "StationURLFlagBehindNAT = 1"

definition StationURLFlagPublic :: u8 where "StationURLFlagPublic = 2"

definition StreamTypeRVSecure :: u8 where "StreamTypeRVSecure = 10"

subsection \<open>Parameters\<close>

definition SetParam :: "string \<Rightarrow> string \<Rightarrow> bool \<Rightarrow> station_url \<Rightarrow> station_url" where
  "SetParam name value custom s =
     (if custom then s\<lparr>customParams := (customParams s)(name \<mapsto> value)\<rparr>
      else s\<lparr>standardParams := (standardParams s)(name \<mapsto> value)\<rparr>)"

definition SetParamValue :: "string \<Rightarrow> string \<Rightarrow> station_url \<Rightarrow> station_url" where
  "SetParamValue name value s = s\<lparr>standardParams := (standardParams s)(name \<mapsto> value)\<rparr>"

definition ParamValue :: "station_url \<Rightarrow> string \<Rightarrow> string option" where
  "ParamValue s name = standardParams s name"

definition numberParamValue :: "station_url \<Rightarrow> string \<Rightarrow> nat \<Rightarrow> nat option" where
  "numberParamValue s name bits =
     (case ParamValue s name of None \<Rightarrow> None | Some v \<Rightarrow> ParseUint v bits)"

definition uint8ParamValue :: "station_url \<Rightarrow> string \<Rightarrow> u8 option" where
  "uint8ParamValue s name = map_option of_nat (numberParamValue s name 8)"

definition uint32ParamValue :: "station_url \<Rightarrow> string \<Rightarrow> u32 option" where
  "uint32ParamValue s name = map_option of_nat (numberParamValue s name 32)"

definition uint64ParamValue :: "station_url \<Rightarrow> string \<Rightarrow> u64 option" where
  "uint64ParamValue s name = map_option of_nat (numberParamValue s name 64)"

definition SetAddress :: "string \<Rightarrow> station_url \<Rightarrow> station_url" where
  "SetAddress address = SetParamValue ''address'' address"

definition Address :: "station_url \<Rightarrow> string option" where
  "Address s = ParamValue s ''address''"

definition SetPortNumber :: "u16 \<Rightarrow> station_url \<Rightarrow> station_url" where
  "SetPortNumber port = SetParamValue ''port'' (FormatUint (unat port))"

definition SetURLType :: "station_url_type \<Rightarrow> station_url \<Rightarrow> station_url" where
  "SetURLType t s = s\<lparr>urlType := t\<rparr>"

definition SetStreamID :: "u8 \<Rightarrow> station_url \<Rightarrow> station_url" where
  "SetStreamID sid = SetParamValue ''sid'' (FormatUint (unat sid))"

definition SetStreamType :: "u8 \<Rightarrow> station_url \<Rightarrow> station_url" where
  "SetStreamType st = SetParamValue ''stream'' (FormatUint (unat st))"

definition SetPrincipalID :: "u64 \<Rightarrow> station_url \<Rightarrow> station_url" where
  "SetPrincipalID p = SetParamValue ''PID'' (FormatUint (unat p))"

definition PrincipalID :: "station_url \<Rightarrow> u64 option" where
  "PrincipalID s = uint64ParamValue s ''PID''"

definition SetConnectionID :: "u32 \<Rightarrow> station_url \<Rightarrow> station_url" where
  "SetConnectionID cid = SetParamValue ''CID'' (FormatUint (unat cid))"

definition SetRVConnectionID :: "u32 \<Rightarrow> station_url \<Rightarrow> station_url" where
  "SetRVConnectionID cid = SetParamValue ''RVCID'' (FormatUint (unat cid))"

definition RVConnectionID :: "station_url \<Rightarrow> u32 option" where
  "RVConnectionID s = uint32ParamValue s ''RVCID''"

definition SetType :: "u8 \<Rightarrow> station_url \<Rightarrow> station_url" where
  "SetType f s = SetParamValue ''type'' (FormatUint (unat f)) (s\<lparr>flags := f\<rparr>)"

definition IsPublic :: "station_url \<Rightarrow> bool" where
  "IsPublic s = (flags s AND StationURLFlagPublic = StationURLFlagPublic)"

definition IsBehindNAT :: "station_url \<Rightarrow> bool" where
  "IsBehindNAT s = (flags s AND StationURLFlagBehindNAT = StationURLFlagBehindNAT)"

lemmas station_setter_defs =
  SetParamValue_def SetAddress_def SetPortNumber_def SetURLType_def SetStreamID_def
  SetStreamType_def SetPrincipalID_def SetConnectionID_def SetRVConnectionID_def SetType_def

subsection \<open>Parsing\<close>

fun split_scheme :: "string \<Rightarrow> (string \<times> string) option" where
  "split_scheme [] = None"
| "split_scheme [c] = None"
| "split_scheme (c # d # cs) =
     (if c = CHR '':'' \<and> d = CHR ''/'' then Some ([], cs)
      else map_option (\<lambda>(a, b). (c # a, b)) (split_scheme (d # cs)))"

definition param_fits :: "string \<Rightarrow> string \<Rightarrow> bool" where
  "param_fits key value =
     (\<not> (key = ''address'' \<and> 256 < length value) \<and>
      (key = ''port'' \<longrightarrow>
         (case Atoi value of None \<Rightarrow> False | Some p \<Rightarrow> 0 \<le> p \<and> p \<le> 65535)))"

fun parse_standard :: "string list \<Rightarrow> station_url \<Rightarrow> station_url \<times> bool" where
  "parse_standard [] s = (s, True)"
| "parse_standard (p # ps) s =
     (let (key, value, found) = Cut p (CHR ''='')
      in if param_fits key value then parse_standard ps (SetParam key value False s) else (s, False))"

fun parse_custom :: "string list \<Rightarrow> station_url \<Rightarrow> station_url" where
  "parse_custom [] s = s"
| "parse_custom (p # ps) s =
     (let (key, value, found) = Cut p (CHR ''='') in parse_custom ps (SetParam key value True s))"

definition scheme_type :: "string \<Rightarrow> station_url_type option" where
  "scheme_type scheme =
     (if scheme = ''prudp'' then Some StationURLPRUDP
      else if scheme = ''prudps'' then Some StationURLPRUDPS
      else if scheme = ''udp'' then Some StationURLUDP else None)"

definition Parse :: "station_url \<Rightarrow> station_url" where
  "Parse s =
     (if url s = [] \<or> 1024 < length (url s) then s
      else case split_scheme (url s) of
        None \<Rightarrow> s
      | Some (scheme, parametersString) \<Rightarrow>
          (case scheme_type scheme of
             None \<Rightarrow> s
           | Some t \<Rightarrow>
               (let s1 = SetURLType t s in
                if parametersString = [] then s1
                else let (standardSection, customSection, found) = Cut parametersString (CHR ''#'');
                         (s2, ok) = parse_standard (split_on (CHR '';'') standardSection) s1
                     in if \<not> ok then s2
                        else let s3 = (if customSection = [] then s2
                                       else parse_custom (split_on (CHR '';'') customSection) s2)
                             in (case uint8ParamValue s3 ''type'' of
                                   Some f \<Rightarrow> s3\<lparr>flags := f\<rparr>
                                 | None \<Rightarrow> s3))))"

definition NewStationURL :: "string \<Rightarrow> station_url" where
  "NewStationURL u =
     Parse \<lparr>urlType = UnknownStationURLType, url = u, flags = 0,
            standardParams = Map.empty, customParams = Map.empty\<rparr>"

subsection \<open>Formatting and copying\<close>

definition scheme_prefix :: "station_url_type \<Rightarrow> string" where
  "scheme_prefix t =
     (case t of StationURLPRUDP \<Rightarrow> ''prudp:/'' | StationURLPRUDPS \<Rightarrow> ''prudps:/''
      | StationURLUDP \<Rightarrow> ''udp:/'' | UnknownStationURLType \<Rightarrow> [])"

definition format_params :: "string list \<Rightarrow> (string \<rightharpoonup> string) \<Rightarrow> string" where
  "format_params ks m = join '';'' (map (\<lambda>k. k @ ''='' @ the (m k)) ks)"

definition Format :: "string list \<Rightarrow> string list \<Rightarrow> station_url \<Rightarrow> station_url" where
  "Format ks cks s =
     (if \<not> list_all (\<lambda>k. param_fits k (the (standardParams s k))) ks then s
      else let u = scheme_prefix (urlType s) @ format_params ks (standardParams s);
               u' = (if cks = [] then u
                     else u @ ''#'' @ format_params cks (customParams s))
           in if 1024 < length u' then s else s\<lparr>url := u'\<rparr>)"

definition URL :: "string list \<Rightarrow> string list \<Rightarrow> station_url \<Rightarrow> string" where
  "URL ks cks s = url (Format ks cks s)"

definition CopyStationURL :: "string list \<Rightarrow> string list \<Rightarrow> station_url \<Rightarrow> station_url" where
  "CopyStationURL ks cks s = NewStationURL (URL ks cks s)"

subsection \<open>Formatting and parsing back\<close>

lemma join_eq_Nil: "\<forall>w \<in> set ws. w \<noteq> [] \<Longrightarrow> join sep ws = [] \<longleftrightarrow> ws = []"
  by (induction sep ws rule: join.induct) auto

lemma set_join: "set (join sep ws) \<subseteq> set sep \<union> (\<Union>w \<in> set ws. set w)"
  by (induction sep ws rule: join.induct) auto

definition clean :: "char list \<Rightarrow> string \<Rightarrow> bool" where
  "clean bad w \<longleftrightarrow> (\<forall>c \<in> set bad. c \<notin> set w)"

text \<open>A parameter map whose keys and values contain none of the separators.\<close>

definition clean_params :: "string \<Rightarrow> (string \<rightharpoonup> string) \<Rightarrow> bool" where
  "clean_params bad m \<longleftrightarrow> (\<forall>k v. m k = Some v \<longrightarrow> clean (CHR ''='' # bad) k \<and> clean bad v)"

definition all_of :: "(string \<rightharpoonup> string) \<Rightarrow> string list \<Rightarrow> bool" where
  "all_of m ks \<longleftrightarrow> distinct ks \<and> set ks = dom m"

definition kv :: "(string \<rightharpoonup> string) \<Rightarrow> string \<Rightarrow> string" where
  "kv m k = k @ ''='' @ the (m k)"

lemma format_params_kv: "format_params ks m = join '';'' (map (kv m) ks)"
  by (simp add: format_params_def kv_def [abs_def])

lemma Cut_kv: "CHR ''='' \<notin> set k \<Longrightarrow> Cut (kv m k) (CHR ''='') = (k, the (m k), True)"
  by (simp add: kv_def Cut_found)

lemma kv_clean:
  assumes "clean_params bad m" and "k \<in> dom m" and "c \<in> set bad" and "c \<noteq> CHR ''=''"
  shows "c \<notin> set (kv m k)"
  using assms by (auto simp: clean_params_def clean_def kv_def)

lemma parse_standard_kv:
  assumes "clean_params bad m" and "set ks \<subseteq> dom m"
    and "\<forall>k \<in> set ks. param_fits k (the (m k))"
  shows "parse_standard (map (kv m) ks) s =
    (s\<lparr>standardParams := standardParams s ++ (m |` set ks)\<rparr>, True)"
  using assms(2,3)
proof (induction ks arbitrary: s)
  case Nil
  then show ?case by (simp add: restrict_map_def map_add_def)
next
  case (Cons k ks)
  then obtain v where v: "m k = Some v" by auto
  have "CHR ''='' \<notin> set k" using assms(1) v by (auto simp: clean_params_def clean_def)
  then have cut: "Cut (kv m k) (CHR ''='') = (k, v, True)" using v by (simp add: Cut_kv)
  have "(standardParams s)(k \<mapsto> v) ++ (m |` set ks) = standardParams s ++ (m |` set (k # ks))"
    using v by (auto simp: fun_eq_iff map_add_def restrict_map_def split: option.splits)
  then show ?case using Cons cut v by (simp add: SetParam_def)
qed

lemma parse_custom_kv:
  assumes "clean_params bad m" and "set ks \<subseteq> dom m"
  shows "parse_custom (map (kv m) ks) s =
    s\<lparr>customParams := customParams s ++ (m |` set ks)\<rparr>"
  using assms(2)
proof (induction ks arbitrary: s)
  case Nil
  then show ?case by (simp add: restrict_map_def map_add_def)
next
  case (Cons k ks)
  then obtain v where v: "m k = Some v" by auto
  have "CHR ''='' \<notin> set k" using assms(1) v by (auto simp: clean_params_def clean_def)
  then have cut: "Cut (kv m k) (CHR ''='') = (k, v, True)" using v by (simp add: Cut_kv)
  have "(customParams s)(k \<mapsto> v) ++ (m |` set ks) = customParams s ++ (m |` set (k # ks))"
    using v by (auto simp: fun_eq_iff map_add_def restrict_map_def split: option.splits)
  then show ?case using Cons cut v by (simp add: SetParam_def)
qed

lemma restrict_all: "all_of m ks \<Longrightarrow> m |` set ks = m"
  by (auto simp: all_of_def restrict_map_def fun_eq_iff split: if_splits)

lemma split_scheme_prefix:
  "t \<noteq> UnknownStationURLType \<Longrightarrow>
   \<exists>n. split_scheme (scheme_prefix t @ r) = Some (n, r) \<and> scheme_type n = Some t"
  by (cases t) (simp_all add: scheme_prefix_def scheme_type_def)

text \<open>What can be written and read back: a known scheme, at least one parameter, clean keys and
  values within the client's limits, and a text of at most 1024 bytes.\<close>

definition formattable :: "string list \<Rightarrow> string list \<Rightarrow> station_url \<Rightarrow> bool" where
  "formattable ks cks s \<longleftrightarrow>
     urlType s \<noteq> UnknownStationURLType \<and> ks \<noteq> [] \<and>
     all_of (standardParams s) ks \<and> all_of (customParams s) cks \<and>
     clean_params '';#'' (standardParams s) \<and> clean_params '';'' (customParams s) \<and>
     (\<forall>k \<in> set ks. param_fits k (the (standardParams s k))) \<and>
     length (scheme_prefix (urlType s) @ format_params ks (standardParams s) @
             (if cks = [] then [] else ''#'' @ format_params cks (customParams s))) \<le> 1024"

lemma URL_formattable:
  "formattable ks cks s \<Longrightarrow>
   URL ks cks s = scheme_prefix (urlType s) @ format_params ks (standardParams s) @
     (if cks = [] then [] else ''#'' @ format_params cks (customParams s))"
  by (auto simp: formattable_def URL_def Format_def Let_def list_all_iff)

lemma kv_nonempty: "\<forall>w \<in> set (map (kv m) ks). w \<noteq> []"
  by (auto simp: kv_def)

lemma clean_format:
  assumes "clean_params bad m" and "set ks \<subseteq> dom m" and "c \<in> set bad"
    and "c \<noteq> CHR ''=''" and "c \<noteq> CHR '';''"
  shows "c \<notin> set (format_params ks m)"
proof -
  have "\<forall>k \<in> set ks. c \<notin> set (kv m k)" using assms kv_clean [OF assms(1)] by blast
  then show ?thesis using set_join [of "'';''" "map (kv m) ks"] assms(5)
    by (auto simp: format_params_kv)
qed

lemma split_format:
  assumes "clean_params bad m" and "set ks \<subseteq> dom m" and "CHR '';'' \<in> set bad" and "ks \<noteq> []"
  shows "split_on (CHR '';'') (format_params ks m) = map (kv m) ks"
  unfolding format_params_kv
  by (rule split_on_join) (use assms kv_clean [OF assms(1)] in auto)

lemma Cut_format:
  assumes "formattable ks cks s"
  shows "Cut (format_params ks (standardParams s) @
      (if cks = [] then [] else ''#'' @ format_params cks (customParams s))) (CHR ''#'') =
    (format_params ks (standardParams s),
     if cks = [] then [] else format_params cks (customParams s), cks \<noteq> [])"
proof -
  have "CHR ''#'' \<notin> set (format_params ks (standardParams s))"
    by (rule clean_format [where bad = "'';#''"]) (use assms in \<open>auto simp: formattable_def all_of_def\<close>)
  then show ?thesis by (auto simp: Cut_found Cut_absent)
qed

text \<open>Parsing the formatted text recovers the scheme and both parameter maps.\<close>

lemma NewStationURL_URL:
  assumes ok: "formattable ks cks s"
  shows "urlType (CopyStationURL ks cks s) = urlType s"
    and "standardParams (CopyStationURL ks cks s) = standardParams s"
    and "customParams (CopyStationURL ks cks s) = customParams s"
    and "flags (CopyStationURL ks cks s) =
      (case uint8ParamValue s ''type'' of Some f \<Rightarrow> f | None \<Rightarrow> 0)"
proof -
  let ?std = "format_params ks (standardParams s)"
  let ?cus = "if cks = [] then [] else format_params cks (customParams s)"
  let ?body = "?std @ (if cks = [] then [] else ''#'' @ format_params cks (customParams s))"
  let ?u = "URL ks cks s"
  have u: "?u = scheme_prefix (urlType s) @ ?body" by (rule URL_formattable [OF ok])
  have sub: "set ks \<subseteq> dom (standardParams s)" and subc: "set cks \<subseteq> dom (customParams s)"
    using ok by (auto simp: formattable_def all_of_def)
  have len: "\<not> 1024 < length ?u" using ok by (auto simp: u formattable_def)
  have ne: "?std \<noteq> []"
    using ok join_eq_Nil [OF kv_nonempty] by (simp add: formattable_def format_params_kv)
  then have une: "?u \<noteq> []" by (simp add: u)
  obtain n where n: "split_scheme ?u = Some (n, ?body)" "scheme_type n = Some (urlType s)"
    using split_scheme_prefix [of "urlType s" ?body] ok unfolding u formattable_def by blast
  have spl: "split_on (CHR '';'') ?std = map (kv (standardParams s)) ks"
    by (rule split_format [where bad = "'';#''"]) (use ok sub in \<open>auto simp: formattable_def\<close>)
  have splc: "cks \<noteq> [] \<Longrightarrow> split_on (CHR '';'') (format_params cks (customParams s)) =
      map (kv (customParams s)) cks"
    by (rule split_format [where bad = "'';''"]) (use ok subc in \<open>auto simp: formattable_def\<close>)
  have std: "parse_standard (map (kv (standardParams s)) ks) s0 =
      (s0\<lparr>standardParams := standardParams s0 ++ standardParams s\<rparr>, True)" for s0
    using parse_standard_kv [of "'';#''" "standardParams s" ks s0] ok sub
    by (simp add: formattable_def restrict_all)
  have cus: "parse_custom (map (kv (customParams s)) cks) s0 =
      s0\<lparr>customParams := customParams s0 ++ customParams s\<rparr>" for s0
    using parse_custom_kv [of "'';''" "customParams s" cks s0] ok subc
    by (simp add: formattable_def restrict_all)
  have cne: "cks \<noteq> [] \<Longrightarrow> format_params cks (customParams s) \<noteq> []"
    using join_eq_Nil [OF kv_nonempty] by (simp add: format_params_kv)
  have cem: "cks = [] \<Longrightarrow> customParams s = Map.empty"
    using ok restrict_all [of "customParams s" "[]"] by (auto simp: formattable_def)
  let ?r = "\<lparr>urlType = urlType s, url = ?u, flags = 0,
      standardParams = standardParams s, customParams = customParams s\<rparr>"
  have "CopyStationURL ks cks s = (case uint8ParamValue ?r ''type'' of
      Some f \<Rightarrow> ?r\<lparr>flags := f\<rparr> | None \<Rightarrow> ?r)"
  proof (cases "cks = []")
    case True
    then show ?thesis using une len ne cem Cut_format [OF ok] n
      by (simp add: CopyStationURL_def NewStationURL_def Parse_def spl std SetURLType_def Let_def
          split: option.split)
  next
    case False
    then show ?thesis using une len ne cne Cut_format [OF ok] n
      by (simp add: CopyStationURL_def NewStationURL_def Parse_def spl splc std cus
          SetURLType_def Let_def split: option.split)
  qed
  moreover have "uint8ParamValue ?r ''type'' = uint8ParamValue s ''type''"
    by (simp add: uint8ParamValue_def numberParamValue_def ParamValue_def)
  ultimately show "urlType (CopyStationURL ks cks s) = urlType s"
    and "standardParams (CopyStationURL ks cks s) = standardParams s"
    and "customParams (CopyStationURL ks cks s) = customParams s"
    and "flags (CopyStationURL ks cks s) =
      (case uint8ParamValue s ''type'' of Some f \<Rightarrow> f | None \<Rightarrow> 0)"
    by (simp_all split: option.splits)
qed

subsection \<open>Setters and getters\<close>

lemma PrincipalID_SetPrincipalID [simp]: "PrincipalID (SetPrincipalID p s) = Some p"
  using unsigned_less [of p, where ?'a = nat]
  by (simp add: PrincipalID_def uint64ParamValue_def numberParamValue_def ParamValue_def
      station_setter_defs ParseUint_FormatUint)

lemma RVConnectionID_SetRVConnectionID [simp]:
  "RVConnectionID (SetRVConnectionID c s) = Some c"
  using unsigned_less [of c, where ?'a = nat]
  by (simp add: RVConnectionID_def uint32ParamValue_def numberParamValue_def ParamValue_def
      station_setter_defs ParseUint_FormatUint)

lemma Address_SetAddress [simp]: "Address (SetAddress a s) = Some a"
  by (simp add: Address_def ParamValue_def station_setter_defs)

end
