(* ===== verification/Endpoint.thy ===== *)
theory Endpoint
  imports StationURL
begin

text \<open>
  The connected consoles and the notifications pushed to them: the connection records and lookups
  of \<^verbatim>\<open>nex-go\<close> (\<^verbatim>\<open>prudp_endpoint.go\<close>, \<^verbatim>\<open>prudp_connection.go\<close>) and common-go's \<^verbatim>\<open>SendNotificationEvent\<close>.
  The connection table is a Go map, so a lookup visits it in an arbitrary order: the list
  \<^verbatim>\<open>Connections\<close> is that order. Constants and constructors of \<^verbatim>\<open>nex-protocols-go\<close>, which is not in the
  repository, are the fields of the record \<^verbatim>\<open>nex_proto\<close> every definition that needs them takes.
\<close>

subsection \<open>Constants of nex-protocols-go\<close>

datatype participation_event =
    Participate
  | CancelParticipation
  | EndParticipation
  | Disconnect

datatype notification_category =
    CatParticipationEvent participation_event
  | CatGatheringUnregistered
  | CatOwnershipChangeEvent
  | CatCode u32

datatype gathering_flag =
    NotifyParticipationEventsToAllParticipants
  | NotifyParticipationEventsToAllParticipantsReproducibly
  | ChangeOwnerByOtherHost

record notification_event =
  PIDSource :: u64
  Type :: u32
  Param1 :: u64
  Param2 :: u64
  StrParam :: string
  Param3 :: u64

text \<open>\<^verbatim>\<open>HasFlag\<close> is \<^verbatim>\<open>GatheringFlags.HasFlag\<close>, \<^verbatim>\<open>Build\<close> is \<^verbatim>\<open>NotificationCategory.Build\<close>, \<^verbatim>\<open>ToUnsigned\<close> is
  \<^verbatim>\<open>NotificationCategorySigned.ToUnsigned\<close>.\<close>

record nex_proto =
  HasFlag :: "u32 \<Rightarrow> gathering_flag \<Rightarrow> bool"
  Build :: "notification_category \<Rightarrow> u32"
  ToUnsigned :: "int \<Rightarrow> u32"
  NewNotificationEvent :: notification_event

subsection \<open>Connections\<close>

datatype net_addr = UDPAddr string int | TCPAddr string int | OtherAddr

record connection =
  conn_ID :: u32
  conn_PID :: u64
  conn_Connected :: bool
  conn_StationURLs :: "station_url list"
  conn_DefaultPRUDPVersion :: nat
  conn_StreamType :: u8
  conn_StreamID :: u8
  conn_Address :: net_addr

record endpoint =
  Connections :: "connection list"
  ep_StreamID :: u8

definition FindConnectionByID :: "endpoint \<Rightarrow> u32 \<Rightarrow> connection option" where
  "FindConnectionByID ep cid = List.find (\<lambda>pc. conn_ID pc = cid) (Connections ep)"

definition FindConnectionByPID :: "endpoint \<Rightarrow> u64 \<Rightarrow> connection option" where
  "FindConnectionByPID ep p =
     List.find (\<lambda>pc. conn_PID pc = p \<and> conn_Connected pc) (Connections ep)"

lemma FindConnectionByPID_Some:
  "FindConnectionByPID ep p = Some c \<Longrightarrow>
   c \<in> set (Connections ep) \<and> conn_PID c = p \<and> conn_Connected c"
  unfolding FindConnectionByPID_def by (drule find_Some_set) simp

lemma FindConnectionByPID_None:
  "FindConnectionByPID ep p = None \<longleftrightarrow>
   (\<forall>c \<in> set (Connections ep). conn_PID c = p \<longrightarrow> \<not> conn_Connected c)"
  by (auto simp: FindConnectionByPID_def find_None_iff)

lemma FindConnectionByID_Some:
  "FindConnectionByID ep cid = Some c \<Longrightarrow> c \<in> set (Connections ep) \<and> conn_ID c = cid"
  unfolding FindConnectionByID_def by (drule find_Some_set) simp

subsection \<open>Outgoing packets\<close>

record 'p rmc_request =
  req_ProtocolID :: string
  req_MethodID :: string
  req_CallID :: u32
  req_Parameters :: 'p

record 'p data_packet =
  pkt_Version :: nat
  pkt_Receiver :: connection
  pkt_SourceStreamType :: u8
  pkt_SourceStreamID :: u8
  pkt_DestinationStreamType :: u8
  pkt_DestinationStreamID :: u8
  pkt_Payload :: "'p rmc_request"

text \<open>A reliable data packet for a peer; there is a constructor for PRUDP versions 0, 1 and 2.\<close>

definition data_packet_for :: "endpoint \<Rightarrow> connection \<Rightarrow> 'p rmc_request \<Rightarrow> 'p data_packet option" where
  "data_packet_for ep c req =
     (if conn_DefaultPRUDPVersion c \<le> 2
      then Some \<lparr>pkt_Version = conn_DefaultPRUDPVersion c, pkt_Receiver = c,
                 pkt_SourceStreamType = conn_StreamType c, pkt_SourceStreamID = ep_StreamID ep,
                 pkt_DestinationStreamType = conn_StreamType c,
                 pkt_DestinationStreamID = conn_StreamID c, pkt_Payload = req\<rparr>
      else None)"

text \<open>
  \<^verbatim>\<open>SendNotificationEvent\<close>: targets that are not connected are skipped with a warning. A target of
  an unknown PRUDP version leaves the packet nil and the next method call on it panics: the result
  is then None.
\<close>

fun send_to_targets ::
  "endpoint \<Rightarrow> 'p rmc_request \<Rightarrow> u64 list \<Rightarrow> 'p data_packet list option" where
  "send_to_targets ep req [] = Some []"
| "send_to_targets ep req (p # ps) =
     (case FindConnectionByPID ep p of
        None \<Rightarrow> send_to_targets ep req ps
      | Some c \<Rightarrow>
          (case data_packet_for ep c req of
             None \<Rightarrow> None
           | Some pkt \<Rightarrow> map_option (\<lambda>pkts. pkt # pkts) (send_to_targets ep req ps)))"

definition SendNotificationEvent ::
  "endpoint \<Rightarrow> u32 \<Rightarrow> notification_event \<Rightarrow> u64 list \<Rightarrow>
   u32 \<times> notification_event data_packet list option" where
  "SendNotificationEvent ep OutgoingCallID event targets =
     (let callID = OutgoingCallID + 1 in
      (callID,
       send_to_targets ep
         \<lparr>req_ProtocolID = ''notifications.ProtocolID'',
          req_MethodID = ''notifications.MethodProcessNotificationEvent'',
          req_CallID = callID, req_Parameters = event\<rparr> targets))"

definition supported_versions :: "endpoint \<Rightarrow> bool" where
  "supported_versions ep \<longleftrightarrow> (\<forall>c \<in> set (Connections ep). conn_DefaultPRUDPVersion c \<le> 2)"

lemma send_to_targets_receivers:
  assumes "supported_versions ep"
  shows "\<exists>pkts. send_to_targets ep req ps = Some pkts \<and>
    map (\<lambda>pkt. conn_PID (pkt_Receiver pkt)) pkts =
      filter (\<lambda>p. FindConnectionByPID ep p \<noteq> None) ps \<and>
    (\<forall>pkt \<in> set pkts. pkt_Payload pkt = req \<and> conn_Connected (pkt_Receiver pkt))"
proof (induction ps)
  case Nil
  then show ?case by simp
next
  case (Cons p ps)
  then obtain pkts where IH: "send_to_targets ep req ps = Some pkts"
    "map (\<lambda>pkt. conn_PID (pkt_Receiver pkt)) pkts =
      filter (\<lambda>p. FindConnectionByPID ep p \<noteq> None) ps"
    "\<forall>pkt \<in> set pkts. pkt_Payload pkt = req \<and> conn_Connected (pkt_Receiver pkt)" by blast
  show ?case
  proof (cases "FindConnectionByPID ep p")
    case None
    with IH show ?thesis by simp
  next
    case (Some c)
    with FindConnectionByPID_Some [OF Some] assms IH show ?thesis
      by (auto simp: supported_versions_def data_packet_for_def)
  qed
qed

end
