(* ===== verification/Gathering.thy ===== *)
theory Gathering
  imports Endpoint
begin

text \<open>
  The data the matchmaking protocols handle and the pure helpers on it: gatherings and matchmake
  sessions with the validity check of common-go (\<^verbatim>\<open>globals/utils.go\<close>), and the shared helpers of
  \<^verbatim>\<open>matchmaking/protocol.go\<close> and \<^verbatim>\<open>matchmaking/match_making.go\<close>. The structs belong to \<^verbatim>\<open>nex-protocols-go\<close>;
  their fields are those the sources read, write or scan from a database row. \<^verbatim>\<open>MatchmakeParam\<close>, which
  no code here looks into, is held as its serialised bytes.
\<close>

subsection \<open>Gatherings and sessions\<close>

record gathering =
  ID :: u32
  OwnerPID :: u64
  HostPID :: u64
  MinimumParticipants :: u16
  MaximumParticipants :: u16
  ParticipationPolicy :: u32
  PolicyArgument :: u32
  Flags :: u32
  State :: u32
  Description :: string

record matchmake_session = gathering +
  GameMode :: u32
  Attributes :: "u32 list"
  OpenParticipation :: bool
  MatchmakeSystemType :: u32
  ApplicationBuffer :: bytes
  ParticipationCount :: u32
  ProgressScore :: u8
  SessionKey :: bytes
  Option0 :: u32
  MatchmakeParam :: bytes
  StartedTime :: u64
  UserPassword :: string
  ReferGID :: u32
  UserPasswordEnabled :: bool
  SystemPasswordEnabled :: bool
  CodeWord :: string

definition CheckValidGathering :: "'a gathering_scheme \<Rightarrow> bool" where
  "CheckValidGathering g = (\<not> 256 < length (Description g))"

definition CheckValidMatchmakeSession :: "matchmake_session \<Rightarrow> bool" where
  "CheckValidMatchmakeSession m =
     (if \<not> CheckValidGathering m then False
      else if length (Attributes m) \<noteq> 6 then False
      else if 100 < ProgressScore m then False
      else if 32 < length (UserPassword m) then False
      else if 256 < length (CodeWord m) then False
      else if 512 < length (ApplicationBuffer m) then False
      else if 512 < length (SessionKey m) then False
      else True)"

lemma CheckValidMatchmakeSession_iff:
  "CheckValidMatchmakeSession m \<longleftrightarrow>
     length (Description m) \<le> 256 \<and> length (Attributes m) = 6 \<and> ProgressScore m \<le> 100 \<and>
     length (UserPassword m) \<le> 32 \<and> length (CodeWord m) \<le> 256 \<and>
     length (ApplicationBuffer m) \<le> 512 \<and> length (SessionKey m) \<le> 512"
  by (auto simp: CheckValidMatchmakeSession_def CheckValidGathering_def)

subsection \<open>Holders and copies\<close>

text \<open>The object of a \<^verbatim>\<open>GatheringHolder\<close>: its type name, and the session when it is one. A holder
  without an object is None.\<close>

datatype gathering_object = GatheringObject string "matchmake_session option"

type_synonym gathering_holder = "gathering_object option"

definition sessionFromHolder :: "gathering_holder \<Rightarrow> nex_error + matchmake_session" where
  "sessionFromHolder holder =
     (case holder of
        None \<Rightarrow> Inl (invalidArgument None)
      | Some (GatheringObject name obj) \<Rightarrow>
          if name \<noteq> ''MatchmakeSession''
          then Inl (NewError Core_InvalidArgument ''Gathering is not a MatchmakeSession'')
          else case obj of
            None \<Rightarrow> Inl (NewError Core_InvalidArgument ''Gathering is not a MatchmakeSession'')
          | Some m \<Rightarrow> Inr m)"

definition publicCopy :: "matchmake_session \<Rightarrow> matchmake_session" where
  "publicCopy m = m\<lparr>SessionKey := [], UserPassword := []\<rparr>"

text \<open>The structures responses carry. In \<^verbatim>\<open>SSimplePlayingSession\<close> an attribute of None is the value the
  constructor left there; \<^verbatim>\<open>SHolderNew\<close> holds a freshly constructed session.\<close>

datatype mm_struct =
    SMatchmakeSession matchmake_session
  | SGatheringHolder matchmake_session
  | SHolderNew
  | SParticipantDetails u64 string string u16
  | SGatheringURLs u32 "station_url list"
  | SStationURL station_url
  | SPlayingSession u64 matchmake_session
  | SSimplePlayingSession u64 u32 u32 "u32 option"
  | SNotificationEvent notification_event

type_synonym mm_response = "mm_struct response"

definition holderFor :: "matchmake_session \<Rightarrow> mm_struct" where
  "holderFor m = SGatheringHolder m"

text \<open>The session a response structure shows, if it shows one.\<close>

fun shown_session :: "mm_struct \<Rightarrow> matchmake_session option" where
  "shown_session (SMatchmakeSession m) = Some m"
| "shown_session (SGatheringHolder m) = Some m"
| "shown_session (SPlayingSession p m) = Some m"
| "shown_session _ = None"

subsection \<open>Ranges (applyRange)\<close>

record result_range =
  Offset :: u32
  Length :: u32

definition applyRange :: "'a list \<Rightarrow> result_range \<Rightarrow> 'a list" where
  "applyRange xs r =
     (let offset = unat (Offset r); len = unat (Length r) in
      if length xs \<le> offset then []
      else let sliced = drop offset xs in
           if 0 < len \<and> len < length sliced then take len sliced else sliced)"

lemma applyRange_eq:
  "applyRange xs r =
     (if Length r = 0 then drop (unat (Offset r)) xs
      else take (unat (Length r)) (drop (unat (Offset r)) xs))"
  by (auto simp: applyRange_def Let_def unat_gt_0)

subsection \<open>Participants\<close>

record session =
  MatchmakeSession :: matchmake_session
  Participants :: "u64 list"
  RegisteredTime :: u64
  SessionURL :: string

definition Participation_Count :: "session \<Rightarrow> u32" where
  "Participation_Count s = of_nat (length (Participants s))"

fun contains_loop :: "u64 list \<Rightarrow> u64 \<Rightarrow> bool" where
  "contains_loop [] p = False"
| "contains_loop (q # qs) p = (if q = p then True else contains_loop qs p)"

definition Contains :: "session \<Rightarrow> u64 \<Rightarrow> bool" where
  "Contains s p = contains_loop (Participants s) p"

lemma Contains_iff [simp]: "Contains s p \<longleftrightarrow> p \<in> set (Participants s)"
proof -
  have "contains_loop qs p \<longleftrightarrow> p \<in> set qs" for qs by (induction qs) auto
  then show ?thesis by (simp add: Contains_def)
qed

definition participantList :: "session \<Rightarrow> u64 list" where
  "participantList s = RemoveDuplicates (Participants s)"

fun count_participants :: "u64 list \<Rightarrow> (u64 \<Rightarrow> u16) \<Rightarrow> u64 \<Rightarrow> u16" where
  "count_participants [] counts = counts"
| "count_participants (p # ps) counts = count_participants ps (counts(p := counts p + 1))"

definition participantDetails :: "session \<Rightarrow> mm_struct list" where
  "participantDetails s =
     (let counts = count_participants (Participants s) (\<lambda>_. 0)
      in map (\<lambda>p. SParticipantDetails p [] [] (counts p)) (RemoveDuplicates (Participants s)))"

lemma count_participants_eq:
  "count_participants ps counts p = counts p + of_nat (count_list ps p)"
  by (induction ps arbitrary: counts) (auto simp: algebra_simps)

definition stationURLsOf :: "endpoint \<Rightarrow> session \<Rightarrow> station_url list" where
  "stationURLsOf ep s =
     concat (map (\<lambda>p. case FindConnectionByPID ep p of
                        None \<Rightarrow> [] | Some c \<Rightarrow> conn_StationURLs c)
                 (RemoveDuplicates (Participants s)))"

end
