(* ===== verification/MMStore.thy ===== *)
theory MMStore
  imports Gathering
begin

text \<open>
  The in-memory gathering store (\<^verbatim>\<open>matchmaking/store.go\<close>): creating, joining and leaving a gathering,
  the removal of a dropped console, published notification data and the lookups. A \<^verbatim>\<open>*Session\<close> of the
  code is the key it is stored under: an operation that writes through the pointer returns the new
  session and its caller stores it with \<^verbatim>\<open>put_session\<close>. Each definition is the code between
  \<^verbatim>\<open>Lock\<close> and \<^verbatim>\<open>Unlock\<close>; the notifications it sends are returned in order. The lemmas give the
  invariant of the store, and what leaving and dropping a console do to every session.
\<close>

subsection \<open>State and environment\<close>

record store =
  sessions :: "u32 \<rightharpoonup> session"
  nextGatheringID :: u32
  notificationData :: "u64 \<rightharpoonup> (u32 \<rightharpoonup> notification_event)"

text \<open>
  What an operation reads from outside the store: \<^verbatim>\<open>storeEndpoint\<close> is \<^verbatim>\<open>s.Endpoint != nil\<close>,
  \<^verbatim>\<open>friendPIDs\<close> the function field \<^verbatim>\<open>GetUserFriendPIDs\<close> (None when nil), \<^verbatim>\<open>randRead\<close> the bytes
  \<^verbatim>\<open>rand.Read\<close> fills in (None when it fails), \<^verbatim>\<open>mapOrder n\<close> and \<^verbatim>\<open>eventOrder\<close> the orders in which the
  n-th range over the session map and a range over a user's notification data visit the keys.
  \<^verbatim>\<open>mm_endpoint\<close> is the secure endpoint's connection table, \<^verbatim>\<open>AllowPublicMatchmaking\<close> the field of
  \<^verbatim>\<open>Protocol\<close>, \<^verbatim>\<open>MatchMaking_GE_3_0_0\<close> the test \<^verbatim>\<open>LibraryVersions.MatchMaking.GreaterOrEqual("3.0.0")\<close>.
\<close>

record mm_env =
  proto :: nex_proto
  newSession :: matchmake_session
  storeEndpoint :: bool
  friendPIDs :: "(u32 \<Rightarrow> u32 list) option"
  now :: u64
  randRead :: "bytes option"
  mapOrder :: "nat \<Rightarrow> u32 set \<Rightarrow> u32 list"
  eventOrder :: "u32 set \<Rightarrow> u32 list"
  mm_endpoint :: endpoint
  AllowPublicMatchmaking :: bool
  MatchMaking_GE_3_0_0 :: bool

definition env_ok :: "mm_env \<Rightarrow> bool" where
  "env_ok E \<longleftrightarrow> (\<forall>n. visits_all (mapOrder E n)) \<and> visits_all (eventOrder E) \<and>
     (\<forall>bs. randRead E = Some bs \<longrightarrow> length bs = 32)"

type_synonym notification = "notification_event \<times> u64 list"

definition NewStore :: store where
  "NewStore = \<lparr>sessions = Map.empty, nextGatheringID = 1, notificationData = Map.empty\<rparr>"

definition put_session :: "u32 \<Rightarrow> session \<Rightarrow> store \<Rightarrow> store" where
  "put_session k s st =
     (if sessions st k = None then st else st\<lparr>sessions := (sessions st)(k \<mapsto> s)\<rparr>)"

definition delete_session :: "u32 \<Rightarrow> store \<Rightarrow> store" where
  "delete_session k st = st\<lparr>sessions := (sessions st)(k := None)\<rparr>"

subsection \<open>Operations\<close>

definition GetLocked :: "store \<Rightarrow> u32 \<Rightarrow> nex_error + session" where
  "GetLocked st gid =
     (case sessions st gid of
        None \<Rightarrow> Inl (NewError RendezVous_SessionVoid ''Gathering does not exist'')
      | Some s \<Rightarrow> Inr s)"

definition AllLocked :: "mm_env \<Rightarrow> nat \<Rightarrow> store \<Rightarrow> (u32 \<times> session) list" where
  "AllLocked E n st = range_map (sessions st) (mapOrder E n (dom (sessions st)))"

definition session_key :: "mm_env \<Rightarrow> bytes" where
  "session_key E = (case randRead E of Some bs \<Rightarrow> bs | None \<Rightarrow> replicate 32 0)"

definition CreateLocked ::
  "mm_env \<Rightarrow> store \<Rightarrow> u64 \<Rightarrow> matchmake_session \<Rightarrow> store \<times> u32 \<times> session" where
  "CreateLocked E st pid m =
     (let gid = nextGatheringID st;
          m' = m\<lparr>ID := gid, OwnerPID := pid, HostPID := pid, StartedTime := now E,
                 SessionKey := session_key E,
                 UserPasswordEnabled := 0 < length (UserPassword m),
                 SystemPasswordEnabled := False\<rparr>;
          stored = \<lparr>MatchmakeSession = m', Participants = [], RegisteredTime = now E,
                    SessionURL = []\<rparr>
      in (st\<lparr>sessions := (sessions st)(gid \<mapsto> stored), nextGatheringID := gid + 1\<rparr>, gid, stored))"

definition notifyParticipation ::
  "mm_env \<Rightarrow> u64 \<Rightarrow> participation_event \<Rightarrow> u32 \<Rightarrow> u64 \<Rightarrow> string \<Rightarrow> u64 \<Rightarrow> u64 list \<Rightarrow>
   notification list" where
  "notifyParticipation E src subType gid subject msg cnt targets =
     (if \<not> storeEndpoint E \<or> length targets = 0 then []
      else [((NewNotificationEvent (proto E))
               \<lparr>PIDSource := src, Type := Build (proto E) (CatParticipationEvent subType),
                Param1 := ucast gid, Param2 := subject, StrParam := msg, Param3 := cnt\<rparr>,
             targets)])"

definition JoinLocked ::
  "mm_env \<Rightarrow> session \<Rightarrow> u64 \<Rightarrow> u16 \<Rightarrow> string \<Rightarrow>
   (nex_error + u32 \<times> session) \<times> notification list" where
  "JoinLocked E s pid vacantParticipants joinMessage =
     (let vacant = (if vacantParticipants = 0 then 1 else vacantParticipants) in
      if Contains s pid
      then (Inl (NewError RendezVous_AlreadyParticipatedGathering
                   ''Already a participant of this gathering''), [])
      else
        let maximum = ucast (MaximumParticipants (MatchmakeSession s)) :: u32 in
        if maximum \<noteq> 0 \<and> maximum < Participation_Count s + ucast vacant
        then (Inl (NewError RendezVous_SessionFull ''Gathering is full''), [])
        else
          let previous = Participants s;
              s1 = s\<lparr>Participants := Participants s @ replicate (unat vacant) pid\<rparr>;
              total = Participation_Count s1;
              s2 = s1\<lparr>MatchmakeSession := (MatchmakeSession s1)\<lparr>ParticipationCount := total\<rparr>\<rparr>;
              m = MatchmakeSession s2;
              flag = HasFlag (proto E) (Flags m);
              reproducibly = flag NotifyParticipationEventsToAllParticipantsReproducibly
          in if flag NotifyParticipationEventsToAllParticipants \<or> reproducibly
             then (Inr (total, s2),
                   notifyParticipation E pid Participate (ID m) pid joinMessage (ucast total)
                     (RemoveDuplicates (Participants s2)) @
                   (if reproducibly
                    then concat (map (\<lambda>p. notifyParticipation E pid Participate (ID m) p
                                        joinMessage (ucast total) [pid])
                                     (RemoveDuplicates previous))
                    else []))
             else if pid = OwnerPID m then (Inr (total, s2), [])
             else (Inr (total, s2),
                   notifyParticipation E pid Participate (ID m) pid joinMessage (ucast total)
                     [OwnerPID m]))"

definition LeaveLocked ::
  "mm_env \<Rightarrow> store \<Rightarrow> u32 \<Rightarrow> session \<Rightarrow> u64 \<Rightarrow> participation_event \<Rightarrow> string \<Rightarrow>
   store \<times> notification list" where
  "LeaveLocked E st k s pid subType msg =
     (if \<not> Contains s pid then (st, [])
      else
        let s1 = s\<lparr>Participants := filter (\<lambda>p. p \<noteq> pid) (Participants s)\<rparr>;
            s2 = s1\<lparr>MatchmakeSession :=
                     (MatchmakeSession s1)\<lparr>ParticipationCount := Participation_Count s1\<rparr>\<rparr>;
            gid = ID (MatchmakeSession s2);
            notes = notifyParticipation E pid subType gid pid msg (ucast (Participation_Count s2))
                      (RemoveDuplicates (Participants s2));
            st2 = put_session k s2 st
        in if OwnerPID (MatchmakeSession s2) = pid \<or> length (Participants s2) = 0
           then (delete_session gid st2, notes)
           else if HostPID (MatchmakeSession s2) = pid
           then (put_session k (s2\<lparr>MatchmakeSession :=
                   (MatchmakeSession s2)\<lparr>HostPID := OwnerPID (MatchmakeSession s2)\<rparr>\<rparr>) st2, notes)
           else (st2, notes))"

fun leave_each ::
  "mm_env \<Rightarrow> (u32 \<times> session) list \<Rightarrow> store \<Rightarrow> u64 \<Rightarrow> participation_event \<Rightarrow>
   store \<times> notification list" where
  "leave_each E [] st pid subType = (st, [])"
| "leave_each E ((k, s) # rest) st pid subType =
     (if Contains s pid
      then let (st', notes) = LeaveLocked E st k s pid subType [];
               (st'', notes') = leave_each E rest st' pid subType
           in (st'', notes @ notes')
      else leave_each E rest st pid subType)"

definition RemoveConnectionLocked ::
  "mm_env \<Rightarrow> nat \<Rightarrow> store \<Rightarrow> u64 \<Rightarrow> participation_event \<Rightarrow> store \<times> notification list" where
  "RemoveConnectionLocked E n st pid subType = leave_each E (AllLocked E n st) st pid subType"

definition SetNotificationData :: "store \<Rightarrow> u64 \<Rightarrow> notification_event \<Rightarrow> store" where
  "SetNotificationData st pid event =
     (let inner = (case notificationData st pid of None \<Rightarrow> Map.empty | Some m \<Rightarrow> m)
      in st\<lparr>notificationData := (notificationData st)(pid \<mapsto> inner(Type event \<mapsto> event))\<rparr>)"

definition NotificationDataForPIDs ::
  "mm_env \<Rightarrow> store \<Rightarrow> u64 list \<Rightarrow> u32 list \<Rightarrow> notification_event list" where
  "NotificationDataForPIDs E st pids categories =
     concat (map (\<lambda>pid. case notificationData st pid of
         None \<Rightarrow> []
       | Some stored \<Rightarrow>
           concat (map (\<lambda>category.
             map snd (filter (\<lambda>(eventType, event). eventType div 1000 = category \<or> eventType = category)
                        (range_map stored (eventOrder E (dom stored))))) categories)) pids)"

definition FindByParticipantLocked :: "mm_env \<Rightarrow> nat \<Rightarrow> store \<Rightarrow> u64 \<Rightarrow> session list" where
  "FindByParticipantLocked E n st pid =
     filter (\<lambda>s. Contains s pid) (map snd (AllLocked E n st))"

definition FindByOwnerLocked :: "mm_env \<Rightarrow> nat \<Rightarrow> store \<Rightarrow> u64 \<Rightarrow> session list" where
  "FindByOwnerLocked E n st pid =
     filter (\<lambda>s. OwnerPID (MatchmakeSession s) = pid) (map snd (AllLocked E n st))"

subsection \<open>What joining does\<close>

definition players :: "u16 \<Rightarrow> u16" where
  "players v = (if v = 0 then 1 else v)"

definition with_players :: "session \<Rightarrow> u64 list \<Rightarrow> session" where
  "with_players s ps =
     s\<lparr>Participants := ps,
       MatchmakeSession := (MatchmakeSession s)\<lparr>ParticipationCount := of_nat (length ps)\<rparr>\<rparr>"

lemma with_players_sel [simp]:
  "Participants (with_players s ps) = ps"
  "ParticipationCount (MatchmakeSession (with_players s ps)) = of_nat (length ps)"
  "ID (MatchmakeSession (with_players s ps)) = ID (MatchmakeSession s)"
  "OwnerPID (MatchmakeSession (with_players s ps)) = OwnerPID (MatchmakeSession s)"
  "HostPID (MatchmakeSession (with_players s ps)) = HostPID (MatchmakeSession s)"
  "SessionKey (MatchmakeSession (with_players s ps)) = SessionKey (MatchmakeSession s)"
  "MaximumParticipants (MatchmakeSession (with_players s ps)) =
     MaximumParticipants (MatchmakeSession s)"
  "CheckValidMatchmakeSession (MatchmakeSession (with_players s ps)) =
     CheckValidMatchmakeSession (MatchmakeSession s)"
  by (simp_all add: with_players_def CheckValidMatchmakeSession_iff)

definition full_for :: "session \<Rightarrow> u16 \<Rightarrow> bool" where
  "full_for s v \<longleftrightarrow> (let maximum = ucast (MaximumParticipants (MatchmakeSession s)) :: u32 in
     maximum \<noteq> 0 \<and> maximum < Participation_Count s + ucast (players v))"

definition join_notes ::
  "mm_env \<Rightarrow> session \<Rightarrow> u64 \<Rightarrow> u16 \<Rightarrow> string \<Rightarrow> notification list" where
  "join_notes E s pid v msg =
     (let m = MatchmakeSession s; ps = Participants s @ replicate (unat (players v)) pid;
          reproducibly = HasFlag (proto E) (Flags m)
            NotifyParticipationEventsToAllParticipantsReproducibly;
          tell = (\<lambda>p targets. notifyParticipation E pid Participate (ID m) p msg
            (ucast (of_nat (length ps) :: u32)) targets)
      in if HasFlag (proto E) (Flags m) NotifyParticipationEventsToAllParticipants \<or> reproducibly
         then tell pid (RemoveDuplicates ps) @
           (if reproducibly then concat (map (\<lambda>p. tell p [pid]) (RemoveDuplicates (Participants s)))
            else [])
         else if pid = OwnerPID m then [] else tell pid [OwnerPID m])"

lemma JoinLocked_eq:
  "JoinLocked E s pid v msg =
     (if pid \<in> set (Participants s)
      then (Inl (NewError RendezVous_AlreadyParticipatedGathering
                   ''Already a participant of this gathering''), [])
      else if full_for s v then (Inl (NewError RendezVous_SessionFull ''Gathering is full''), [])
      else (Inr (of_nat (length (Participants s) + unat (players v)),
                 with_players s (Participants s @ replicate (unat (players v)) pid)),
            join_notes E s pid v msg))"
  unfolding JoinLocked_def full_for_def players_def [symmetric] Let_def with_players_def
    join_notes_def Participation_Count_def
  by simp

lemma JoinLocked_cases:
  obtains (member) "pid \<in> set (Participants s)"
      "JoinLocked E s pid v msg =
         (Inl (NewError RendezVous_AlreadyParticipatedGathering
                 ''Already a participant of this gathering''), [])"
    | (full) "pid \<notin> set (Participants s)" "full_for s v"
      "JoinLocked E s pid v msg = (Inl (NewError RendezVous_SessionFull ''Gathering is full''), [])"
    | (joined) "pid \<notin> set (Participants s)" "\<not> full_for s v"
      "JoinLocked E s pid v msg =
         (Inr (of_nat (length (Participants s) + unat (players v)),
               with_players s (Participants s @ replicate (unat (players v)) pid)),
          join_notes E s pid v msg)"
  by (cases "pid \<in> set (Participants s)"; cases "full_for s v") (auto simp: JoinLocked_eq)

lemma full_for_iff:
  assumes "length (Participants s) + 2 ^ 16 \<le> 2 ^ 32"
  shows "full_for s v \<longleftrightarrow>
     MaximumParticipants (MatchmakeSession s) \<noteq> 0 \<and>
     unat (MaximumParticipants (MatchmakeSession s)) < length (Participants s) + unat (players v)"
proof -
  have v: "unat (players v) < 2 ^ 16" using unsigned_less [of "players v"] by simp
  have len: "length (Participants s) < 2 ^ 32" using assms by simp
  have "unat (of_nat (length (Participants s)) + ucast (players v) :: u32) =
      length (Participants s) + unat (players v)"
    using assms v u32_of_nat_less [OF len] by (simp add: unat_word_ariths unat_u16_u32)
  moreover have "ucast (MaximumParticipants (MatchmakeSession s)) = (0 :: u32) \<longleftrightarrow>
      MaximumParticipants (MatchmakeSession s) = 0"
    by (metis unat_u16_u32 unat_eq_zero)
  ultimately show ?thesis
    by (simp add: full_for_def Let_def Participation_Count_def word_less_nat_alt unat_u16_u32)
qed

subsection \<open>What leaving does\<close>

text \<open>The session after a member left, or None when that ends the gathering.\<close>

definition after_leave :: "u64 \<Rightarrow> session \<Rightarrow> session option" where
  "after_leave pid s =
     (if pid \<notin> set (Participants s) then Some s
      else let ps = filter (\<lambda>p. p \<noteq> pid) (Participants s); s' = with_players s ps in
        if OwnerPID (MatchmakeSession s) = pid \<or> ps = [] then None
        else if HostPID (MatchmakeSession s) = pid
        then Some (s'\<lparr>MatchmakeSession :=
               (MatchmakeSession s')\<lparr>HostPID := OwnerPID (MatchmakeSession s)\<rparr>\<rparr>)
        else Some s')"

definition leave_notes ::
  "mm_env \<Rightarrow> session \<Rightarrow> u64 \<Rightarrow> participation_event \<Rightarrow> string \<Rightarrow> notification list" where
  "leave_notes E s pid subType msg =
     (let ps = filter (\<lambda>p. p \<noteq> pid) (Participants s) in
      if pid \<in> set (Participants s)
      then notifyParticipation E pid subType (ID (MatchmakeSession s)) pid msg
             (ucast (of_nat (length ps) :: u32)) (RemoveDuplicates ps)
      else [])"

definition session_ok :: "u32 \<Rightarrow> session \<Rightarrow> bool" where
  "session_ok k s \<longleftrightarrow>
     ID (MatchmakeSession s) = k \<and>
     OwnerPID (MatchmakeSession s) \<in> set (Participants s) \<and>
     HostPID (MatchmakeSession s) \<in> set (Participants s) \<and>
     ParticipationCount (MatchmakeSession s) = of_nat (length (Participants s))"

definition store_inv :: "store \<Rightarrow> bool" where
  "store_inv st \<longleftrightarrow>
     finite (dom (sessions st)) \<and> (\<forall>k s. sessions st k = Some s \<longrightarrow> session_ok k s)"

lemma store_invD: "store_inv st \<Longrightarrow> sessions st k = Some s \<Longrightarrow> session_ok k s"
  by (simp add: store_inv_def)

lemma store_inv_finite [simp]: "store_inv st \<Longrightarrow> finite (dom (sessions st))"
  by (simp add: store_inv_def)

lemma LeaveLocked_eq:
  assumes "sessions st k = Some s" and "ID (MatchmakeSession s) = k"
  shows "LeaveLocked E st k s pid subType msg =
    (st\<lparr>sessions := (sessions st)(k := after_leave pid s)\<rparr>, leave_notes E s pid subType msg)"
  using assms
  by (auto simp: LeaveLocked_def after_leave_def leave_notes_def with_players_def Let_def
      put_session_def delete_session_def Participation_Count_def fun_upd_idem)

lemma after_leave_ok: "session_ok k s \<Longrightarrow> after_leave pid s = Some s' \<Longrightarrow> session_ok k s'"
  by (auto simp: session_ok_def after_leave_def Let_def with_players_def split: if_splits)

lemma after_leave_not_member: "after_leave pid s = Some s' \<Longrightarrow> pid \<notin> set (Participants s')"
  by (auto simp: after_leave_def Let_def split: if_splits)

lemma store_inv_upd:
  assumes "store_inv st" and "\<And>s. v = Some s \<Longrightarrow> session_ok k s"
  shows "store_inv (st\<lparr>sessions := (sessions st)(k := v)\<rparr>)"
  using assms by (cases v) (auto simp: store_inv_def)

lemma leave_each_eq:
  assumes "distinct (map fst xs)"
    and "\<And>k s. (k, s) \<in> set xs \<Longrightarrow> sessions st k = Some s \<and> ID (MatchmakeSession s) = k"
  shows "leave_each E xs st pid subType =
    (st\<lparr>sessions := (\<lambda>k. case map_of xs k of None \<Rightarrow> sessions st k | Some s \<Rightarrow> after_leave pid s)\<rparr>,
     concat (map (\<lambda>(k, s). leave_notes E s pid subType []) xs))"
  using assms
proof (induction xs arbitrary: st)
  case Nil
  then show ?case by simp
next
  case (Cons x xs)
  obtain k s where x: "x = (k, s)" by (cases x)
  have s: "sessions st k = Some s" "ID (MatchmakeSession s) = k" using Cons.prems(2) [of k s] x by auto
  have k: "map_of xs k = None" using Cons.prems(1) x by (simp add: map_of_eq_None_iff)
  show ?case
  proof (cases "pid \<in> set (Participants s)")
    case True
    let ?st = "st\<lparr>sessions := (sessions st)(k := after_leave pid s)\<rparr>"
    have tl: "sessions ?st j = Some r \<and> ID (MatchmakeSession r) = j" if jr: "(j, r) \<in> set xs" for j r
    proof -
      have "j \<noteq> k" using jr Cons.prems(1) by (force simp: x)
      then show ?thesis using Cons.prems(2) [of j r] jr by simp
    qed
    have "leave_each E xs ?st pid subType =
      (?st\<lparr>sessions := (\<lambda>k. case map_of xs k of None \<Rightarrow> sessions ?st k
                          | Some s \<Rightarrow> after_leave pid s)\<rparr>,
       concat (map (\<lambda>(k, s). leave_notes E s pid subType []) xs))"
      using Cons.prems(1) by (intro Cons.IH tl) simp_all
    moreover have "(\<lambda>j. case map_of xs j of None \<Rightarrow> ((sessions st)(k := after_leave pid s)) j
          | Some s \<Rightarrow> after_leave pid s) =
        (\<lambda>j. case map_of (x # xs) j of None \<Rightarrow> sessions st j | Some s \<Rightarrow> after_leave pid s)"
      using k by (auto simp: x fun_eq_iff split: option.split)
    ultimately show ?thesis
      using True by (simp add: x LeaveLocked_eq [OF s] cong: option.case_cong)
  next
    case False
    have "leave_each E xs st pid subType =
      (st\<lparr>sessions := (\<lambda>k. case map_of xs k of None \<Rightarrow> sessions st k
                          | Some s \<Rightarrow> after_leave pid s)\<rparr>,
       concat (map (\<lambda>(k, s). leave_notes E s pid subType []) xs))"
      using Cons.prems(1) by (intro Cons.IH Cons.prems(2)) simp_all
    moreover have "(\<lambda>j. case map_of xs j of None \<Rightarrow> sessions st j | Some s \<Rightarrow> after_leave pid s) =
        (\<lambda>j. case map_of (x # xs) j of None \<Rightarrow> sessions st j | Some s \<Rightarrow> after_leave pid s)"
      using k s False by (auto simp: x fun_eq_iff after_leave_def split: option.split)
    ultimately show ?thesis
      using False by (simp add: x leave_notes_def)
  qed
qed

lemma AllLocked_facts:
  assumes "env_ok E" and "store_inv st"
  shows set_AllLocked: "set (AllLocked E n st) = {(k, s). sessions st k = Some s}"
    and distinct_AllLocked: "distinct (map fst (AllLocked E n st))"
    and map_of_AllLocked: "map_of (AllLocked E n st) = sessions st"
proof -
  have ord: "visits_all (mapOrder E n)" and fin: "finite (dom (sessions st))"
    using assms by (auto simp: env_ok_def)
  show set: "set (AllLocked E n st) = {(k, s). sessions st k = Some s}"
    and dist: "distinct (map fst (AllLocked E n st))"
    using range_map_visits_all [OF ord fin] by (simp_all add: AllLocked_def)
  have "map_of (AllLocked E n st) k = sessions st k" for k
  proof (cases "sessions st k")
    case None
    then have "k \<notin> fst ` set (AllLocked E n st)" using set by auto
    then have "map_of (AllLocked E n st) k = None" by (simp only: map_of_eq_None_iff not_False_eq_True)
    with None show ?thesis by simp
  next
    case (Some s)
    then have "(k, s) \<in> set (AllLocked E n st)" using set by auto
    with dist Some show ?thesis by (simp add: map_of_eq_Some_iff)
  qed
  then show "map_of (AllLocked E n st) = sessions st" by auto
qed

lemma RemoveConnectionLocked_eq:
  assumes "env_ok E" and "store_inv st"
  shows "RemoveConnectionLocked E n st pid subType =
    (st\<lparr>sessions := (\<lambda>k. Option.bind (sessions st k) (after_leave pid))\<rparr>,
     concat (map (\<lambda>(k, s). leave_notes E s pid subType []) (AllLocked E n st)))"
proof -
  have "leave_each E (AllLocked E n st) st pid subType =
    (st\<lparr>sessions := (\<lambda>k. case map_of (AllLocked E n st) k of None \<Rightarrow> sessions st k
                        | Some s \<Rightarrow> after_leave pid s)\<rparr>,
     concat (map (\<lambda>(k, s). leave_notes E s pid subType []) (AllLocked E n st)))"
    using assms AllLocked_facts [OF assms, of n] store_invD [OF assms(2)]
    by (intro leave_each_eq) (auto simp: session_ok_def)
  moreover have "(\<lambda>k. case sessions st k of None \<Rightarrow> sessions st k | Some s \<Rightarrow> after_leave pid s) =
      (\<lambda>k. Option.bind (sessions st k) (after_leave pid))"
    by (auto simp: fun_eq_iff split: option.split)
  ultimately show ?thesis
    by (simp add: RemoveConnectionLocked_def map_of_AllLocked [OF assms])
qed

end
