(* ===== verification/MMSearch.thy ===== *)
theory MMSearch
  imports MMStore
begin

text \<open>
  Session discovery (\<^verbatim>\<open>matchmaking/search.go\<close>): the numeric constraints of a search criteria, the filter
  over every live session, the ordering of the results, the field-for-field match of the plain
  automatic matchmaker, and the permission check of a join. A \<^verbatim>\<open>*Session\<close> is the pair of its key and
  its contents. The selection-method constants are \<^verbatim>\<open>nex-protocols-go\<close>'s and appear by name.
\<close>

subsection \<open>Numeric constraints\<close>

record range_constraint =
  rc_min :: u64
  rc_max :: u64

definition no_constraint :: range_constraint where
  "no_constraint = \<lparr>rc_min = 0, rc_max = 0\<rparr>"

definition parseConstraint :: "string \<Rightarrow> range_constraint \<times> bool \<times> bool" where
  "parseConstraint s =
     (if s = '''' then (no_constraint, False, True)
      else let (before, after, found) = Cut s (CHR '','') in
        case ParseUint before 32 of
          None \<Rightarrow> (no_constraint, False, False)
        | Some minimum \<Rightarrow>
            if \<not> found
            then (\<lparr>rc_min = of_nat minimum, rc_max = of_nat minimum\<rparr>, True, True)
            else case ParseUint after 32 of
              None \<Rightarrow> (no_constraint, False, False)
            | Some maximum \<Rightarrow>
                (\<lparr>rc_min = of_nat minimum, rc_max = of_nat maximum\<rparr>, True, True))"

definition rc_contains :: "range_constraint \<Rightarrow> u64 \<Rightarrow> bool" where
  "rc_contains r v \<longleftrightarrow> rc_min r \<le> v \<and> v \<le> rc_max r"

subsection \<open>Search criteria\<close>

datatype selection_method =
    NearestNeighbor
  | BroadenRange
  | SelectProgressScore
  | BroadenRangeWithProgressScore
  | OtherSelectionMethod u32

record search_criteria =
  Attribs :: "string list"
  sc_GameMode :: string
  sc_MinParticipants :: string
  sc_MaxParticipants :: string
  sc_MatchmakeSystemType :: string
  VacantOnly :: bool
  ExcludeLocked :: bool
  ExcludeNonHostPID :: bool
  SelectionMethod :: selection_method
  VacantParticipants :: u16

record search_options =
  AutoMatchmake :: bool
  ExcludeOwnerPID :: u64
  AllowPublic :: bool

fun parse_attribs :: "nat \<Rightarrow> string list \<Rightarrow> (range_constraint \<times> bool) list option" where
  "parse_attribs i [] = Some []"
| "parse_attribs i (a # as) =
     (if i = 1 then map_option (\<lambda>cs. (no_constraint, False) # cs) (parse_attribs (i + 1) as)
      else case parseConstraint a of (c, present, okay) \<Rightarrow>
        if \<not> okay then None
        else map_option (\<lambda>cs. (c, present) # cs) (parse_attribs (i + 1) as))"

fun attributes_match :: "(range_constraint \<times> bool) list \<Rightarrow> u32 list \<Rightarrow> bool" where
  "attributes_match ((c, present) # cs) (v # vs) =
     (if \<not> present then attributes_match cs vs
      else if \<not> rc_contains c (ucast v) then False
      else attributes_match cs vs)"
| "attributes_match _ _ = True"

record parsed_criteria =
  pc_attribs :: "(range_constraint \<times> bool) list"
  pc_max :: "range_constraint \<times> bool"
  pc_min :: "range_constraint \<times> bool"
  pc_mode :: "range_constraint \<times> bool"
  pc_system :: "range_constraint \<times> bool"
  pc_vacant :: u32

definition parse_criteria :: "search_criteria \<Rightarrow> parsed_criteria option" where
  "parse_criteria c =
     (case parse_attribs 0 (Attribs c) of None \<Rightarrow> None | Some attribs \<Rightarrow>
      case parseConstraint (sc_MaxParticipants c) of (mx, mxp, ok1) \<Rightarrow>
      if \<not> ok1 then None else
      case parseConstraint (sc_MinParticipants c) of (mn, mnp, ok2) \<Rightarrow>
      if \<not> ok2 then None else
      case parseConstraint (sc_GameMode c) of (gm, gmp, ok3) \<Rightarrow>
      if \<not> ok3 then None else
      case parseConstraint (sc_MatchmakeSystemType c) of (ty, typ, ok4) \<Rightarrow>
      if \<not> ok4 then None else
      Some \<lparr>pc_attribs = attribs, pc_max = (mx, mxp), pc_min = (mn, mnp), pc_mode = (gm, gmp),
            pc_system = (ty, typ),
            pc_vacant = (let v = ucast (VacantParticipants c) in if v = 0 then 1 else v)\<rparr>)"

definition fails :: "range_constraint \<times> bool \<Rightarrow> u64 \<Rightarrow> bool" where
  "fails cp v \<longleftrightarrow> snd cp \<and> \<not> rc_contains (fst cp) v"

definition accepts ::
  "u32 list \<Rightarrow> search_options \<Rightarrow> search_criteria \<Rightarrow> parsed_criteria \<Rightarrow> session \<Rightarrow> bool" where
  "accepts friendList opts c pc s =
     (let m = MatchmakeSession s in
      if ExcludeOwnerPID opts \<noteq> 0 \<and> OwnerPID m = ExcludeOwnerPID opts then False
      else if length (Attributes m) \<noteq> length (Attribs c) then False
      else if \<not> attributes_match (pc_attribs pc) (Attributes m) then False
      else if fails (pc_max pc) (ucast (MaximumParticipants m)) then False
      else if fails (pc_min pc) (ucast (MinimumParticipants m)) then False
      else if fails (pc_mode pc) (ucast (GameMode m)) then False
      else if fails (pc_system pc) (ucast (MatchmakeSystemType m)) then False
      else if ParticipationPolicy m = 98 \<and> ucast (OwnerPID m) \<notin> set friendList then False
      else if ExcludeLocked c \<and> \<not> OpenParticipation m then False
      else if ExcludeNonHostPID c \<and> HostPID m = 0 then False
      else if VacantOnly c \<and>
              (let maximum = ucast (MaximumParticipants m) in
               maximum \<noteq> 0 \<and> maximum < Participation_Count s + pc_vacant pc) then False
      else True)"

definition matchCriteria ::
  "mm_env \<Rightarrow> nat \<Rightarrow> store \<Rightarrow> search_criteria \<Rightarrow> u32 list \<Rightarrow> search_options \<Rightarrow>
   (u32 \<times> session) list option" where
  "matchCriteria E n st c friendList opts =
     (case parse_criteria c of
        None \<Rightarrow> None
      | Some pc \<Rightarrow> Some (filter (\<lambda>(k, s). accepts friendList opts c pc s) (AllLocked E n st)))"

subsection \<open>Ordering\<close>

definition distanceTo :: "u64 \<Rightarrow> u64 \<Rightarrow> u64" where
  "distanceTo target v = (if target < v then v - target else target - v)"

definition attributeOf :: "session \<Rightarrow> u64" where
  "attributeOf s =
     (if 1 < length (Attributes (MatchmakeSession s))
      then ucast (Attributes (MatchmakeSession s) ! 1) else 0)"

definition referenceAttribute :: "search_criteria \<Rightarrow> u64" where
  "referenceAttribute c =
     (if 1 < length (Attribs c)
      then case ParseUint (Attribs c ! 1) 32 of Some parsed \<Rightarrow> of_nat parsed | None \<Rightarrow> 0
      else 0)"

definition progressDistance :: "u64 \<Rightarrow> session \<Rightarrow> u64" where
  "progressDistance target s = distanceTo target (ucast (ProgressScore (MatchmakeSession s)))"

definition sortSessions ::
  "(u32 \<times> session) list \<Rightarrow> search_criteria \<Rightarrow> matchmake_session option \<Rightarrow>
   (u32 \<times> session) list" where
  "sortSessions xs c source =
     (let near = (\<lambda>s. distanceTo (referenceAttribute c) (attributeOf s)) in
      case SelectionMethod c of
        NearestNeighbor \<Rightarrow> SliceStable (\<lambda>a b. near (snd a) < near (snd b)) xs
      | BroadenRange \<Rightarrow> SliceStable (\<lambda>a b. near (snd a) < near (snd b)) xs
      | SelectProgressScore \<Rightarrow>
          (case source of None \<Rightarrow> xs
           | Some m \<Rightarrow>
               let target = ucast (ProgressScore m) in
               SliceStable (\<lambda>a b. progressDistance target (snd a) < progressDistance target (snd b)) xs)
      | BroadenRangeWithProgressScore \<Rightarrow>
          (case source of None \<Rightarrow> xs
           | Some m \<Rightarrow>
               let target = ucast (ProgressScore m) in
               SliceStable (\<lambda>a b. near (snd a) + progressDistance target (snd a) <
                                  near (snd b) + progressDistance target (snd b)) xs)
      | OtherSelectionMethod _ \<Rightarrow>
          SliceStable (\<lambda>a b. Participation_Count (snd b) < Participation_Count (snd a)) xs)"

subsection \<open>Search, FindSession and CanJoin\<close>

definition friend_list :: "mm_env \<Rightarrow> u64 \<Rightarrow> u32 list" where
  "friend_list E pid = (case friendPIDs E of None \<Rightarrow> [] | Some f \<Rightarrow> f (ucast pid))"

definition with_auto :: "search_options \<Rightarrow> search_criteria \<Rightarrow> search_criteria" where
  "with_auto opts c =
     (if AutoMatchmake opts
      then c\<lparr>VacantOnly := True, ExcludeLocked := True, ExcludeNonHostPID := True\<rparr> else c)"

text \<open>The loop over the criteria; \<^verbatim>\<open>n\<close> numbers the map iterations of the calls, \<^verbatim>\<open>break\<close> and \<^verbatim>\<open>continue\<close>
  are the branches that return the results so far and that go on unchanged.\<close>

fun search_loop ::
  "mm_env \<Rightarrow> nat \<Rightarrow> store \<Rightarrow> search_criteria list \<Rightarrow> u32 list \<Rightarrow> u32 \<Rightarrow> u32 \<Rightarrow>
   matchmake_session option \<Rightarrow> search_options \<Rightarrow> (u32 \<times> session) list \<Rightarrow>
   (u32 \<times> session) list" where
  "search_loop E n st [] friends off len source opts results = results"
| "search_loop E n st (c # cs) friends off len source opts results =
     (let c' = with_auto opts c in
      case matchCriteria E n st c' friends opts of
        None \<Rightarrow> search_loop E (n + 1) st cs friends off len source opts results
      | Some found \<Rightarrow>
          let sorted_found = sortSessions found c' source in
          if of_nat (length sorted_found) \<le> off
          then search_loop E (n + 1) st cs friends off len source opts results
          else
            let matched = drop (unat off) sorted_found;
                remaining = uint len - int (length results) in
            if remaining \<le> 0 then results
            else search_loop E (n + 1) st cs friends off len source opts
                   (results @ (if remaining < int (length matched)
                               then take (nat remaining) matched else matched)))"

definition Search ::
  "mm_env \<Rightarrow> nat \<Rightarrow> store \<Rightarrow> u64 \<Rightarrow> search_criteria list \<Rightarrow> result_range \<Rightarrow>
   matchmake_session option \<Rightarrow> search_options \<Rightarrow> (u32 \<times> session) list" where
  "Search E n st pid cs r source opts =
     (if \<not> AllowPublic opts then []
      else let off = (if Offset r = 0xFFFFFFFF then 0 else Offset r);
               len = (if Length r = 0 then 0xFFFFFFFF else Length r)
           in search_loop E n st cs (friend_list E pid) off len source opts [])"

fun match_except_one :: "nat \<Rightarrow> u32 list \<Rightarrow> u32 list \<Rightarrow> bool" where
  "match_except_one i (a # as) (b # bs) =
     (if i = 1 then match_except_one (i + 1) as bs
      else if b \<noteq> a then False else match_except_one (i + 1) as bs)"
| "match_except_one i _ _ = True"

definition matchedAttributes :: "matchmake_session \<Rightarrow> matchmake_session \<Rightarrow> bool" where
  "matchedAttributes wanted candidate =
     (if length (Attributes candidate) \<noteq> length (Attributes wanted) then False
      else match_except_one 0 (Attributes wanted) (Attributes candidate))"

definition eligible :: "u32 list \<Rightarrow> matchmake_session \<Rightarrow> session \<Rightarrow> bool" where
  "eligible friendList wanted s =
     (let m = MatchmakeSession s; maximum = ucast (MaximumParticipants m) in
      if HostPID m = 0 then False
      else if \<not> OpenParticipation m then False
      else if UserPasswordEnabled m \<or> SystemPasswordEnabled m then False
      else if maximum \<noteq> 0 \<and> maximum \<le> Participation_Count s then False
      else if MaximumParticipants m \<noteq> MaximumParticipants wanted then False
      else if MinimumParticipants m \<noteq> MinimumParticipants wanted then False
      else if GameMode m \<noteq> GameMode wanted then False
      else if MatchmakeSystemType m \<noteq> MatchmakeSystemType wanted then False
      else if \<not> matchedAttributes wanted m then False
      else if ParticipationPolicy m = 98 \<and> ucast (OwnerPID m) \<notin> set friendList then False
      else True)"

definition attribute_distance :: "matchmake_session \<Rightarrow> session \<Rightarrow> u64" where
  "attribute_distance wanted s =
     distanceTo (if 1 < length (Attributes wanted) then ucast (Attributes wanted ! 1) else 0)
       (attributeOf s)"

definition FindSession ::
  "mm_env \<Rightarrow> nat \<Rightarrow> store \<Rightarrow> u64 \<Rightarrow> matchmake_session \<Rightarrow> bool \<Rightarrow> (u32 \<times> session) option" where
  "FindSession E n st pid wanted allowPublic =
     (if \<not> allowPublic then None
      else
        let candidates = filter (\<lambda>(k, s). eligible (friend_list E pid) wanted s) (AllLocked E n st)
        in if length candidates = 0 then None
           else Some (hd (SliceStable (\<lambda>a b. attribute_distance wanted (snd a) <
                                             attribute_distance wanted (snd b)) candidates)))"

definition CanJoin :: "mm_env \<Rightarrow> u64 \<Rightarrow> session \<Rightarrow> nex_error option" where
  "CanJoin E pid s =
     (let m = MatchmakeSession s in
      if \<not> OpenParticipation m
      then Some (NewError RendezVous_PermissionDenied ''Gathering is not open to new participants'')
      else if ParticipationPolicy m = 98
      then case friendPIDs E of
             None \<Rightarrow> Some (NewError Core_NotImplemented ''Friend lookups are unavailable'')
           | Some f \<Rightarrow>
               if ucast (OwnerPID m) \<notin> set (f (ucast pid))
               then Some (NewError RendezVous_NotFriend ''Not a friend of the gathering owner'')
               else None
      else None)"

subsection \<open>Constraints\<close>

lemma digit_string_no_comma: "CHR '','' \<notin> set (FormatUint n)"
  using FormatUint_digits [of "CHR '',''" n] by (auto simp: digit_val_def)

lemma parseConstraint_exact:
  assumes "n < 2 ^ 32"
  shows "parseConstraint (FormatUint n) =
    (\<lparr>rc_min = of_nat n, rc_max = of_nat n\<rparr>, True, True)"
  using assms
  by (simp add: parseConstraint_def Cut_absent [OF digit_string_no_comma]
      ParseUint_FormatUint)

lemma parseConstraint_between:
  assumes "a < 2 ^ 32" and "b < 2 ^ 32"
  shows "parseConstraint (FormatUint a @ CHR '','' # FormatUint b) =
    (\<lparr>rc_min = of_nat a, rc_max = of_nat b\<rparr>, True, True)"
  using assms
  by (simp add: parseConstraint_def Cut_found [OF digit_string_no_comma] ParseUint_FormatUint)

lemma accepts_iff:
  "accepts fl opts c pc s \<longleftrightarrow>
     (let m = MatchmakeSession s in
      (ExcludeOwnerPID opts = 0 \<or> OwnerPID m \<noteq> ExcludeOwnerPID opts) \<and>
      length (Attributes m) = length (Attribs c) \<and>
      attributes_match (pc_attribs pc) (Attributes m) \<and>
      \<not> fails (pc_max pc) (ucast (MaximumParticipants m)) \<and>
      \<not> fails (pc_min pc) (ucast (MinimumParticipants m)) \<and>
      \<not> fails (pc_mode pc) (ucast (GameMode m)) \<and>
      \<not> fails (pc_system pc) (ucast (MatchmakeSystemType m)) \<and>
      (ParticipationPolicy m = 98 \<longrightarrow> ucast (OwnerPID m) \<in> set fl) \<and>
      (ExcludeLocked c \<longrightarrow> OpenParticipation m) \<and>
      (ExcludeNonHostPID c \<longrightarrow> HostPID m \<noteq> 0) \<and>
      (VacantOnly c \<longrightarrow>
         (ucast (MaximumParticipants m) :: u32) = 0 \<or>
         Participation_Count s + pc_vacant pc \<le> ucast (MaximumParticipants m)))"
  unfolding accepts_def Let_def by (auto simp: not_less)

lemma eligible_iff:
  "eligible fl wanted s \<longleftrightarrow>
     (let m = MatchmakeSession s in
      HostPID m \<noteq> 0 \<and> OpenParticipation m \<and>
      \<not> UserPasswordEnabled m \<and> \<not> SystemPasswordEnabled m \<and>
      ((ucast (MaximumParticipants m) :: u32) = 0 \<or>
       Participation_Count s < ucast (MaximumParticipants m)) \<and>
      MaximumParticipants m = MaximumParticipants wanted \<and>
      MinimumParticipants m = MinimumParticipants wanted \<and>
      GameMode m = GameMode wanted \<and> MatchmakeSystemType m = MatchmakeSystemType wanted \<and>
      matchedAttributes wanted m \<and>
      (ParticipationPolicy m = 98 \<longrightarrow> ucast (OwnerPID m) \<in> set fl))"
  unfolding eligible_def Let_def by (auto simp: not_le)

lemma match_except_one_iff:
  "length as = length bs \<Longrightarrow> match_except_one i as bs \<longleftrightarrow>
     (\<forall>j < length as. i + j \<noteq> 1 \<longrightarrow> bs ! j = as ! j)"
proof (induction i as bs rule: match_except_one.induct)
  case (1 i a as b bs)
  have "(\<forall>j < length (a # as). i + j \<noteq> 1 \<longrightarrow> (b # bs) ! j = (a # as) ! j) \<longleftrightarrow>
      (i \<noteq> 1 \<longrightarrow> b = a) \<and> (\<forall>j < length as. (i + 1) + j \<noteq> 1 \<longrightarrow> bs ! j = as ! j)"
    by (auto simp: less_Suc_eq_0_disj nth_Cons split: nat.splits)
  with 1 show ?case by auto
qed auto

lemma matchedAttributes_iff:
  "matchedAttributes wanted m \<longleftrightarrow>
     length (Attributes m) = length (Attributes wanted) \<and>
     (\<forall>i < length (Attributes wanted). i \<noteq> 1 \<longrightarrow> Attributes m ! i = Attributes wanted ! i)"
  by (auto simp: matchedAttributes_def match_except_one_iff)

subsection \<open>Ordering\<close>

text \<open>The comparators are orders by a key, so the results of the stable sort are sorted by it.\<close>

interpretation by_distance: key_order "\<lambda>ks :: u32 \<times> session. attribute_distance wanted (snd ks)"
  for wanted .

interpretation by_near: key_order "\<lambda>ks :: u32 \<times> session. distanceTo r (attributeOf (snd ks))" for r .

interpretation by_progress: key_order "\<lambda>ks :: u32 \<times> session. progressDistance t (snd ks)" for t .

interpretation by_near_and_progress: key_order
  "\<lambda>ks :: u32 \<times> session. distanceTo r (attributeOf (snd ks)) + progressDistance t (snd ks)"
  for r t .

interpretation by_fullness: key_order
  "\<lambda>ks :: u32 \<times> session. - uint (Participation_Count (snd ks))" .

lemma fullness_order:
  "(\<lambda>a b. Participation_Count (snd b) < Participation_Count (snd a)) =
   (\<lambda>a b. - uint (Participation_Count (snd a)) < - uint (Participation_Count (snd b)))"
  by (simp add: word_less_def)

lemma set_sortSessions [simp]: "set (sortSessions xs c source) = set xs"
  by (simp add: sortSessions_def Let_def split: selection_method.split option.split)

lemma mset_sortSessions [simp]: "mset (sortSessions xs c source) = mset xs"
  by (simp add: sortSessions_def Let_def split: selection_method.split option.split)

subsection \<open>Search results\<close>

lemma set_matchCriteria:
  assumes "env_ok E" and "store_inv st"
  shows "matchCriteria E n st c fl opts = Some found \<Longrightarrow>
    \<exists>pc. parse_criteria c = Some pc \<and>
      set found = {(k, s). sessions st k = Some s \<and> accepts fl opts c pc s}"
  by (auto simp: matchCriteria_def set_AllLocked [OF assms] split: option.splits)

definition good_result ::
  "store \<Rightarrow> search_criteria list \<Rightarrow> u32 list \<Rightarrow> search_options \<Rightarrow> u32 \<times> session \<Rightarrow> bool" where
  "good_result st cs fl opts ks \<longleftrightarrow>
     sessions st (fst ks) = Some (snd ks) \<and>
     (\<exists>c \<in> set cs. \<exists>pc. parse_criteria (with_auto opts c) = Some pc \<and>
        accepts fl opts (with_auto opts c) pc (snd ks))"

lemma search_step:
  obtains
    (stop) "search_loop E n st (c # cs) fl off len source opts results = results"
  | (skip) "search_loop E n st (c # cs) fl off len source opts results =
      search_loop E (n + 1) st cs fl off len source opts results"
  | (more) found new where
      "matchCriteria E n st (with_auto opts c) fl opts = Some found"
      "set new \<subseteq> set found"
      "int (length (results @ new)) \<le> uint len"
      "search_loop E n st (c # cs) fl off len source opts results =
         search_loop E (n + 1) st cs fl off len source opts (results @ new)"
proof (cases "matchCriteria E n st (with_auto opts c) fl opts")
  case None
  then show ?thesis by (intro skip) (simp add: Let_def)
next
  case (Some found)
  let ?xs = "sortSessions found (with_auto opts c) source"
  let ?m = "drop (unat off) ?xs"
  let ?rest = "uint len - int (length results)"
  consider "of_nat (length ?xs) \<le> off" | "\<not> of_nat (length ?xs) \<le> off" "?rest \<le> 0"
    | "\<not> of_nat (length ?xs) \<le> off" "\<not> ?rest \<le> 0" by blast
  then show ?thesis
  proof cases
    case 1
    with Some show ?thesis by (intro skip) (simp add: Let_def)
  next
    case 2
    with Some show ?thesis by (intro stop) (simp add: Let_def)
  next
    case 3
    let ?new = "if ?rest < int (length ?m) then take (nat ?rest) ?m else ?m"
    have "set (take j ?m) \<subseteq> set ?xs" "set ?m \<subseteq> set ?xs" for j
      using in_set_takeD [of _ j ?m] in_set_dropD [of _ _ ?xs] by blast+
    then have "set ?new \<subseteq> set ?xs" by (simp only: split: if_split) blast
    then have "set ?new \<subseteq> set found" by simp
    moreover have "int (length (results @ ?new)) \<le> uint len"
      using 3 by simp
    ultimately show ?thesis
      by (rule more [OF Some]) (use Some 3 in \<open>simp add: Let_def\<close>)
  qed
qed

lemma search_loop_sound:
  assumes "env_ok E" and "store_inv st"
    and "set cs \<subseteq> set every" and "\<forall>x \<in> set results. good_result st every fl opts x"
  shows "\<forall>x \<in> set (search_loop E n st cs fl off len source opts results).
    good_result st every fl opts x"
  using assms(3,4)
proof (induction cs arbitrary: n results)
  case Nil
  then show ?case by simp
next
  case (Cons c cs)
  have cs: "set cs \<subseteq> set every" and c: "c \<in> set every" using Cons.prems(1) by auto
  show ?case
  proof (cases rule: search_step [where E = E and n = n and st = st and c = c and cs = cs and
        fl = fl and off = off and len = len and source = source and opts = opts and
        results = results])
    case stop
    with Cons.prems(2) show ?thesis by (simp only:)
  next
    case skip
    with Cons.IH [OF cs Cons.prems(2)] show ?thesis by (simp only:)
  next
    case (more found new)
    obtain pc where pc: "parse_criteria (with_auto opts c) = Some pc"
      and found: "set found = {(k, s). sessions st k = Some s \<and> accepts fl opts (with_auto opts c) pc s}"
      using set_matchCriteria [OF assms(1,2) more(1)] by blast
    have "good_result st every fl opts x" if "x \<in> set new" for x
    proof -
      have "x \<in> {(k, s). sessions st k = Some s \<and> accepts fl opts (with_auto opts c) pc s}"
        using that more(2) found by blast
      then have "sessions st (fst x) = Some (snd x) \<and> accepts fl opts (with_auto opts c) pc (snd x)"
        by (simp add: split_beta)
      with pc c show ?thesis unfolding good_result_def by blast
    qed
    then have "\<forall>x \<in> set (results @ new). good_result st every fl opts x"
      using Cons.prems(2) by auto
    from Cons.IH [OF cs this] more(4) show ?thesis by (simp only:)
  qed
qed

lemma search_loop_length:
  "int (length results) \<le> uint len \<Longrightarrow>
   int (length (search_loop E n st cs fl off len source opts results)) \<le> uint len"
proof (induction cs arbitrary: n results)
  case Nil
  then show ?case by simp
next
  case (Cons c cs)
  show ?case
    by (cases rule: search_step [where E = E and n = n and st = st and c = c and cs = cs and
        fl = fl and off = off and len = len and source = source and opts = opts and
        results = results])
      (simp_all only: Cons)
qed

lemma search_loop_single:
  assumes "matchCriteria E n st (with_auto opts c) fl opts = Some found"
    and "length found < 2 ^ 32"
  shows "search_loop E n st [c] fl off len source opts [] =
    take (unat len) (drop (unat off) (sortSessions found (with_auto opts c) source))"
proof -
  let ?xs = "sortSessions found (with_auto opts c) source"
  have len: "length ?xs = length found" using mset_sortSessions by (metis size_mset)
  have off: "(of_nat (length ?xs) \<le> off) = (length ?xs \<le> unat off)"
    using assms(2) by (simp add: len word_le_nat_alt u32_of_nat_less)
  have cut: "(if uint len \<le> 0 then [] else
        if uint len < int (length ys) then take (nat (uint len)) ys else ys) = take (unat len) ys"
    for ys :: "(u32 \<times> session) list"
  proof -
    obtain l where "uint len = int l" and "unat len = l" by (metis uint_nat)
    then show ?thesis by (simp add: not_less)
  qed
  show ?thesis
  proof (cases "length ?xs \<le> unat off")
    case True
    then show ?thesis using assms(1) by (simp add: Let_def off)
  next
    case False
    have "search_loop E n st [c] fl off len source opts [] =
      (if uint len \<le> 0 then [] else if uint len < int (length (drop (unat off) ?xs))
       then take (nat (uint len)) (drop (unat off) ?xs) else drop (unat off) ?xs)"
      using False assms(1) by (simp add: Let_def off del: length_drop)
    then show ?thesis by (simp only: cut)
  qed
qed

lemma Search_not_public: "\<not> AllowPublic opts \<Longrightarrow> Search E n st pid cs r source opts = []"
  by (simp add: Search_def)

lemma Search_sound:
  assumes "env_ok E" and "store_inv st"
  shows "x \<in> set (Search E n st pid cs r source opts) \<Longrightarrow>
    good_result st cs (friend_list E pid) opts x"
  using search_loop_sound [OF assms order_refl, where results = "[]"]
  by (fastforce simp: Search_def Let_def split: if_splits)

lemma Search_length:
  assumes "Length r \<noteq> 0"
  shows "length (Search E n st pid cs r source opts) \<le> unat (Length r)"
proof -
  let ?off = "if Offset r = 0xFFFFFFFF then 0 else Offset r"
  have "int (length (search_loop E n st cs (friend_list E pid) ?off (Length r) source opts []))
      \<le> uint (Length r)"
    by (rule search_loop_length) simp
  then have "length (search_loop E n st cs (friend_list E pid) ?off (Length r) source opts [])
      \<le> unat (Length r)"
    by (simp only: uint_nat zle_int)
  then show ?thesis using assms by (simp add: Search_def Let_def)
qed

subsection \<open>What the automatic matchmaker can rely on\<close>

lemma eligible_CanJoin: "eligible (friend_list E pid) wanted s \<Longrightarrow> CanJoin E pid s = None"
  by (auto simp: eligible_iff CanJoin_def friend_list_def Let_def split: option.splits)

lemma auto_accepts_CanJoin:
  "accepts (friend_list E pid) opts (with_auto opts c) pc s \<Longrightarrow> AutoMatchmake opts \<Longrightarrow>
   CanJoin E pid s = None"
  by (auto simp: accepts_iff CanJoin_def friend_list_def with_auto_def Let_def split: option.splits)

lemma FindSession_Some:
  assumes "env_ok E" and "store_inv st"
    and "FindSession E n st pid wanted allow = Some (k, s)"
  shows "sessions st k = Some s" and "eligible (friend_list E pid) wanted s"
    and "\<And>k' s'. sessions st k' = Some s' \<Longrightarrow> eligible (friend_list E pid) wanted s' \<Longrightarrow>
      attribute_distance wanted s \<le> attribute_distance wanted s'"
proof -
  let ?xs = "filter (\<lambda>(k, s). eligible (friend_list E pid) wanted s) (AllLocked E n st)"
  let ?ys = "SliceStable (\<lambda>a b. attribute_distance wanted (snd a) < attribute_distance wanted (snd b)) ?xs"
  have "?xs \<noteq> []" and hd: "hd ?ys = (k, s)"
    using assms(3) by (auto simp: FindSession_def Let_def split: if_splits)
  have xs: "set ?xs = {(k, s). sessions st k = Some s \<and> eligible (friend_list E pid) wanted s}"
    using set_AllLocked [OF assms(1,2), of n] by auto
  have "?ys \<noteq> []" using \<open>?xs \<noteq> []\<close> by (metis length_0_conv length_SliceStable)
  then have "(k, s) \<in> set ?xs" using hd by (metis hd_in_set set_SliceStable)
  with xs show "sessions st k = Some s" "eligible (friend_list E pid) wanted s" by auto
  fix k' s'
  assume "sessions st k' = Some s'" "eligible (friend_list E pid) wanted s'"
  then have "(k', s') \<in> set ?xs" using xs by blast
  from by_distance.first_has_least_key [OF this, of wanted]
  show "attribute_distance wanted s \<le> attribute_distance wanted s'" using hd by simp
qed

lemma FindSession_None:
  assumes "env_ok E" and "store_inv st"
  shows "FindSession E n st pid wanted True = None \<longleftrightarrow>
    (\<forall>k s. sessions st k = Some s \<longrightarrow> \<not> eligible (friend_list E pid) wanted s)"
proof -
  have "FindSession E n st pid wanted True = None \<longleftrightarrow>
      (\<forall>x \<in> set (AllLocked E n st). \<not> (case x of (k, s) \<Rightarrow> eligible (friend_list E pid) wanted s))"
    by (simp add: FindSession_def Let_def filter_empty_conv)
  then show ?thesis by (auto simp: set_AllLocked [OF assms])
qed

subsection \<open>Constraints on the attributes\<close>

lemma parse_attribs_nth:
  "parse_attribs j as = Some cs \<Longrightarrow> length cs = length as \<and>
     (\<forall>i < length as. i + j \<noteq> 1 \<longrightarrow>
        (\<exists>c present. parseConstraint (as ! i) = (c, present, True) \<and> cs ! i = (c, present)))"
proof (induction j as arbitrary: cs rule: parse_attribs.induct)
  case (1 j)
  then show ?case by simp
next
  case (2 j a as)
  show ?case
  proof (cases "j = 1")
    case True
    with 2 show ?thesis by (auto simp: nth_Cons split: nat.splits)
  next
    case False
    obtain c present okay where a: "parseConstraint a = (c, present, okay)"
      using prod_cases3 by blast
    with 2(3) False obtain rest where rest: "okay" "parse_attribs (j + 1) as = Some rest"
      "cs = (c, present) # rest" by (auto split: if_splits)
    from 2(2) [OF False _ _ _ rest(2)] a rest(1)
    have IH: "length rest = length as \<and> (\<forall>i < length as. i + (j + 1) \<noteq> 1 \<longrightarrow>
        (\<exists>c present. parseConstraint (as ! i) = (c, present, True) \<and> rest ! i = (c, present)))"
      by simp
    show ?thesis using IH a rest by (auto simp: nth_Cons split: nat.splits)
  qed
qed

lemma attributes_match_nth:
  "attributes_match cs vs \<Longrightarrow> length cs = length vs \<Longrightarrow> i < length vs \<Longrightarrow> snd (cs ! i) \<Longrightarrow>
   rc_contains (fst (cs ! i)) (ucast (vs ! i))"
proof (induction cs vs arbitrary: i rule: attributes_match.induct)
  case (1 c present cs v vs)
  then show ?case by (cases i) (auto split: if_splits)
qed auto

lemma accepts_attribute:
  assumes "parse_criteria c = Some pc" and "accepts fl opts c pc s" and "i < length (Attribs c)"
    and "i \<noteq> 1" and "parseConstraint (Attribs c ! i) = (r, True, True)"
  shows "rc_contains r (ucast (Attributes (MatchmakeSession s) ! i))"
proof -
  have pa: "parse_attribs 0 (Attribs c) = Some (pc_attribs pc)"
    using assms(1) by (auto simp: parse_criteria_def split: option.splits prod.splits if_splits)
  have "pc_attribs pc ! i = (r, True)" and len: "length (pc_attribs pc) = length (Attribs c)"
    using parse_attribs_nth [OF pa] assms(3-5) by auto
  moreover have "attributes_match (pc_attribs pc) (Attributes (MatchmakeSession s))"
    "length (Attributes (MatchmakeSession s)) = length (Attribs c)"
    using assms(2) by (auto simp: accepts_iff Let_def)
  ultimately show ?thesis using attributes_match_nth [of "pc_attribs pc" _ i] assms(3) by fastforce
qed

lemma parse_criteria_vacant:
  "parse_criteria c = Some pc \<Longrightarrow>
   pc_vacant pc = (if VacantParticipants c = 0 then 1 else ucast (VacantParticipants c))"
  by (auto simp: parse_criteria_def Let_def ucast_u16_u32_eq_0 split: option.splits prod.splits if_splits)

end
