(* ===== verification/MMExtension.thy ===== *)
theory MMExtension
  imports MMSearch
begin

text \<open>
  The MatchmakeExtension protocol (\<^verbatim>\<open>matchmaking/matchmake_extension.go\<close>): creating and joining
  lobbies, the automatic matchmaker, browsing, the owner's changes and published notification data.
  A handler takes the environment, the store, the caller's PID, the call ID, the decoding error
  (None when the request decoded) and the arguments; it returns the new store, the notifications in
  order, and the error or the response.
\<close>

type_synonym mm_result = "store \<times> notification list \<times> (nex_error + mm_response)"

definition reject :: "store \<Rightarrow> nex_error \<Rightarrow> mm_result" where
  "reject st e = (st, [], Inl e)"

definition maxMessageLength :: nat where "maxMessageLength = 256"

abbreviation MMX :: string where "MMX \<equiv> ''matchmakeextension.ProtocolID''"

subsection \<open>Session creation and joining\<close>

definition createMatchmakeSession ::
  "mm_env \<Rightarrow> store \<Rightarrow> u64 \<Rightarrow> u32 \<Rightarrow> string option \<Rightarrow> gathering_holder \<Rightarrow> string \<Rightarrow> u16 \<Rightarrow>
   mm_result" where
  "createMatchmakeSession E st pid callID err anyGathering message participationCount =
     (if err \<noteq> None then reject st (invalidArgument err)
      else if maxMessageLength < length message then reject st (invalidArgument None)
      else case sessionFromHolder anyGathering of
        Inl e \<Rightarrow> reject st e
      | Inr requested \<Rightarrow>
          if \<not> CheckValidMatchmakeSession requested then reject st (invalidArgument None)
          else
            let (st1, notes1) = RemoveConnectionLocked E 0 st pid Disconnect;
                (st2, gid, s) = CreateLocked E st1 pid requested;
                (r, notes2) = JoinLocked E s pid participationCount message
            in case r of
                 Inl e \<Rightarrow> (delete_session (ID (MatchmakeSession s)) st2, notes1 @ notes2, Inl e)
               | Inr (cnt, s') \<Rightarrow>
                   let created = MatchmakeSession s' in
                   (put_session gid s' st2, notes1 @ notes2,
                    Inr (respond MMX ''MethodCreateMatchmakeSession'' callID
                      (WU32 (ID created) #
                       (if MatchMaking_GE_3_0_0 E then [WBuffer (SessionKey created)] else [])))))"

definition join_session ::
  "mm_env \<Rightarrow> store \<Rightarrow> u64 \<Rightarrow> u32 \<Rightarrow> string option \<Rightarrow> u32 \<Rightarrow> string \<Rightarrow> u16 \<Rightarrow> string \<Rightarrow>
   mm_result" where
  "join_session E st pid callID err gid strMessage participationCount methodID =
     (if err \<noteq> None then reject st (invalidArgument err)
      else if maxMessageLength < length strMessage then reject st (invalidArgument None)
      else case GetLocked st gid of
        Inl e \<Rightarrow> reject st e
      | Inr s \<Rightarrow>
          if UserPasswordEnabled (MatchmakeSession s) \<or> SystemPasswordEnabled (MatchmakeSession s)
          then reject st (NewError RendezVous_PermissionDenied ''Gathering is password protected'')
          else case CanJoin E pid s of
            Some e \<Rightarrow> reject st e
          | None \<Rightarrow>
              let (r, notes) = JoinLocked E s pid participationCount strMessage in
              case r of
                Inl e \<Rightarrow> (st, notes, Inl e)
              | Inr (cnt, s') \<Rightarrow>
                  (put_session gid s' st, notes,
                   Inr (respond MMX methodID callID
                     (if MatchMaking_GE_3_0_0 E
                      then [WBuffer (SessionKey (MatchmakeSession s'))] else []))))"

definition joinMatchmakeSession ::
  "mm_env \<Rightarrow> store \<Rightarrow> u64 \<Rightarrow> u32 \<Rightarrow> string option \<Rightarrow> u32 \<Rightarrow> string \<Rightarrow> mm_result" where
  "joinMatchmakeSession E st pid callID err gid strMessage =
     join_session E st pid callID err gid strMessage 1 ''MethodJoinMatchmakeSession''"

definition joinMatchmakeSessionEx ::
  "mm_env \<Rightarrow> store \<Rightarrow> u64 \<Rightarrow> u32 \<Rightarrow> string option \<Rightarrow> u32 \<Rightarrow> string \<Rightarrow> bool \<Rightarrow> u16 \<Rightarrow>
   mm_result" where
  "joinMatchmakeSessionEx E st pid callID err gid strMessage dontCareMyBlockList cnt =
     join_session E st pid callID err gid strMessage cnt ''MethodJoinMatchmakeSessionEx''"

subsection \<open>Automatic matchmaking\<close>

definition auto_candidate ::
  "mm_env \<Rightarrow> store \<Rightarrow> u64 \<Rightarrow> search_criteria list \<Rightarrow> matchmake_session \<Rightarrow>
   (u32 \<times> session) option" where
  "auto_candidate E st pid searchCriterias requested =
     (if length searchCriterias = 0
      then case FindSession E 1 st pid requested (AllowPublicMatchmaking E) of
             None \<Rightarrow> None
           | Some (k, s) \<Rightarrow> if CanJoin E pid s = None then Some (k, s) else None
      else List.find (\<lambda>(k, s). CanJoin E pid s = None)
             (Search E 1 st pid searchCriterias \<lparr>Offset = 0, Length = 1\<rparr> (Some requested)
                \<lparr>AutoMatchmake = True, ExcludeOwnerPID = pid,
                 AllowPublic = AllowPublicMatchmaking E\<rparr>))"

definition autoMatchmake ::
  "mm_env \<Rightarrow> store \<Rightarrow> u64 \<Rightarrow> u32 \<Rightarrow> search_criteria list \<Rightarrow> matchmake_session \<Rightarrow> string \<Rightarrow>
   string \<Rightarrow> mm_result" where
  "autoMatchmake E st pid callID searchCriterias requested message methodID =
     (if \<not> CheckValidMatchmakeSession requested then reject st (invalidArgument None)
      else
        let (st1, notes1) = RemoveConnectionLocked E 0 st pid Disconnect;
            (created, st2, gid, s) =
              (case auto_candidate E st1 pid searchCriterias requested of
                 Some (k, s) \<Rightarrow> (False, st1, k, s)
               | None \<Rightarrow> (True, CreateLocked E st1 pid requested));
            (r, notes2) = JoinLocked E s pid 1 message
        in case r of
             Inl e \<Rightarrow> (if created then delete_session (ID (MatchmakeSession s)) st2 else st2,
                       notes1 @ notes2, Inl e)
           | Inr (participants, s') \<Rightarrow>
               (put_session gid s' st2, notes1 @ notes2,
                Inr (respond MMX methodID callID
                  [WStruct (holderFor
                     ((MatchmakeSession s')\<lparr>ParticipationCount := participants\<rparr>))])))"

definition autoMatchmakePostpone ::
  "mm_env \<Rightarrow> store \<Rightarrow> u64 \<Rightarrow> u32 \<Rightarrow> string option \<Rightarrow> gathering_holder \<Rightarrow> string \<Rightarrow>
   mm_result" where
  "autoMatchmakePostpone E st pid callID err anyGathering message =
     (if err \<noteq> None then reject st (invalidArgument err)
      else if maxMessageLength < length message then reject st (invalidArgument None)
      else case sessionFromHolder anyGathering of
        Inl e \<Rightarrow> reject st e
      | Inr requested \<Rightarrow>
          autoMatchmake E st pid callID [] requested message ''MethodAutoMatchmakePostpone'')"

definition autoMatchmakeWithSearchCriteriaPostpone ::
  "mm_env \<Rightarrow> store \<Rightarrow> u64 \<Rightarrow> u32 \<Rightarrow> string option \<Rightarrow> search_criteria list \<Rightarrow>
   gathering_holder \<Rightarrow> string \<Rightarrow> mm_result" where
  "autoMatchmakeWithSearchCriteriaPostpone E st pid callID err lstSearchCriteria anyGathering
     strMessage =
     (if err \<noteq> None then reject st (invalidArgument err)
      else if maxMessageLength < length strMessage then reject st (invalidArgument None)
      else case sessionFromHolder anyGathering of
        Inl e \<Rightarrow> reject st e
      | Inr requested \<Rightarrow>
          autoMatchmake E st pid callID lstSearchCriteria requested strMessage
            ''MethodAutoMatchmakeWithSearchCriteriaPostpone'')"

subsection \<open>Session discovery\<close>

definition browse ::
  "mm_env \<Rightarrow> store \<Rightarrow> u64 \<Rightarrow> u32 \<Rightarrow> string option \<Rightarrow> search_criteria \<Rightarrow> result_range \<Rightarrow>
   string \<Rightarrow> mm_result" where
  "browse E st pid callID err searchCriteria resultRange methodID =
     (if err \<noteq> None then reject st (invalidArgument err)
      else
        let found = Search E 0 st pid [searchCriteria] resultRange None
              \<lparr>AutoMatchmake = False, ExcludeOwnerPID = 0, AllowPublic = AllowPublicMatchmaking E\<rparr>
        in (st, [], Inr (respond MMX methodID callID
              [WList (map (\<lambda>(k, s). WStruct (holderFor (publicCopy (MatchmakeSession s)))) found)])))"

definition browseMatchmakeSession ::
  "mm_env \<Rightarrow> store \<Rightarrow> u64 \<Rightarrow> u32 \<Rightarrow> string option \<Rightarrow> search_criteria \<Rightarrow> result_range \<Rightarrow>
   mm_result" where
  "browseMatchmakeSession E st pid callID err searchCriteria resultRange =
     browse E st pid callID err searchCriteria resultRange ''MethodBrowseMatchmakeSession''"

definition browseMatchmakeSessionWithHostURLs ::
  "mm_env \<Rightarrow> store \<Rightarrow> u64 \<Rightarrow> u32 \<Rightarrow> string option \<Rightarrow> search_criteria \<Rightarrow> result_range \<Rightarrow>
   mm_result" where
  "browseMatchmakeSessionWithHostURLs E st pid callID err searchCriteria resultRange =
     browse E st pid callID err searchCriteria resultRange
       ''MethodBrowseMatchmakeSessionWithHostURLs''"

definition lookup_each :: "store \<Rightarrow> u32 list \<Rightarrow> session list" where
  "lookup_each st gids =
     concat (map (\<lambda>gid. case GetLocked st gid of Inl e \<Rightarrow> [] | Inr s \<Rightarrow> [s]) gids)"

definition findMatchmakeSessionByGatheringID ::
  "store \<Rightarrow> u32 \<Rightarrow> string option \<Rightarrow> u32 list \<Rightarrow> mm_result" where
  "findMatchmakeSessionByGatheringID st callID err lstGID =
     (if err \<noteq> None then reject st (invalidArgument err)
      else (st, [], Inr (respond MMX ''MethodFindMatchmakeSessionByGatheringID'' callID
              [WList (map (\<lambda>s. WStruct (SMatchmakeSession (publicCopy (MatchmakeSession s))))
                        (lookup_each st lstGID))])))"

definition findMatchmakeSessionBySingleGatheringID ::
  "store \<Rightarrow> u32 \<Rightarrow> string option \<Rightarrow> u32 \<Rightarrow> mm_result" where
  "findMatchmakeSessionBySingleGatheringID st callID err gid =
     (if err \<noteq> None then reject st (invalidArgument err)
      else case GetLocked st gid of
        Inl e \<Rightarrow> reject st e
      | Inr s \<Rightarrow>
          (st, [], Inr (respond MMX ''MethodFindMatchmakeSessionBySingleGatheringID'' callID
             [WStruct (SMatchmakeSession (publicCopy (MatchmakeSession s)))])))"

definition findMatchmakeSessionByOwner ::
  "mm_env \<Rightarrow> store \<Rightarrow> u32 \<Rightarrow> string option \<Rightarrow> u32 \<Rightarrow> result_range \<Rightarrow> mm_result" where
  "findMatchmakeSessionByOwner E st callID err owner resultRange =
     (if err \<noteq> None then reject st (invalidArgument err)
      else (st, [], Inr (respond MMX ''MethodFindMatchmakeSessionByOwner'' callID
              [WList (applyRange
                 (map (\<lambda>s. WStruct (SMatchmakeSession (publicCopy (MatchmakeSession s))))
                    (FindByOwnerLocked E 0 st (ucast owner))) resultRange)])))"

text \<open>\<^verbatim>\<open>i\<close> numbers the iterations over the session map of one request.\<close>

fun sessions_of_each ::
  "mm_env \<Rightarrow> nat \<Rightarrow> store \<Rightarrow> u64 list \<Rightarrow> (u64 \<times> session) list" where
  "sessions_of_each E i st [] = []"
| "sessions_of_each E i st (p # ps) =
     map (\<lambda>s. (p, s)) (FindByParticipantLocked E i st p) @ sessions_of_each E (i + 1) st ps"

definition getPlayingSession ::
  "mm_env \<Rightarrow> store \<Rightarrow> u32 \<Rightarrow> string option \<Rightarrow> u64 list \<Rightarrow> mm_result" where
  "getPlayingSession E st callID err lstPID =
     (if err \<noteq> None then reject st (invalidArgument err)
      else if 300 < length lstPID
      then reject st (NewError Core_InvalidArgument
             ''lstPID exceeds MAX_PRINCIPALID_SIZE_TO_FIND_MATCHMAKE_SESSION'')
      else (st, [], Inr (respond MMX ''MethodGetPlayingSession'' callID
              [WList (map (\<lambda>(p, s). WStruct (SPlayingSession p (publicCopy (MatchmakeSession s))))
                        (sessions_of_each E 0 st lstPID))])))"

definition getSimplePlayingSession ::
  "mm_env \<Rightarrow> store \<Rightarrow> u64 \<Rightarrow> u32 \<Rightarrow> string option \<Rightarrow> u64 list \<Rightarrow> bool \<Rightarrow> mm_result" where
  "getSimplePlayingSession E st pid callID err listPID includeLoginUser =
     (if err \<noteq> None then reject st (invalidArgument err)
      else
        let pids = (if includeLoginUser then listPID @ [pid] else listPID) in
        (st, [], Inr (respond MMX ''MethodGetSimplePlayingSession'' callID
           [WList (map (\<lambda>(p, s). let m = MatchmakeSession s in
                WStruct (SSimplePlayingSession p (ID m) (GameMode m)
                  (if 0 < length (Attributes m) then Some (Attributes m ! 0) else None)))
              (sessions_of_each E 0 st pids))])))"

subsection \<open>Session mutation (owner only)\<close>

definition ownedSession :: "store \<Rightarrow> u64 \<Rightarrow> u32 \<Rightarrow> nex_error + session" where
  "ownedSession st pid gid =
     (case GetLocked st gid of
        Inl e \<Rightarrow> Inl e
      | Inr s \<Rightarrow>
          if OwnerPID (MatchmakeSession s) \<noteq> pid
          then Inl (NewError RendezVous_PermissionDenied
                      ''Only the gathering owner may modify it'')
          else Inr s)"

definition mutateOwned ::
  "store \<Rightarrow> u64 \<Rightarrow> u32 \<Rightarrow> string option \<Rightarrow> u32 \<Rightarrow> string \<Rightarrow> (session \<Rightarrow> nex_error + session) \<Rightarrow>
   mm_result" where
  "mutateOwned st pid callID err gid methodID mutate =
     (if err \<noteq> None then reject st (invalidArgument err)
      else case ownedSession st pid gid of
        Inl e \<Rightarrow> reject st e
      | Inr s \<Rightarrow>
          (case mutate s of
             Inl e \<Rightarrow> reject st e
           | Inr s' \<Rightarrow> (put_session gid s' st, [], Inr (respondEmpty MMX methodID callID))))"

definition set_mm :: "session \<Rightarrow> matchmake_session \<Rightarrow> session" where
  "set_mm s m = s\<lparr>MatchmakeSession := m\<rparr>"

definition closeParticipation ::
  "store \<Rightarrow> u64 \<Rightarrow> u32 \<Rightarrow> string option \<Rightarrow> u32 \<Rightarrow> mm_result" where
  "closeParticipation st pid callID err gid =
     mutateOwned st pid callID err gid ''MethodCloseParticipation''
       (\<lambda>s. Inr (set_mm s ((MatchmakeSession s)\<lparr>OpenParticipation := False\<rparr>)))"

definition openParticipation ::
  "store \<Rightarrow> u64 \<Rightarrow> u32 \<Rightarrow> string option \<Rightarrow> u32 \<Rightarrow> mm_result" where
  "openParticipation st pid callID err gid =
     mutateOwned st pid callID err gid ''MethodOpenParticipation''
       (\<lambda>s. Inr (set_mm s ((MatchmakeSession s)\<lparr>OpenParticipation := True\<rparr>)))"

definition updateApplicationBuffer ::
  "store \<Rightarrow> u64 \<Rightarrow> u32 \<Rightarrow> string option \<Rightarrow> u32 \<Rightarrow> bytes \<Rightarrow> mm_result" where
  "updateApplicationBuffer st pid callID err gid applicationBuffer =
     (if 512 < length applicationBuffer then reject st (invalidArgument None)
      else mutateOwned st pid callID err gid ''MethodUpdateApplicationBuffer''
        (\<lambda>s. Inr (set_mm s ((MatchmakeSession s)\<lparr>ApplicationBuffer := applicationBuffer\<rparr>))))"

definition updateProgressScore ::
  "store \<Rightarrow> u64 \<Rightarrow> u32 \<Rightarrow> string option \<Rightarrow> u32 \<Rightarrow> u8 \<Rightarrow> mm_result" where
  "updateProgressScore st pid callID err gid progressScore =
     (if 100 < progressScore then reject st (invalidArgument None)
      else mutateOwned st pid callID err gid ''MethodUpdateProgressScore''
        (\<lambda>s. Inr (set_mm s ((MatchmakeSession s)\<lparr>ProgressScore := progressScore\<rparr>))))"

definition updateMatchmakeSessionAttribute ::
  "store \<Rightarrow> u64 \<Rightarrow> u32 \<Rightarrow> string option \<Rightarrow> u32 \<Rightarrow> u32 list \<Rightarrow> mm_result" where
  "updateMatchmakeSessionAttribute st pid callID err gid attribs =
     mutateOwned st pid callID err gid ''MethodUpdateMatchmakeSessionAttribute''
       (\<lambda>s. if length attribs \<noteq> length (Attributes (MatchmakeSession s))
            then Inl (invalidArgument None)
            else Inr (set_mm s ((MatchmakeSession s)\<lparr>Attributes := attribs\<rparr>)))"

definition modifyCurrentGameAttribute ::
  "store \<Rightarrow> u64 \<Rightarrow> u32 \<Rightarrow> string option \<Rightarrow> u32 \<Rightarrow> u32 \<Rightarrow> u32 \<Rightarrow> mm_result" where
  "modifyCurrentGameAttribute st pid callID err gid attribIndex newValue =
     mutateOwned st pid callID err gid ''MethodModifyCurrentGameAttribute''
       (\<lambda>s. if length (Attributes (MatchmakeSession s)) \<le> unat attribIndex
            then Inl (invalidArgument None)
            else Inr (set_mm s ((MatchmakeSession s)
                   \<lparr>Attributes := (Attributes (MatchmakeSession s))[unat attribIndex := newValue]\<rparr>)))"

definition with_identity :: "session \<Rightarrow> matchmake_session \<Rightarrow> matchmake_session" where
  "with_identity s updated =
     (let current = MatchmakeSession s in
      updated\<lparr>ID := ID current, OwnerPID := OwnerPID current, HostPID := HostPID current,
              SessionKey := SessionKey current, StartedTime := StartedTime current,
              ParticipationCount := Participation_Count s\<rparr>)"

definition updateMatchmakeSession ::
  "store \<Rightarrow> u64 \<Rightarrow> u32 \<Rightarrow> string option \<Rightarrow> gathering_holder \<Rightarrow> mm_result" where
  "updateMatchmakeSession st pid callID err anyGathering =
     (if err \<noteq> None then reject st (invalidArgument err)
      else case sessionFromHolder anyGathering of
        Inl e \<Rightarrow> reject st e
      | Inr updated \<Rightarrow>
          if \<not> CheckValidMatchmakeSession updated then reject st (invalidArgument None)
          else case ownedSession st pid (ID updated) of
            Inl e \<Rightarrow> reject st e
          | Inr s \<Rightarrow>
              (put_session (ID updated) (set_mm s (with_identity s updated)) st, [],
               Inr (respondEmpty MMX ''MethodUpdateMatchmakeSession'' callID)))"

subsection \<open>Notification data\<close>

definition updateNotificationData ::
  "mm_env \<Rightarrow> store \<Rightarrow> u64 \<Rightarrow> u32 \<Rightarrow> string option \<Rightarrow> u32 \<Rightarrow> u64 \<Rightarrow> u64 \<Rightarrow> string \<Rightarrow>
   mm_result" where
  "updateNotificationData E st pid callID err uiType uiParam1 uiParam2 strParam =
     (if err \<noteq> None then reject st (invalidArgument err)
      else if uiType < 101 \<or> 108 < uiType then reject st (invalidArgument None)
      else if maxMessageLength < RuneCountInString strParam then reject st (invalidArgument None)
      else
        let event = (NewNotificationEvent (proto E))
              \<lparr>PIDSource := pid, Type := Build (proto E) (CatCode uiType), Param1 := uiParam1,
               Param2 := uiParam2, StrParam := strParam\<rparr>;
            st' = SetNotificationData st pid event;
            targets = (case friendPIDs E of None \<Rightarrow> [] | Some f \<Rightarrow>
              map ucast (filter (\<lambda>friend. FindConnectionByPID (mm_endpoint E) (ucast friend) \<noteq> None)
                           (f (ucast pid))))
        in (st', if 0 < length targets then [(event, targets)] else [],
            Inr (respondEmpty MMX ''MethodUpdateNotificationData'' callID)))"

definition friendNotificationData ::
  "mm_env \<Rightarrow> store \<Rightarrow> u64 \<Rightarrow> u32 list \<Rightarrow> notification_event list" where
  "friendNotificationData E st pid categories =
     NotificationDataForPIDs E st (map ucast (friend_list E pid)) categories"

definition getFriendNotificationData ::
  "mm_env \<Rightarrow> store \<Rightarrow> u64 \<Rightarrow> u32 \<Rightarrow> string option \<Rightarrow> int \<Rightarrow> mm_result" where
  "getFriendNotificationData E st pid callID err uiType =
     (if err \<noteq> None then reject st (invalidArgument err)
      else if uiType < 101 \<or> 108 < uiType then reject st (invalidArgument None)
      else (st, [], Inr (respond MMX ''MethodGetFriendNotificationData'' callID
              [WList (map (\<lambda>ev. WStruct (SNotificationEvent ev))
                 (friendNotificationData E st pid [ToUnsigned (proto E) uiType]))])))"

fun bad_category :: "u32 list \<Rightarrow> bool" where
  "bad_category [] = False"
| "bad_category (c # cs) = (if c < 101 \<or> 108 < c then True else bad_category cs)"

definition getLstFriendNotificationData ::
  "mm_env \<Rightarrow> store \<Rightarrow> u64 \<Rightarrow> u32 \<Rightarrow> string option \<Rightarrow> u32 list \<Rightarrow> mm_result" where
  "getLstFriendNotificationData E st pid callID err lstTypes =
     (if err \<noteq> None then reject st (invalidArgument err)
      else if bad_category lstTypes then reject st (invalidArgument None)
      else (st, [], Inr (respond MMX ''MethodGetlstFriendNotificationData'' callID
              [WList (map (\<lambda>ev. WStruct (SNotificationEvent ev))
                 (friendNotificationData E st pid lstTypes))])))"

end
