(* ===== verification/MMHandlers.thy ===== *)
theory MMHandlers
  imports MMExtension
begin

text \<open>
  The MatchMaking and MatchMakingExt protocols (\<^verbatim>\<open>matchmaking/match_making.go\<close>,
  \<^verbatim>\<open>matchmaking/match_making_ext.go\<close>): the older surface over the same store. Handlers have the shape of
  MMExtension. \<^verbatim>\<open>unregisterGatherings\<close> takes the lock once per gathering, so it is a sequence of
  \<^verbatim>\<open>destroyGathering\<close> steps that stops at the first error.
\<close>

abbreviation MM :: string where "MM \<equiv> ''matchmakingprotocol.ProtocolID''"

abbreviation MME :: string where "MME \<equiv> ''matchmakingext.ProtocolID''"

subsection \<open>Registering, destroying and updating a gathering\<close>

definition registerGathering ::
  "mm_env \<Rightarrow> store \<Rightarrow> u64 \<Rightarrow> u32 \<Rightarrow> string option \<Rightarrow> gathering_holder \<Rightarrow> mm_result" where
  "registerGathering E st pid callID err anyGathering =
     (if err \<noteq> None then reject st (invalidArgument err)
      else case sessionFromHolder anyGathering of
        Inl e \<Rightarrow> reject st e
      | Inr m \<Rightarrow>
          if \<not> CheckValidMatchmakeSession m then reject st (invalidArgument None)
          else
            let (st1, notes1) = RemoveConnectionLocked E 0 st pid Disconnect;
                (st2, gid, s) = CreateLocked E st1 pid m;
                (r, notes2) = JoinLocked E s pid 1 []
            in case r of
                 Inl e \<Rightarrow> (delete_session (ID (MatchmakeSession s)) st2, notes1 @ notes2, Inl e)
               | Inr (cnt, s') \<Rightarrow>
                   (put_session gid s' st2, notes1 @ notes2,
                    Inr (respond MM ''MethodRegisterGathering'' callID
                      [WU32 (ID (MatchmakeSession s'))])))"

definition destroyGathering ::
  "mm_env \<Rightarrow> store \<Rightarrow> u64 \<Rightarrow> u32 \<Rightarrow> store \<times> notification list \<times> nex_error option" where
  "destroyGathering E st pid gid =
     (case GetLocked st gid of
        Inl e \<Rightarrow> (st, [], Some e)
      | Inr s \<Rightarrow>
          if OwnerPID (MatchmakeSession s) \<noteq> pid
          then (st, [], Some (NewError RendezVous_PermissionDenied
                                ''Only the gathering owner may unregister it''))
          else (delete_session gid st,
                [((NewNotificationEvent (proto E))
                    \<lparr>PIDSource := pid, Type := Build (proto E) CatGatheringUnregistered,
                     Param1 := ucast gid\<rparr>,
                  RemoveDuplicates (Participants s))],
                None))"

fun destroy_each ::
  "mm_env \<Rightarrow> store \<Rightarrow> u64 \<Rightarrow> u32 list \<Rightarrow> store \<times> notification list \<times> nex_error option" where
  "destroy_each E st pid [] = (st, [], None)"
| "destroy_each E st pid (g # gs) =
     (case destroyGathering E st pid g of
        (st', notes, Some e) \<Rightarrow> (st', notes, Some e)
      | (st', notes, None) \<Rightarrow>
          (case destroy_each E st' pid gs of (st'', notes', r) \<Rightarrow> (st'', notes @ notes', r)))"

definition unregisterGathering ::
  "mm_env \<Rightarrow> store \<Rightarrow> u64 \<Rightarrow> u32 \<Rightarrow> string option \<Rightarrow> u32 \<Rightarrow> mm_result" where
  "unregisterGathering E st pid callID err gid =
     (if err \<noteq> None then reject st (invalidArgument err)
      else case destroyGathering E st pid gid of
        (st', notes, Some e) \<Rightarrow> (st', notes, Inl e)
      | (st', notes, None) \<Rightarrow>
          (st', notes, Inr (respond MM ''MethodUnregisterGathering'' callID [WBool True])))"

definition unregisterGatherings ::
  "mm_env \<Rightarrow> store \<Rightarrow> u64 \<Rightarrow> u32 \<Rightarrow> string option \<Rightarrow> u32 list \<Rightarrow> mm_result" where
  "unregisterGatherings E st pid callID err lstGatherings =
     (if err \<noteq> None then reject st (invalidArgument err)
      else case destroy_each E st pid lstGatherings of
        (st', notes, Some e) \<Rightarrow> (st', notes, Inl e)
      | (st', notes, None) \<Rightarrow>
          (st', notes, Inr (respond MM ''MethodUnregisterGatherings'' callID [WBool True])))"

definition updateGathering ::
  "store \<Rightarrow> u64 \<Rightarrow> u32 \<Rightarrow> string option \<Rightarrow> gathering_holder \<Rightarrow> mm_result" where
  "updateGathering st pid callID err anyGathering =
     (if err \<noteq> None then reject st (invalidArgument err)
      else case sessionFromHolder anyGathering of
        Inl e \<Rightarrow> reject st e
      | Inr updated \<Rightarrow>
          (case ownedSession st pid (ID updated) of
             Inl e \<Rightarrow> reject st e
           | Inr s \<Rightarrow>
               (put_session (ID updated) (set_mm s (with_identity s updated)) st, [],
                Inr (respond MM ''MethodUpdateGathering'' callID [WBool True]))))"

subsection \<open>Participation\<close>

definition participate ::
  "mm_env \<Rightarrow> store \<Rightarrow> u64 \<Rightarrow> u32 \<Rightarrow> string option \<Rightarrow> u32 \<Rightarrow> string \<Rightarrow> mm_result" where
  "participate E st pid callID err gid strMessage =
     (if err \<noteq> None then reject st (invalidArgument err)
      else if maxMessageLength < length strMessage then reject st (invalidArgument None)
      else case GetLocked st gid of
        Inl e \<Rightarrow> reject st e
      | Inr s \<Rightarrow>
          (case CanJoin E pid s of
             Some e \<Rightarrow> reject st e
           | None \<Rightarrow>
               let (r, notes) = JoinLocked E s pid 1 strMessage in
               case r of
                 Inl e \<Rightarrow> (st, notes, Inl e)
               | Inr (cnt, s') \<Rightarrow>
                   (put_session gid s' st, notes,
                    Inr (respond MM ''MethodParticipate'' callID [WBool True]))))"

definition leave_gathering ::
  "mm_env \<Rightarrow> store \<Rightarrow> u64 \<Rightarrow> u32 \<Rightarrow> string option \<Rightarrow> u32 \<Rightarrow> string \<Rightarrow> participation_event \<Rightarrow>
   string \<Rightarrow> string \<Rightarrow> mm_result" where
  "leave_gathering E st pid callID err gid strMessage subType protocolID methodID =
     (if err \<noteq> None then reject st (invalidArgument err)
      else if maxMessageLength < length strMessage then reject st (invalidArgument None)
      else case GetLocked st gid of
        Inl e \<Rightarrow> reject st e
      | Inr s \<Rightarrow>
          let (st', notes) = LeaveLocked E st gid s pid subType strMessage in
          (st', notes, Inr (respond protocolID methodID callID [WBool True])))"

definition cancelParticipation ::
  "mm_env \<Rightarrow> store \<Rightarrow> u64 \<Rightarrow> u32 \<Rightarrow> string option \<Rightarrow> u32 \<Rightarrow> string \<Rightarrow> mm_result" where
  "cancelParticipation E st pid callID err gid strMessage =
     leave_gathering E st pid callID err gid strMessage CancelParticipation
       MM ''MethodCancelParticipation''"

definition endParticipation ::
  "mm_env \<Rightarrow> store \<Rightarrow> u64 \<Rightarrow> u32 \<Rightarrow> string option \<Rightarrow> u32 \<Rightarrow> string \<Rightarrow> mm_result" where
  "endParticipation E st pid callID err gid strMessage =
     leave_gathering E st pid callID err gid strMessage EndParticipation
       MME ''MethodEndParticipation''"

subsection \<open>Reading a gathering\<close>

definition read_session ::
  "store \<Rightarrow> u32 \<Rightarrow> string option \<Rightarrow> u32 \<Rightarrow> string \<Rightarrow> string \<Rightarrow>
   (session \<Rightarrow> nex_error + mm_struct wire list) \<Rightarrow> mm_result" where
  "read_session st callID err gid protocolID methodID body =
     (if err \<noteq> None then reject st (invalidArgument err)
      else case GetLocked st gid of
        Inl e \<Rightarrow> reject st e
      | Inr s \<Rightarrow>
          (case body s of
             Inl e \<Rightarrow> reject st e
           | Inr ws \<Rightarrow> (st, [], Inr (respond protocolID methodID callID ws))))"

definition pid_list :: "session \<Rightarrow> mm_struct wire" where
  "pid_list s = WList (map WPID (participantList s))"

definition detail_list :: "session \<Rightarrow> mm_struct wire" where
  "detail_list s = WList (map WStruct (participantDetails s))"

definition url_list :: "station_url list \<Rightarrow> mm_struct wire" where
  "url_list us = WList (map (\<lambda>u. WStruct (SStationURL u)) us)"

definition not_a_participant :: nex_error where
  "not_a_participant =
     NewError RendezVous_PermissionDenied ''Not a participant of this gathering''"

definition getParticipants :: "store \<Rightarrow> u32 \<Rightarrow> string option \<Rightarrow> u32 \<Rightarrow> mm_result" where
  "getParticipants st callID err gid =
     read_session st callID err gid MM ''MethodGetParticipants'' (\<lambda>s. Inr [pid_list s])"

definition getDetailedParticipants :: "store \<Rightarrow> u32 \<Rightarrow> string option \<Rightarrow> u32 \<Rightarrow> mm_result" where
  "getDetailedParticipants st callID err gid =
     read_session st callID err gid MM ''MethodGetDetailedParticipants'' (\<lambda>s. Inr [detail_list s])"

definition extGetParticipants ::
  "store \<Rightarrow> u32 \<Rightarrow> string option \<Rightarrow> u32 \<Rightarrow> bool \<Rightarrow> mm_result" where
  "extGetParticipants st callID err gid bOnlyActive =
     read_session st callID err gid MME ''MethodGetParticipants'' (\<lambda>s. Inr [pid_list s])"

definition extGetDetailedParticipants ::
  "store \<Rightarrow> u32 \<Rightarrow> string option \<Rightarrow> u32 \<Rightarrow> bool \<Rightarrow> mm_result" where
  "extGetDetailedParticipants st callID err gid bOnlyActive =
     read_session st callID err gid MME ''MethodGetDetailedParticipants''
       (\<lambda>s. Inr [detail_list s])"

definition getParticipantsURLs ::
  "mm_env \<Rightarrow> store \<Rightarrow> u64 \<Rightarrow> u32 \<Rightarrow> string option \<Rightarrow> u32 \<Rightarrow> mm_result" where
  "getParticipantsURLs E st pid callID err gid =
     read_session st callID err gid MM ''MethodGetParticipantsURLs''
       (\<lambda>s. if \<not> Contains s pid then Inl not_a_participant
            else Inr [url_list (stationURLsOf (mm_endpoint E) s)])"

definition extGetParticipantsURLs ::
  "mm_env \<Rightarrow> store \<Rightarrow> u64 \<Rightarrow> u32 \<Rightarrow> string option \<Rightarrow> u32 list \<Rightarrow> mm_result" where
  "extGetParticipantsURLs E st pid callID err lstGatherings =
     (if err \<noteq> None then reject st (invalidArgument err)
      else (st, [], Inr (respond MME ''MethodGetParticipantsURLs'' callID
              [WList (concat (map (\<lambda>gid. case GetLocked st gid of
                   Inl e \<Rightarrow> []
                 | Inr s \<Rightarrow>
                     if \<not> Contains s pid then []
                     else [WStruct (SGatheringURLs gid (stationURLsOf (mm_endpoint E) s))])
                 lstGatherings))])))"

definition extDeleteFromDeletions ::
  "store \<Rightarrow> u32 \<Rightarrow> string option \<Rightarrow> u32 list \<Rightarrow> u64 \<Rightarrow> mm_result" where
  "extDeleteFromDeletions st callID err lstDeletions p =
     (if err \<noteq> None then reject st (invalidArgument err)
      else (st, [], Inr (respondEmpty MME ''MethodDeleteFromDeletions'' callID)))"

subsection \<open>Lookups\<close>

definition findByID :: "store \<Rightarrow> u32 \<Rightarrow> string option \<Rightarrow> u32 list \<Rightarrow> mm_result" where
  "findByID st callID err lstID =
     (if err \<noteq> None then reject st (invalidArgument err)
      else (st, [], Inr (respond MM ''MethodFindByID'' callID
              [WList (map (\<lambda>s. WStruct (holderFor (publicCopy (MatchmakeSession s))))
                        (lookup_each st lstID))])))"

definition findBySingleID :: "store \<Rightarrow> u32 \<Rightarrow> string option \<Rightarrow> u32 \<Rightarrow> mm_result" where
  "findBySingleID st callID err gid =
     (if err \<noteq> None then reject st (invalidArgument err)
      else
        let (found, holder) =
              (case GetLocked st gid of
                 Inl e \<Rightarrow> (False, SHolderNew)
               | Inr s \<Rightarrow> (True, holderFor (publicCopy (MatchmakeSession s))))
        in (st, [], Inr (respond MM ''MethodFindBySingleID'' callID [WBool found, WStruct holder])))"

definition findByOwner ::
  "mm_env \<Rightarrow> store \<Rightarrow> u32 \<Rightarrow> string option \<Rightarrow> u64 \<Rightarrow> result_range \<Rightarrow> mm_result" where
  "findByOwner E st callID err owner resultRange =
     (if err \<noteq> None then reject st (invalidArgument err)
      else (st, [], Inr (respond MM ''MethodFindByOwner'' callID
              [WList (applyRange
                 (map (\<lambda>s. WStruct (holderFor (publicCopy (MatchmakeSession s))))
                    (FindByOwnerLocked E 0 st owner)) resultRange)])))"

text \<open>The loop with the set of gathering IDs already listed.\<close>

fun unseen_sessions :: "u32 set \<Rightarrow> session list \<Rightarrow> session list" where
  "unseen_sessions seen [] = []"
| "unseen_sessions seen (s # ss) =
     (if ID (MatchmakeSession s) \<in> seen then unseen_sessions seen ss
      else s # unseen_sessions (insert (ID (MatchmakeSession s)) seen) ss)"

definition findByParticipants ::
  "mm_env \<Rightarrow> store \<Rightarrow> u32 \<Rightarrow> string option \<Rightarrow> u64 list \<Rightarrow> mm_result" where
  "findByParticipants E st callID err pids =
     (if err \<noteq> None then reject st (invalidArgument err)
      else (st, [], Inr (respond MM ''MethodFindByParticipants'' callID
              [WList (map (\<lambda>s. WStruct (holderFor (publicCopy (MatchmakeSession s))))
                        (unseen_sessions {} (map snd (sessions_of_each E 0 st pids))))])))"

subsection \<open>Session URLs, state and hosting\<close>

definition participantSession :: "store \<Rightarrow> u64 \<Rightarrow> u32 \<Rightarrow> nex_error + session" where
  "participantSession st pid gid =
     (case GetLocked st gid of
        Inl e \<Rightarrow> Inl e
      | Inr s \<Rightarrow> if \<not> Contains s pid then Inl not_a_participant else Inr s)"

definition set_host :: "session \<Rightarrow> u64 \<Rightarrow> session" where
  "set_host s pid = set_mm s ((MatchmakeSession s)\<lparr>HostPID := pid\<rparr>)"

definition launchSession ::
  "store \<Rightarrow> u64 \<Rightarrow> u32 \<Rightarrow> string option \<Rightarrow> u32 \<Rightarrow> string \<Rightarrow> mm_result" where
  "launchSession st pid callID err gid strURL =
     (if err \<noteq> None then reject st (invalidArgument err)
      else case participantSession st pid gid of
        Inl e \<Rightarrow> reject st e
      | Inr s \<Rightarrow>
          (put_session gid (set_host (s\<lparr>SessionURL := strURL\<rparr>) pid) st, [],
           Inr (respond MM ''MethodLaunchSession'' callID [WBool True])))"

definition updateSessionURL ::
  "store \<Rightarrow> u64 \<Rightarrow> u32 \<Rightarrow> string option \<Rightarrow> u32 \<Rightarrow> string \<Rightarrow> mm_result" where
  "updateSessionURL st pid callID err gid strURL =
     (if err \<noteq> None then reject st (invalidArgument err)
      else case participantSession st pid gid of
        Inl e \<Rightarrow> reject st e
      | Inr s \<Rightarrow>
          let s1 = (if strURL \<noteq> '''' then s\<lparr>SessionURL := strURL\<rparr> else s) in
          (put_session gid (set_host s1 pid) st, [],
           Inr (respond MM ''MethodUpdateSessionURL'' callID [WBool True])))"

definition getSessionURL :: "store \<Rightarrow> u32 \<Rightarrow> string option \<Rightarrow> u32 \<Rightarrow> mm_result" where
  "getSessionURL st callID err gid =
     read_session st callID err gid MM ''MethodGetSessionURL''
       (\<lambda>s. Inr [WBool True, WString (SessionURL s)])"

definition getSessionURLs ::
  "mm_env \<Rightarrow> store \<Rightarrow> u64 \<Rightarrow> u32 \<Rightarrow> string option \<Rightarrow> u32 \<Rightarrow> mm_result" where
  "getSessionURLs E st pid callID err gid =
     read_session st callID err gid MM ''MethodGetSessionURLs''
       (\<lambda>s. if \<not> Contains s pid then Inl not_a_participant
            else case FindConnectionByPID (mm_endpoint E) (HostPID (MatchmakeSession s)) of
              Some host \<Rightarrow> Inr [url_list (conn_StationURLs host)]
            | None \<Rightarrow> Inr [url_list []])"

definition getState :: "store \<Rightarrow> u32 \<Rightarrow> string option \<Rightarrow> u32 \<Rightarrow> mm_result" where
  "getState st callID err gid =
     read_session st callID err gid MM ''MethodGetState''
       (\<lambda>s. Inr [WBool True, WU32 (State (MatchmakeSession s))])"

definition setState ::
  "store \<Rightarrow> u64 \<Rightarrow> u32 \<Rightarrow> string option \<Rightarrow> u32 \<Rightarrow> u32 \<Rightarrow> mm_result" where
  "setState st pid callID err gid uiNewState =
     (if err \<noteq> None then reject st (invalidArgument err)
      else case ownedSession st pid gid of
        Inl e \<Rightarrow> reject st e
      | Inr s \<Rightarrow>
          (put_session gid (set_mm s ((MatchmakeSession s)\<lparr>State := uiNewState\<rparr>)) st, [],
           Inr (respond MM ''MethodSetState'' callID [WBool True])))"

definition ownership_event :: "mm_env \<Rightarrow> u64 \<Rightarrow> u32 \<Rightarrow> u64 \<Rightarrow> notification_event" where
  "ownership_event E pid gid newOwner =
     (NewNotificationEvent (proto E))
       \<lparr>PIDSource := pid, Type := Build (proto E) CatOwnershipChangeEvent,
        Param1 := ucast gid, Param2 := newOwner\<rparr>"

definition updateSessionHost ::
  "mm_env \<Rightarrow> store \<Rightarrow> u64 \<Rightarrow> u32 \<Rightarrow> string option \<Rightarrow> u32 \<Rightarrow> bool \<Rightarrow> mm_result" where
  "updateSessionHost E st pid callID err gid isMigrateOwner =
     (if err \<noteq> None then reject st (invalidArgument err)
      else case participantSession st pid gid of
        Inl e \<Rightarrow> reject st e
      | Inr s \<Rightarrow>
          if \<not> isMigrateOwner
          then (put_session gid (set_host s pid) st, [],
                Inr (respondEmpty MM ''MethodUpdateSessionHost'' callID))
          else if \<not> HasFlag (proto E) (Flags (MatchmakeSession s)) ChangeOwnerByOtherHost
          then reject st (NewError RendezVous_InvalidOperation
                 ''Gathering does not permit ownership migration'')
          else (put_session gid (set_mm s ((MatchmakeSession s)
                  \<lparr>HostPID := pid, OwnerPID := pid\<rparr>)) st,
                [(ownership_event E pid gid pid, RemoveDuplicates (Participants s))],
                Inr (respondEmpty MM ''MethodUpdateSessionHost'' callID)))"

definition updateSessionHostV1 ::
  "store \<Rightarrow> u64 \<Rightarrow> u32 \<Rightarrow> string option \<Rightarrow> u32 \<Rightarrow> mm_result" where
  "updateSessionHostV1 st pid callID err gid =
     (if err \<noteq> None then reject st (invalidArgument err)
      else case participantSession st pid gid of
        Inl e \<Rightarrow> reject st e
      | Inr s \<Rightarrow>
          (put_session gid (set_host s pid) st, [],
           Inr (respondEmpty MM ''MethodUpdateSessionHostV1'' callID)))"

definition migrateGatheringOwnershipV1 ::
  "mm_env \<Rightarrow> store \<Rightarrow> u64 \<Rightarrow> u32 \<Rightarrow> string option \<Rightarrow> u32 \<Rightarrow> u64 list \<Rightarrow> mm_result" where
  "migrateGatheringOwnershipV1 E st pid callID err gid lstPotentialNewOwnersID =
     (if err \<noteq> None then reject st (invalidArgument err)
      else case ownedSession st pid gid of
        Inl e \<Rightarrow> reject st e
      | Inr s \<Rightarrow>
          let newOwner = (case List.find (Contains s) lstPotentialNewOwnersID of
                            None \<Rightarrow> 0 | Some p \<Rightarrow> p) in
          if newOwner = 0
          then reject st (NewError RendezVous_InvalidOperation
                 ''No candidate owner is a participant'')
          else (put_session gid (set_mm s ((MatchmakeSession s)\<lparr>OwnerPID := newOwner\<rparr>)) st,
                [(ownership_event E pid gid newOwner, RemoveDuplicates (Participants s))],
                Inr (respond MM ''MethodMigrateGatheringOwnershipV1'' callID [WBool True])))"

end
