(* ===== verification/MMLobby.thy ===== *)
theory MMLobby
  imports MMHandlers
begin

text \<open>
  The abstract specification of the matchmaking handlers: \<^verbatim>\<open>lobby_step E V pid\<close> is what one player may
  do to the lobbies, with the permission each change needs, and every handler that takes a store to
  another one is shown to be a sequence of such steps (MMDispatch assembles them). \<^verbatim>\<open>V\<close> says whether edits
  keep a session valid. The invariants of the store are proved once, on the steps.
\<close>

subsection \<open>What a player may do\<close>

definition same_identity :: "session \<Rightarrow> session \<Rightarrow> bool" where
  "same_identity s s' \<longleftrightarrow>
     Participants s' = Participants s \<and>
     ID (MatchmakeSession s') = ID (MatchmakeSession s) \<and>
     OwnerPID (MatchmakeSession s') = OwnerPID (MatchmakeSession s) \<and>
     HostPID (MatchmakeSession s') = HostPID (MatchmakeSession s) \<and>
     SessionKey (MatchmakeSession s') = SessionKey (MatchmakeSession s) \<and>
     StartedTime (MatchmakeSession s') = StartedTime (MatchmakeSession s) \<and>
     ParticipationCount (MatchmakeSession s') = of_nat (length (Participants s))"

definition valid_session :: "session \<Rightarrow> bool" where
  "valid_session s = CheckValidMatchmakeSession (MatchmakeSession s)"

definition fresh_lobby :: "u64 \<Rightarrow> u32 \<Rightarrow> session \<Rightarrow> bool" where
  "fresh_lobby pid gid s \<longleftrightarrow>
     session_ok gid s \<and> valid_session s \<and>
     (\<exists>n > 0. Participants s = replicate n pid) \<and>
     OwnerPID (MatchmakeSession s) = pid \<and> HostPID (MatchmakeSession s) = pid"

text \<open>Creating a gathering: the next ID is taken, whether or not the creator can join it.\<close>

inductive lobby_create :: "u64 \<Rightarrow> store \<Rightarrow> store \<Rightarrow> bool" for pid :: u64 where
  lc_created: "fresh_lobby pid (nextGatheringID st) s \<Longrightarrow>
    lobby_create pid st
      (st\<lparr>sessions := (sessions st)(nextGatheringID st \<mapsto> s),
          nextGatheringID := nextGatheringID st + 1\<rparr>)"
| lc_failed:
    "lobby_create pid st
      (st\<lparr>sessions := (sessions st)(nextGatheringID st := None),
          nextGatheringID := nextGatheringID st + 1\<rparr>)"

text \<open>Every other change.\<close>

inductive lobby_step :: "mm_env \<Rightarrow> bool \<Rightarrow> u64 \<Rightarrow> store \<Rightarrow> store \<Rightarrow> bool"
  for E :: mm_env and V :: bool and pid :: u64 where
  ls_join: "sessions st k = Some s \<Longrightarrow> pid \<notin> set (Participants s) \<Longrightarrow> \<not> full_for s v \<Longrightarrow>
    CanJoin E pid s = None \<Longrightarrow>
    lobby_step E V pid st
      (st\<lparr>sessions := (sessions st)
            (k \<mapsto> with_players s (Participants s @ replicate (unat (players v)) pid))\<rparr>)"
| ls_leave: "sessions st k = Some s \<Longrightarrow>
    lobby_step E V pid st (st\<lparr>sessions := (sessions st)(k := after_leave pid s)\<rparr>)"
| ls_drop:
    "lobby_step E V pid st
      (st\<lparr>sessions := (\<lambda>k. Option.bind (sessions st k) (after_leave pid))\<rparr>)"
| ls_edit: "sessions st k = Some s \<Longrightarrow> OwnerPID (MatchmakeSession s) = pid \<Longrightarrow>
    same_identity s s' \<Longrightarrow> (V \<and> valid_session s \<longrightarrow> valid_session s') \<Longrightarrow>
    lobby_step E V pid st (st\<lparr>sessions := (sessions st)(k \<mapsto> s')\<rparr>)"
| ls_host: "sessions st k = Some s \<Longrightarrow> pid \<in> set (Participants s) \<Longrightarrow>
    lobby_step E V pid st (st\<lparr>sessions := (sessions st)(k \<mapsto> set_host (s\<lparr>SessionURL := u\<rparr>) pid)\<rparr>)"
| ls_take_over: "sessions st k = Some s \<Longrightarrow> pid \<in> set (Participants s) \<Longrightarrow>
    HasFlag (proto E) (Flags (MatchmakeSession s)) ChangeOwnerByOtherHost \<Longrightarrow>
    lobby_step E V pid st (st\<lparr>sessions := (sessions st)
      (k \<mapsto> set_mm s ((MatchmakeSession s)\<lparr>HostPID := pid, OwnerPID := pid\<rparr>))\<rparr>)"
| ls_hand_over: "sessions st k = Some s \<Longrightarrow> OwnerPID (MatchmakeSession s) = pid \<Longrightarrow>
    q \<in> set (Participants s) \<Longrightarrow>
    lobby_step E V pid st (st\<lparr>sessions := (sessions st)
      (k \<mapsto> set_mm s ((MatchmakeSession s)\<lparr>OwnerPID := q\<rparr>))\<rparr>)"
| ls_destroy: "sessions st k = Some s \<Longrightarrow> OwnerPID (MatchmakeSession s) = pid \<Longrightarrow>
    lobby_step E V pid st (st\<lparr>sessions := (sessions st)(k := None)\<rparr>)"
| ls_publish: "PIDSource ev = pid \<Longrightarrow> lobby_step E V pid st (SetNotificationData st pid ev)"

inductive_cases lobby_createE: "lobby_create pid st st'"
inductive_cases lobby_stepE: "lobby_step E V pid st st'"

abbreviation lobby_steps :: "mm_env \<Rightarrow> bool \<Rightarrow> u64 \<Rightarrow> store \<Rightarrow> store \<Rightarrow> bool" where
  "lobby_steps E V pid \<equiv> (lobby_step E V pid)\<^sup>*\<^sup>*"

text \<open>What one request does: some changes, and at most one creation, at the end.\<close>

definition lobby_trace :: "mm_env \<Rightarrow> bool \<Rightarrow> u64 \<Rightarrow> store \<Rightarrow> store \<Rightarrow> bool" where
  "lobby_trace E V pid st st' \<longleftrightarrow>
     (\<exists>mid. lobby_steps E V pid st mid \<and> (st' = mid \<or> lobby_create pid mid st'))"

lemma steps_trace: "lobby_steps E V pid st st' \<Longrightarrow> lobby_trace E V pid st st'"
  by (auto simp: lobby_trace_def)

lemma lobby_trace_refl [simp]: "lobby_trace E V pid st st"
  by (simp add: steps_trace)

subsection \<open>The invariants\<close>

lemma sessions_SetNotificationData [simp]: "sessions (SetNotificationData st p ev) = sessions st"
  by (simp add: SetNotificationData_def Let_def)

lemma nextGatheringID_SetNotificationData [simp]:
  "nextGatheringID (SetNotificationData st p ev) = nextGatheringID st"
  by (simp add: SetNotificationData_def Let_def)

lemma set_mm_sel [simp]:
  "MatchmakeSession (set_mm s m) = m" "Participants (set_mm s m) = Participants s"
  "SessionURL (set_mm s m) = SessionURL s"
  by (simp_all add: set_mm_def)

lemma set_host_sel [simp]:
  "Participants (set_host s p) = Participants s"
  "MatchmakeSession (set_host s p) = (MatchmakeSession s)\<lparr>HostPID := p\<rparr>"
  by (simp_all add: set_host_def)

definition session_store :: "(u32 \<rightharpoonup> session) \<Rightarrow> (u32 \<Rightarrow> session \<Rightarrow> bool) \<Rightarrow> bool" where
  "session_store m P \<longleftrightarrow> finite (dom m) \<and> (\<forall>k s. m k = Some s \<longrightarrow> P k s)"

lemma session_store_upd:
  "session_store m P \<Longrightarrow> (\<And>s. v = Some s \<Longrightarrow> P k s) \<Longrightarrow> session_store (m(k := v)) P"
  by (cases v) (auto simp: session_store_def)

lemma session_store_bind:
  assumes "session_store m P" and "\<And>k s s'. P k s \<Longrightarrow> f s = Some s' \<Longrightarrow> P k s'"
  shows "session_store (\<lambda>k. Option.bind (m k) f) P"
proof -
  have "dom (\<lambda>k. Option.bind (m k) f) \<subseteq> dom m" by (auto simp: dom_def bind_eq_Some_conv)
  moreover have "P k s'" if "Option.bind (m k) f = Some s'" for k s'
  proof -
    from that obtain s where "m k = Some s" and f: "f s = Some s'" by (auto simp: bind_eq_Some_conv)
    then have "P k s" using assms(1) by (simp add: session_store_def)
    then show ?thesis using f by (rule assms(2))
  qed
  ultimately show ?thesis
    using assms(1) unfolding session_store_def by (blast intro: finite_subset)
qed

lemma store_inv_iff: "store_inv st \<longleftrightarrow> session_store (sessions st) session_ok"
  by (simp add: store_inv_def session_store_def)

text \<open>A property of single sessions that holds of fresh ones and survives each kind of change holds of
  the whole store, whatever a player does.\<close>

lemma lobby_step_session_store:
  assumes step: "lobby_step E V pid st st'" and P: "session_store (sessions st) P"
    and join: "\<And>k s n. P k s \<Longrightarrow> P k (with_players s (Participants s @ replicate n pid))"
    and leave: "\<And>k s s'. P k s \<Longrightarrow> after_leave pid s = Some s' \<Longrightarrow> P k s'"
    and edit: "\<And>k s s'. P k s \<Longrightarrow> OwnerPID (MatchmakeSession s) = pid \<Longrightarrow> same_identity s s' \<Longrightarrow>
      (V \<and> valid_session s \<longrightarrow> valid_session s') \<Longrightarrow> P k s'"
    and host: "\<And>k s u. P k s \<Longrightarrow> pid \<in> set (Participants s) \<Longrightarrow>
      P k (set_host (s\<lparr>SessionURL := u\<rparr>) pid)"
    and take: "\<And>k s. P k s \<Longrightarrow> pid \<in> set (Participants s) \<Longrightarrow>
      P k (set_mm s ((MatchmakeSession s)\<lparr>HostPID := pid, OwnerPID := pid\<rparr>))"
    and hand: "\<And>k s q. P k s \<Longrightarrow> q \<in> set (Participants s) \<Longrightarrow>
      P k (set_mm s ((MatchmakeSession s)\<lparr>OwnerPID := q\<rparr>))"
  shows "session_store (sessions st') P"
proof -
  have at: "P k s" if "sessions st k = Some s" for k s
    using P that by (simp add: session_store_def)
  have upd: "session_store ((sessions st)(k \<mapsto> s)) P" if "P k s" for k s
    using session_store_upd [OF P, of "Some s" k] that by simp
  have del: "session_store ((sessions st)(k := None)) P" for k
    using session_store_upd [OF P, of None k] by simp
  from step show ?thesis
  proof (cases rule: lobby_step.cases)
    case (ls_join k s v)
    then show ?thesis by (simp add: upd join at)
  next
    case (ls_leave k s)
    then have "session_store ((sessions st)(k := after_leave pid s)) P"
      using leave [OF at] by (intro session_store_upd [OF P])
    with ls_leave show ?thesis by simp
  next
    case ls_drop
    have "session_store (\<lambda>k. Option.bind (sessions st k) (after_leave pid)) P"
      by (rule session_store_bind [OF P]) (rule leave)
    with ls_drop show ?thesis by simp
  next
    case (ls_edit k s s')
    then have "P k s'" using edit [OF at [OF ls_edit(2)]] by blast
    with ls_edit show ?thesis by (simp add: upd)
  next
    case (ls_host k s u)
    then show ?thesis by (simp add: upd host at)
  next
    case (ls_take_over k s)
    then show ?thesis by (simp add: upd take at)
  next
    case (ls_hand_over k s q)
    then show ?thesis by (simp add: upd hand at)
  next
    case (ls_destroy k s)
    then show ?thesis by (simp add: del)
  next
    case (ls_publish ev)
    with P show ?thesis by simp
  qed
qed

lemma lobby_create_session_store:
  assumes "lobby_create pid st st'" and P: "session_store (sessions st) P"
    and "\<And>s. fresh_lobby pid (nextGatheringID st) s \<Longrightarrow> P (nextGatheringID st) s"
  shows "session_store (sessions st') P"
  using assms(1)
proof (cases rule: lobby_create.cases)
  case (lc_created s)
  then show ?thesis
    using session_store_upd [OF P, of "Some s" "nextGatheringID st"] assms(3) by simp
next
  case lc_failed
  then show ?thesis using session_store_upd [OF P, of None "nextGatheringID st"] by simp
qed

text \<open>A property that every change and every creation keeps is kept by a request.\<close>

lemma lobby_trace_induct:
  assumes "lobby_trace E V pid st st'" and "P st"
    and "\<And>a b. lobby_step E V pid a b \<Longrightarrow> P a \<Longrightarrow> P b"
    and "\<And>a b. lobby_create pid a b \<Longrightarrow> P a \<Longrightarrow> P b"
  shows "P st'"
proof -
  obtain mid where mid: "lobby_steps E V pid st mid" "st' = mid \<or> lobby_create pid mid st'"
    using assms(1) by (auto simp: lobby_trace_def)
  from mid(1) have "P mid" by (induction rule: rtranclp_induct) (use assms(2,3) in blast)+
  with mid(2) assms(4) show ?thesis by blast
qed

lemma lobby_step_inv:
  assumes "lobby_step E V pid st st'" and "store_inv st"
  shows "store_inv st'"
  unfolding store_inv_iff
proof (rule lobby_step_session_store [OF assms(1)])
  show "session_store (sessions st) session_ok" using assms(2) by (simp add: store_inv_iff)
  show "\<And>k s s'. session_ok k s \<Longrightarrow> after_leave pid s = Some s' \<Longrightarrow> session_ok k s'"
    by (rule after_leave_ok)
qed (auto simp: session_ok_def same_identity_def)

lemma lobby_create_inv: "lobby_create pid st st' \<Longrightarrow> store_inv st \<Longrightarrow> store_inv st'"
  unfolding store_inv_iff by (erule lobby_create_session_store) (auto simp: fresh_lobby_def)

lemma lobby_trace_inv: "lobby_trace E V pid st st' \<Longrightarrow> store_inv st \<Longrightarrow> store_inv st'"
  by (erule lobby_trace_induct) (auto intro: lobby_step_inv lobby_create_inv)

definition all_valid :: "store \<Rightarrow> bool" where
  "all_valid st \<longleftrightarrow> session_store (sessions st) (\<lambda>k s. valid_session s)"

lemma lobby_step_valid:
  assumes "lobby_step E True pid st st'" and "all_valid st"
  shows "all_valid st'"
  unfolding all_valid_def
proof (rule lobby_step_session_store [OF assms(1)])
  show "session_store (sessions st) (\<lambda>k. valid_session)" using assms(2) by (simp add: all_valid_def)
  show "\<And>k s s'. valid_session s \<Longrightarrow> after_leave pid s = Some s' \<Longrightarrow> valid_session s'"
    by (auto simp: valid_session_def after_leave_def Let_def CheckValidMatchmakeSession_iff
        with_players_def split: if_splits)
qed (auto simp: valid_session_def CheckValidMatchmakeSession_iff with_players_def)

lemma lobby_create_valid: "lobby_create pid st st' \<Longrightarrow> all_valid st \<Longrightarrow> all_valid st'"
  unfolding all_valid_def by (erule lobby_create_session_store) (auto simp: fresh_lobby_def)

lemma lobby_trace_valid: "lobby_trace E True pid st st' \<Longrightarrow> all_valid st \<Longrightarrow> all_valid st'"
  by (erule lobby_trace_induct) (auto intro: lobby_step_valid lobby_create_valid)

text \<open>Published notification data is filed under its publisher and its type.\<close>

definition notes_ok :: "store \<Rightarrow> bool" where
  "notes_ok st \<longleftrightarrow>
     (\<forall>p m. notificationData st p = Some m \<longrightarrow>
        finite (dom m) \<and> (\<forall>t ev. m t = Some ev \<longrightarrow> Type ev = t \<and> PIDSource ev = p))"

lemma notes_ok_publish:
  "notes_ok st \<Longrightarrow> PIDSource ev = p \<Longrightarrow> notes_ok (SetNotificationData st p ev)"
  by (auto simp: notes_ok_def SetNotificationData_def Let_def split: option.split)

lemma lobby_step_notes: "lobby_step E V pid st st' \<Longrightarrow> notes_ok st \<Longrightarrow> notes_ok st'"
  by (erule lobby_stepE) (simp_all add: notes_ok_publish, simp_all add: notes_ok_def)

lemma lobby_create_notes: "lobby_create pid st st' \<Longrightarrow> notes_ok st \<Longrightarrow> notes_ok st'"
  by (erule lobby_createE) (simp_all add: notes_ok_def)

lemma lobby_trace_notes: "lobby_trace E V pid st st' \<Longrightarrow> notes_ok st \<Longrightarrow> notes_ok st'"
  by (erule lobby_trace_induct) (auto intro: lobby_step_notes lobby_create_notes)

subsection \<open>Gathering identifiers\<close>

text \<open>No identifier in use is zero or will be handed out next.\<close>

definition ids_ok :: "store \<Rightarrow> bool" where
  "ids_ok st \<longleftrightarrow> nextGatheringID st \<noteq> 0 \<and>
     (\<forall>k s. sessions st k = Some s \<longrightarrow> k \<noteq> 0 \<and> k < nextGatheringID st)"

lemma lobby_step_dom:
  "lobby_step E V pid st st' \<Longrightarrow>
   dom (sessions st') \<subseteq> dom (sessions st) \<and> nextGatheringID st' = nextGatheringID st"
  by (erule lobby_stepE) (auto simp: after_leave_def bind_eq_Some_conv split: if_splits)

lemma lobby_steps_dom:
  "lobby_steps E V pid st st' \<Longrightarrow>
   dom (sessions st') \<subseteq> dom (sessions st) \<and> nextGatheringID st' = nextGatheringID st"
proof (induction rule: rtranclp_induct)
  case (step a b)
  note ab = lobby_step_dom [OF step(2)]
  show ?case
    using subset_trans [OF conjunct1 [OF ab] conjunct1 [OF step.IH]] ab step.IH by simp
qed simp

lemma lobby_trace_next:
  assumes "lobby_trace E V pid st st'"
  shows "nextGatheringID st' \<in> {nextGatheringID st, nextGatheringID st + 1}"
  using assms lobby_steps_dom by (fastforce simp: lobby_trace_def elim: lobby_createE)

lemma lobby_trace_ids:
  assumes "lobby_trace E V pid st st'" and "ids_ok st" and "nextGatheringID st' \<noteq> 0"
  shows "ids_ok st'"
proof -
  obtain mid where mid: "lobby_steps E V pid st mid" "st' = mid \<or> lobby_create pid mid st'"
    using assms(1) by (auto simp: lobby_trace_def)
  have okay: "ids_ok mid"
    using lobby_steps_dom [OF mid(1)] assms(2) by (fastforce simp: ids_ok_def dom_def)
  from mid(2) show ?thesis
  proof
    assume "lobby_create pid mid st'"
    then show ?thesis
      using okay assms(3) unfolding ids_ok_def
      by (cases rule: lobby_create.cases)
        (auto simp: word_less_nat_alt u32_inc split: if_splits)
  qed (use okay in simp)
qed

subsection \<open>Other players' memberships\<close>

text \<open>Whatever a player does, a gathering that is still there has the same other members.\<close>

definition others_kept :: "u64 \<Rightarrow> store \<Rightarrow> store \<Rightarrow> bool" where
  "others_kept pid st st' \<longleftrightarrow>
     (\<forall>k s s' q. sessions st k = Some s \<longrightarrow> sessions st' k = Some s' \<longrightarrow> q \<noteq> pid \<longrightarrow>
        count_list (Participants s') q = count_list (Participants s) q)"

lemma count_list_filter_neq: "q \<noteq> p \<Longrightarrow> count_list (filter (\<lambda>x. x \<noteq> p) xs) q = count_list xs q"
  by (induction xs) auto

lemma count_list_replicate_neq: "q \<noteq> p \<Longrightarrow> count_list (replicate n p) q = 0"
  by (induction n) auto

lemma after_leave_others:
  "after_leave p s = Some s' \<Longrightarrow> q \<noteq> p \<Longrightarrow>
   count_list (Participants s') q = count_list (Participants s) q"
  by (auto simp: after_leave_def Let_def count_list_filter_neq split: if_splits)

lemma lobby_step_others: "lobby_step E V pid st st' \<Longrightarrow> others_kept pid st st'"
  unfolding others_kept_def
  by (erule lobby_stepE)
    (auto simp: count_list_append count_list_replicate_neq same_identity_def bind_eq_Some_conv
      after_leave_others split: if_splits)

lemma lobby_steps_others:
  "lobby_steps E V pid st st' \<Longrightarrow> others_kept pid st st'"
proof (induction rule: rtranclp_induct)
  case base
  then show ?case by (simp add: others_kept_def)
next
  case (step a b)
  show ?case
    unfolding others_kept_def
  proof (intro allI impI)
    fix k s s' q
    assume *: "sessions st k = Some s" "sessions b k = Some s'" "q \<noteq> pid"
    then obtain r where "sessions a k = Some r" using lobby_step_dom [OF step(2)] by blast
    then show "count_list (Participants s') q = count_list (Participants s) q"
      using step(3) lobby_step_others [OF step(2)] * by (simp add: others_kept_def)
  qed
qed

lemma lobby_trace_others:
  assumes "lobby_trace E V pid st st'" and "sessions st (nextGatheringID st) = None"
  shows "others_kept pid st st'"
proof -
  obtain mid where mid: "lobby_steps E V pid st mid" "st' = mid \<or> lobby_create pid mid st'"
    using assms(1) by (auto simp: lobby_trace_def)
  have "nextGatheringID mid = nextGatheringID st" using lobby_steps_dom [OF mid(1)] by simp
  then show ?thesis
    using mid(2) lobby_steps_others [OF mid(1)] assms(2)
    by (auto simp: others_kept_def elim!: lobby_createE split: if_splits)
qed

end
