(* ===== verification/MMDispatch.thy ===== *)
theory MMDispatch
  imports MMLobby
begin

text \<open>
  The dispatcher: the requests of the three protocols as a datatype, the function
  that runs the handler registered for each (\<^verbatim>\<open>Register\<close> of \<^verbatim>\<open>matchmaking/protocol.go\<close>
  and the three \<^verbatim>\<open>register...\<close> functions), and the refinement of the handlers by the steps of
  MMLobby: a request is a sequence of permitted changes and at most one creation.
\<close>

subsection \<open>The handlers refine the abstract steps\<close>

lemma put_session_eq:
  "sessions st k = Some s \<Longrightarrow> put_session k s' st = st\<lparr>sessions := (sessions st)(k \<mapsto> s')\<rparr>"
  by (simp add: put_session_def)

lemma GetLocked_Inr: "GetLocked st gid = Inr s \<longleftrightarrow> sessions st gid = Some s"
  by (simp add: GetLocked_def split: option.splits)

lemma ownedSession_Inr:
  "ownedSession st pid gid = Inr s \<longleftrightarrow>
     sessions st gid = Some s \<and> OwnerPID (MatchmakeSession s) = pid"
  by (auto simp: ownedSession_def GetLocked_def split: option.splits)

lemma participantSession_Inr:
  "participantSession st pid gid = Inr s \<longleftrightarrow>
     sessions st gid = Some s \<and> pid \<in> set (Participants s)"
  by (auto simp: participantSession_def GetLocked_def split: option.splits)

lemma step_steps: "lobby_step E V pid st st' \<Longrightarrow> lobby_steps E V pid st st'"
  by simp

lemma CreateLocked_eq:
  "CreateLocked E st pid m = (st2, gid, s) \<longleftrightarrow>
     gid = nextGatheringID st \<and>
     s = \<lparr>MatchmakeSession = m\<lparr>ID := gid, OwnerPID := pid, HostPID := pid, StartedTime := now E,
            SessionKey := session_key E, UserPasswordEnabled := 0 < length (UserPassword m),
            SystemPasswordEnabled := False\<rparr>, Participants = [], RegisteredTime = now E,
          SessionURL = []\<rparr> \<and>
     st2 = st\<lparr>sessions := (sessions st)(gid \<mapsto> s), nextGatheringID := gid + 1\<rparr>"
  by (auto simp: CreateLocked_def Let_def)

lemma session_key_length: "env_ok E \<Longrightarrow> length (session_key E) = 32"
  by (auto simp: session_key_def env_ok_def split: option.split)

lemma players_pos: "0 < unat (players v)"
  by (simp add: players_def unat_gt_0)

text \<open>Creating a gathering and joining it, which three handlers do.\<close>

lemma created_lobby:
  assumes "CreateLocked E st pid m = (st2, gid, s)" and "env_ok E" and "CheckValidMatchmakeSession m"
  shows "fresh_lobby pid gid (with_players s (replicate (unat (players v)) pid))"
  using assms players_pos [of v] session_key_length [OF assms(2)]
  by (auto simp: CreateLocked_eq fresh_lobby_def session_ok_def valid_session_def
      CheckValidMatchmakeSession_iff with_players_def CheckValidGathering_def)

lemma create_join_step:
  assumes "CreateLocked E st pid m = (st2, gid, s)" and "JoinLocked E s pid v msg = (Inr (c, s'), ns)"
    and "env_ok E" and "CheckValidMatchmakeSession m"
  shows "lobby_create pid st (put_session gid s' st2)"
proof -
  have s: "Participants s = []" "sessions st2 gid = Some s" "gid = nextGatheringID st"
    "st2 = st\<lparr>sessions := (sessions st)(gid \<mapsto> s), nextGatheringID := gid + 1\<rparr>"
    using assms(1) by (auto simp: CreateLocked_eq)
  have s': "s' = with_players s (replicate (unat (players v)) pid)"
    using assms(2) s(1) by (cases rule: JoinLocked_cases [of pid s E v msg]) auto
  have "fresh_lobby pid (nextGatheringID st) s'"
    using created_lobby [OF assms(1,3,4)] s(3) s' by simp
  moreover have "put_session gid s' st2 =
      st\<lparr>sessions := (sessions st)(nextGatheringID st \<mapsto> s'),
         nextGatheringID := nextGatheringID st + 1\<rparr>"
    using s by (cases st) (simp add: put_session_eq)
  ultimately show ?thesis using lc_created by simp
qed

lemma create_failed_step:
  assumes "CreateLocked E st pid m = (st2, gid, s)"
  shows "lobby_create pid st (delete_session (ID (MatchmakeSession s)) st2)"
proof -
  have "delete_session (ID (MatchmakeSession s)) st2 =
      st\<lparr>sessions := (sessions st)(nextGatheringID st := None),
         nextGatheringID := nextGatheringID st + 1\<rparr>"
    using assms by (auto simp: CreateLocked_eq delete_session_def)
  then show ?thesis using lc_failed by simp
qed

lemma drop_step:
  assumes "env_ok E" and "store_inv st" and "RemoveConnectionLocked E n st pid sub = (st', ns)"
  shows "lobby_step E V pid st st'"
  using assms ls_drop by (auto simp: RemoveConnectionLocked_eq)

lemma join_step:
  assumes "sessions st k = Some s" and "CanJoin E pid s = None"
    and "JoinLocked E s pid v msg = (Inr (c, s'), ns)"
  shows "lobby_step E V pid st (put_session k s' st)"
  using assms by (cases rule: JoinLocked_cases [of pid s E v msg]) (auto simp: put_session_eq intro: ls_join)

lemma register_trace:
  assumes "env_ok E" and "store_inv st" and "CheckValidMatchmakeSession m"
    and drop: "RemoveConnectionLocked E 0 st pid sub = (st1, ns1)"
    and create: "CreateLocked E st1 pid m = (st2, gid, s)"
  shows "JoinLocked E s pid v msg = (Inl e, ns2) \<Longrightarrow>
      lobby_trace E V pid st (delete_session (ID (MatchmakeSession s)) st2)"
    and "JoinLocked E s pid v msg = (Inr (c, s'), ns2) \<Longrightarrow>
      lobby_trace E V pid st (put_session gid s' st2)"
  using drop_step [OF assms(1,2) drop] create_failed_step [OF create]
    create_join_step [OF create _ assms(1,3)]
  unfolding lobby_trace_def by blast+

lemma createMatchmakeSession_trace:
  assumes "env_ok E" and "store_inv st"
    and "createMatchmakeSession E st pid callID err h msg v = (st', ns, r)"
  shows "lobby_trace E V pid st st'"
  using assms(3) unfolding createMatchmakeSession_def reject_def Let_def
  by (auto split: if_splits sum.splits prod.splits intro: register_trace [OF assms(1,2)])

lemma registerGathering_trace:
  assumes "env_ok E" and "store_inv st"
    and "registerGathering E st pid callID err h = (st', ns, r)"
  shows "lobby_trace E V pid st st'"
  using assms(3) unfolding registerGathering_def reject_def Let_def
  by (auto split: if_splits sum.splits prod.splits intro: register_trace [OF assms(1,2)])

lemma join_session_steps:
  assumes "join_session E st pid callID err gid msg v meth = (st', ns, r)"
  shows "lobby_steps E V pid st st'"
  using assms unfolding join_session_def reject_def Let_def
  by (auto split: if_splits sum.splits prod.splits option.splits
      simp: GetLocked_Inr intro: join_step [THEN step_steps])

lemma participate_steps:
  assumes "participate E st pid callID err gid msg = (st', ns, r)"
  shows "lobby_steps E V pid st st'"
  using assms unfolding participate_def reject_def Let_def
  by (auto split: if_splits sum.splits prod.splits option.splits
      simp: GetLocked_Inr intro: join_step [THEN step_steps])

lemma leave_gathering_steps:
  assumes "store_inv st"
    and "leave_gathering E st pid callID err gid msg sub pr meth = (st', ns, r)"
  shows "lobby_steps E V pid st st'"
  using assms(2) store_invD [OF assms(1)] unfolding leave_gathering_def reject_def
  by (auto split: if_splits sum.splits simp: GetLocked_Inr LeaveLocked_eq session_ok_def
      intro: ls_leave [THEN step_steps])

lemma mutateOwned_steps:
  assumes "mutateOwned st pid callID err gid meth mutate = (st', ns, r)" and "store_inv st"
    and "\<And>s s'. session_ok gid s \<Longrightarrow> mutate s = Inr s' \<Longrightarrow>
      same_identity s s' \<and> (V \<and> valid_session s \<longrightarrow> valid_session s')"
  shows "lobby_steps E V pid st st'"
proof (cases "st' = st")
  case False
  then obtain s s' where "sessions st gid = Some s" "OwnerPID (MatchmakeSession s) = pid"
    "mutate s = Inr s'" "st' = put_session gid s' st"
    using assms(1) by (auto simp: mutateOwned_def reject_def ownedSession_Inr split: if_splits sum.splits)
  with assms(3) [OF store_invD [OF assms(2)]] show ?thesis
    by (auto simp: put_session_eq intro: ls_edit [THEN step_steps])
qed simp

lemma auto_candidate_Some:
  assumes "env_ok E" and "store_inv st"
    and "auto_candidate E st pid cs m = Some (k, s)"
  shows "sessions st k = Some s" and "CanJoin E pid s = None"
proof -
  have "sessions st k = Some s \<and> CanJoin E pid s = None"
  proof (cases "length cs = 0")
    case True
    with assms(3) have "FindSession E 1 st pid m (AllowPublicMatchmaking E) = Some (k, s) \<and>
        CanJoin E pid s = None"
      by (auto simp: auto_candidate_def split: option.splits if_splits)
    then show ?thesis using FindSession_Some(1) [OF assms(1,2)] by blast
  next
    case False
    let ?opts = "\<lparr>AutoMatchmake = True, ExcludeOwnerPID = pid,
      AllowPublic = AllowPublicMatchmaking E\<rparr>"
    from False assms(3) have found: "List.find (\<lambda>(k, s). CanJoin E pid s = None)
        (Search E 1 st pid cs \<lparr>Offset = 0, Length = 1\<rparr> (Some m) ?opts) = Some (k, s)"
      by (simp add: auto_candidate_def)
    from find_Some_set [OF this] Search_sound [OF assms(1,2), of "(k, s)"]
    show ?thesis unfolding good_result_def by force
  qed
  then show "sessions st k = Some s" "CanJoin E pid s = None" by auto
qed

lemma autoMatchmake_trace:
  assumes "env_ok E" and "store_inv st"
    and "autoMatchmake E st pid callID cs m msg meth = (st', ns, r)"
  shows "lobby_trace E V pid st st'"
proof (cases "CheckValidMatchmakeSession m")
  case False
  with assms(3) show ?thesis by (simp add: autoMatchmake_def reject_def steps_trace)
next
  case valid: True
  obtain st1 ns1 where drop: "RemoveConnectionLocked E 0 st pid Disconnect = (st1, ns1)"
    by (cases "RemoveConnectionLocked E 0 st pid Disconnect")
  have step1: "lobby_step E V pid st st1" using drop_step [OF assms(1,2) drop] .
  have inv1: "store_inv st1" using lobby_step_inv [OF step1 assms(2)] .
  show ?thesis
  proof (cases "auto_candidate E st1 pid cs m")
    case None
    obtain st2 gid s where create: "CreateLocked E st1 pid m = (st2, gid, s)"
      by (cases "CreateLocked E st1 pid m")
    obtain res ns2 where join: "JoinLocked E s pid 1 msg = (res, ns2)"
      by (cases "JoinLocked E s pid 1 msg")
    show ?thesis
      using assms(3) valid drop None create join register_trace [OF assms(1,2) valid drop create, of 1 msg]
      by (auto simp: autoMatchmake_def split: sum.splits)
  next
    case (Some ks)
    obtain k s where ks: "ks = (k, s)" by (cases ks)
    have cand: "sessions st1 k = Some s" "CanJoin E pid s = None"
      using auto_candidate_Some [OF assms(1) inv1] Some ks by auto
    obtain res ns2 where join: "JoinLocked E s pid 1 msg = (res, ns2)"
      by (cases "JoinLocked E s pid 1 msg")
    consider "st' = st1" | c s' where "res = Inr (c, s')" "st' = put_session k s' st1"
      using assms(3) valid drop Some ks join
      by (auto simp: autoMatchmake_def split: sum.splits)
    then show ?thesis
    proof cases
      case 1
      with steps_trace [OF step_steps [OF step1]] show ?thesis by simp
    next
      case 2
      with join_step [OF cand, of 1 msg c s' ns2 V] join step1
      show ?thesis by (auto intro!: steps_trace)
    qed
  qed
qed

text \<open>The owner's edits keep the identity of the session; those of this protocol keep it valid too.\<close>

lemma same_identity_set_mm:
  assumes "session_ok gid s"
    and "ID m = ID (MatchmakeSession s)" "OwnerPID m = OwnerPID (MatchmakeSession s)"
    "HostPID m = HostPID (MatchmakeSession s)" "SessionKey m = SessionKey (MatchmakeSession s)"
    "StartedTime m = StartedTime (MatchmakeSession s)"
    "ParticipationCount m = ParticipationCount (MatchmakeSession s)"
  shows "same_identity s (set_mm s m)"
  using assms by (simp add: same_identity_def session_ok_def)

lemma valid_set_mm: "valid_session (set_mm s m) = CheckValidMatchmakeSession m"
  by (simp add: valid_session_def)

lemmas owner_edit_simps = valid_set_mm valid_session_def CheckValidMatchmakeSession_iff

lemma mm_edit_steps:
  assumes "mutateOwned st pid callID err gid meth mutate = (st', ns, r)" and "store_inv st"
    and "\<And>s s'. mutate s = Inr s' \<Longrightarrow> \<exists>m. s' = set_mm s m \<and>
      ID m = ID (MatchmakeSession s) \<and> OwnerPID m = OwnerPID (MatchmakeSession s) \<and>
      HostPID m = HostPID (MatchmakeSession s) \<and> SessionKey m = SessionKey (MatchmakeSession s) \<and>
      StartedTime m = StartedTime (MatchmakeSession s) \<and>
      ParticipationCount m = ParticipationCount (MatchmakeSession s) \<and>
      (CheckValidMatchmakeSession (MatchmakeSession s) \<longrightarrow> CheckValidMatchmakeSession m)"
  shows "lobby_steps E V pid st st'"
proof (rule mutateOwned_steps [OF assms(1,2)])
  fix s s'
  assume okay: "session_ok gid s" and "mutate s = Inr s'"
  from assms(3) [OF this(2)] obtain m where m: "s' = set_mm s m"
    "ID m = ID (MatchmakeSession s)" "OwnerPID m = OwnerPID (MatchmakeSession s)"
    "HostPID m = HostPID (MatchmakeSession s)" "SessionKey m = SessionKey (MatchmakeSession s)"
    "StartedTime m = StartedTime (MatchmakeSession s)"
    "ParticipationCount m = ParticipationCount (MatchmakeSession s)"
    "CheckValidMatchmakeSession (MatchmakeSession s) \<longrightarrow> CheckValidMatchmakeSession m" by blast
  then show "same_identity s s' \<and> (V \<and> valid_session s \<longrightarrow> valid_session s')"
    using same_identity_set_mm [OF okay, of m] by (simp add: valid_session_def)
qed

lemma owner_edits_steps:
  assumes "store_inv st"
  shows "closeParticipation st pid callID err gid = (st', ns, r) \<Longrightarrow> lobby_steps E V pid st st'"
    and "openParticipation st pid callID err gid = (st', ns, r) \<Longrightarrow> lobby_steps E V pid st st'"
    and "updateApplicationBuffer st pid callID err gid b = (st', ns, r) \<Longrightarrow> lobby_steps E V pid st st'"
    and "updateProgressScore st pid callID err gid p = (st', ns, r) \<Longrightarrow> lobby_steps E V pid st st'"
    and "updateMatchmakeSessionAttribute st pid callID err gid as = (st', ns, r) \<Longrightarrow>
      lobby_steps E V pid st st'"
    and "modifyCurrentGameAttribute st pid callID err gid i w = (st', ns, r) \<Longrightarrow>
      lobby_steps E V pid st st'"
  unfolding closeParticipation_def openParticipation_def updateApplicationBuffer_def
    updateProgressScore_def updateMatchmakeSessionAttribute_def modifyCurrentGameAttribute_def
    reject_def
  by (erule mm_edit_steps [OF _ assms], force simp: CheckValidMatchmakeSession_iff)
    (erule mm_edit_steps [OF _ assms], force simp: CheckValidMatchmakeSession_iff,
     simp split: if_splits, erule mm_edit_steps [OF _ assms], force simp: CheckValidMatchmakeSession_iff,
     simp split: if_splits, erule mm_edit_steps [OF _ assms], force simp: CheckValidMatchmakeSession_iff,
     (erule mm_edit_steps [OF _ assms], force simp: CheckValidMatchmakeSession_iff split: if_splits)+)

lemma with_identity_same:
  "session_ok gid s \<Longrightarrow> same_identity s (set_mm s (with_identity s m))"
  by (simp add: same_identity_def session_ok_def with_identity_def Let_def Participation_Count_def)

lemma updateMatchmakeSession_steps:
  assumes "store_inv st" and "updateMatchmakeSession st pid callID err h = (st', ns, r)"
  shows "lobby_steps E V pid st st'"
proof (cases "st' = st")
  case False
  then obtain m s where s: "sessions st (ID m) = Some s" "OwnerPID (MatchmakeSession s) = pid"
    "CheckValidMatchmakeSession m" "st' = put_session (ID m) (set_mm s (with_identity s m)) st"
    using assms(2)
    by (auto simp: updateMatchmakeSession_def reject_def ownedSession_Inr split: if_splits sum.splits)
  have "valid_session s \<longrightarrow> valid_session (set_mm s (with_identity s m))"
    using s(3) by (auto simp: valid_session_def CheckValidMatchmakeSession_iff with_identity_def Let_def)
  with s with_identity_same [OF store_invD [OF assms(1) s(1)]] show ?thesis
    by (auto simp: put_session_eq intro: ls_edit [THEN step_steps])
qed simp

text \<open>\<^verbatim>\<open>updateGathering\<close> does not check what it stores, so it refines only the unchecked edit.\<close>

lemma updateGathering_steps:
  assumes "store_inv st" and "updateGathering st pid callID err h = (st', ns, r)"
  shows "lobby_steps E False pid st st'"
proof (cases "st' = st")
  case False
  then obtain m s where s: "sessions st (ID m) = Some s" "OwnerPID (MatchmakeSession s) = pid"
    "st' = put_session (ID m) (set_mm s (with_identity s m)) st"
    using assms(2)
    by (auto simp: updateGathering_def reject_def ownedSession_Inr split: if_splits sum.splits)
  with with_identity_same [OF store_invD [OF assms(1) s(1)]] show ?thesis
    by (auto simp: put_session_eq intro: ls_edit [THEN step_steps])
qed simp

lemma destroyGathering_steps:
  "destroyGathering E st pid gid = (st', ns, r) \<Longrightarrow> lobby_steps E V pid st st'"
  by (auto simp: destroyGathering_def GetLocked_Inr delete_session_def
      split: sum.splits if_splits intro: ls_destroy [THEN step_steps])

lemma destroy_each_steps:
  "destroy_each E st pid gids = (st', ns, r) \<Longrightarrow> lobby_steps E V pid st st'"
proof (induction gids arbitrary: st ns)
  case (Cons g gs)
  obtain st1 n1 r1 where d: "destroyGathering E st pid g = (st1, n1, r1)"
    by (cases "destroyGathering E st pid g")
  show ?case
    using Cons.prems d destroyGathering_steps [OF d] Cons.IH
    by (auto split: option.splits prod.splits) (meson rtranclp_trans)
qed simp

lemma host_url_step:
  assumes "sessions st k = Some s" and "pid \<in> set (Participants s)"
  shows "lobby_steps E V pid st
    (st\<lparr>sessions := (sessions st)(k \<mapsto> set_host (s\<lparr>SessionURL := u\<rparr>) pid)\<rparr>)"
  using assms by (auto intro: ls_host [THEN step_steps])

lemma host_step:
  assumes "sessions st k = Some s" and "pid \<in> set (Participants s)"
  shows "lobby_steps E V pid st (st\<lparr>sessions := (sessions st)(k \<mapsto> set_host s pid)\<rparr>)"
  using host_url_step [OF assms, of E V "SessionURL s"] by simp

lemma hosting_steps:
  shows "launchSession st pid callID err gid u = (st', ns, r) \<Longrightarrow> lobby_steps E V pid st st'"
    and "updateSessionURL st pid callID err gid u = (st', ns, r) \<Longrightarrow> lobby_steps E V pid st st'"
    and "updateSessionHostV1 st pid callID err gid = (st', ns, r) \<Longrightarrow> lobby_steps E V pid st st'"
    and "updateSessionHost E st pid callID err gid b = (st', ns, r) \<Longrightarrow> lobby_steps E V pid st st'"
  unfolding launchSession_def updateSessionURL_def updateSessionHostV1_def updateSessionHost_def
    reject_def Let_def
  by (auto simp: participantSession_Inr put_session_eq split: if_splits sum.splits
      intro: host_step host_url_step ls_take_over [THEN step_steps])

lemma owner_steps:
  assumes "store_inv st"
  shows "setState st pid callID err gid v = (st', ns, r) \<Longrightarrow> lobby_steps E V pid st st'"
    and "migrateGatheringOwnershipV1 E st pid callID err gid ps = (st', ns, r) \<Longrightarrow>
      lobby_steps E V pid st st'"
proof -
  show "setState st pid callID err gid v = (st', ns, r) \<Longrightarrow> lobby_steps E V pid st st'"
    unfolding setState_def reject_def using store_invD [OF assms]
    by (auto simp: ownedSession_Inr put_session_eq owner_edit_simps split: if_splits sum.splits
        intro!: ls_edit [THEN step_steps] same_identity_set_mm)
  show "migrateGatheringOwnershipV1 E st pid callID err gid ps = (st', ns, r) \<Longrightarrow>
      lobby_steps E V pid st st'"
    unfolding migrateGatheringOwnershipV1_def reject_def Let_def
    by (auto simp: ownedSession_Inr put_session_eq split: if_splits sum.splits option.splits
        dest!: find_Some_set intro: ls_hand_over [THEN step_steps])
qed

lemma updateNotificationData_steps:
  "updateNotificationData E st pid callID err t a b s = (st', ns, r) \<Longrightarrow> lobby_steps E V pid st st'"
  by (auto simp: updateNotificationData_def reject_def Let_def split: if_splits
      intro!: ls_publish [THEN step_steps])

subsection \<open>Requests and the dispatcher\<close>

datatype extension_request =
    CreateMatchmakeSession gathering_holder string u16
  | JoinMatchmakeSession u32 string
  | JoinMatchmakeSessionEx u32 string bool u16
  | AutoMatchmakePostpone gathering_holder string
  | AutoMatchmakeWithSearchCriteriaPostpone "search_criteria list" gathering_holder string
  | BrowseMatchmakeSession search_criteria result_range
  | BrowseMatchmakeSessionWithHostURLs search_criteria result_range
  | FindMatchmakeSessionByGatheringID "u32 list"
  | FindMatchmakeSessionBySingleGatheringID u32
  | FindMatchmakeSessionByOwner u32 result_range
  | GetPlayingSession "u64 list"
  | GetSimplePlayingSession "u64 list" bool
  | CloseParticipation u32
  | OpenParticipationRequest u32
  | UpdateApplicationBuffer u32 bytes
  | UpdateProgressScore u32 u8
  | UpdateMatchmakeSessionAttribute u32 "u32 list"
  | ModifyCurrentGameAttribute u32 u32 u32
  | UpdateMatchmakeSession gathering_holder
  | UpdateNotificationData u32 u64 u64 string
  | GetFriendNotificationData int
  | GetlstFriendNotificationData "u32 list"

datatype matchmaking_request =
    RegisterGathering gathering_holder
  | UnregisterGathering u32
  | UnregisterGatherings "u32 list"
  | UpdateGathering gathering_holder
  | ParticipateRequest u32 string
  | CancelParticipationRequest u32 string
  | GetParticipants u32
  | GetDetailedParticipants u32
  | GetParticipantsURLs u32
  | FindByID "u32 list"
  | FindBySingleID u32
  | FindByOwner u64 result_range
  | FindByParticipants "u64 list"
  | LaunchSession u32 string
  | UpdateSessionURL u32 string
  | GetSessionURL u32
  | GetSessionURLs u32
  | GetState u32
  | SetState u32 u32
  | UpdateSessionHost u32 bool
  | UpdateSessionHostV1 u32
  | MigrateGatheringOwnershipV1 u32 "u64 list"

datatype matchmaking_ext_request =
    EndParticipationRequest u32 string
  | ExtGetParticipants u32 bool
  | ExtGetDetailedParticipants u32 bool
  | ExtGetParticipantsURLs "u32 list"
  | ExtDeleteFromDeletions "u32 list" u64

datatype mm_request =
    ExtensionRequest extension_request
  | MatchMakingRequest matchmaking_request
  | MatchMakingExtRequest matchmaking_ext_request

fun handle_extension ::
  "mm_env \<Rightarrow> store \<Rightarrow> u64 \<Rightarrow> u32 \<Rightarrow> string option \<Rightarrow> extension_request \<Rightarrow> mm_result" where
  "handle_extension E st p c e (CreateMatchmakeSession h m v) =
     createMatchmakeSession E st p c e h m v"
| "handle_extension E st p c e (JoinMatchmakeSession g m) = joinMatchmakeSession E st p c e g m"
| "handle_extension E st p c e (JoinMatchmakeSessionEx g m b v) =
     joinMatchmakeSessionEx E st p c e g m b v"
| "handle_extension E st p c e (AutoMatchmakePostpone h m) =
     autoMatchmakePostpone E st p c e h m"
| "handle_extension E st p c e (AutoMatchmakeWithSearchCriteriaPostpone cs h m) =
     autoMatchmakeWithSearchCriteriaPostpone E st p c e cs h m"
| "handle_extension E st p c e (BrowseMatchmakeSession s r) =
     browseMatchmakeSession E st p c e s r"
| "handle_extension E st p c e (BrowseMatchmakeSessionWithHostURLs s r) =
     browseMatchmakeSessionWithHostURLs E st p c e s r"
| "handle_extension E st p c e (FindMatchmakeSessionByGatheringID gs) =
     findMatchmakeSessionByGatheringID st c e gs"
| "handle_extension E st p c e (FindMatchmakeSessionBySingleGatheringID g) =
     findMatchmakeSessionBySingleGatheringID st c e g"
| "handle_extension E st p c e (FindMatchmakeSessionByOwner i r) =
     findMatchmakeSessionByOwner E st c e i r"
| "handle_extension E st p c e (GetPlayingSession ps) = getPlayingSession E st c e ps"
| "handle_extension E st p c e (GetSimplePlayingSession ps b) =
     getSimplePlayingSession E st p c e ps b"
| "handle_extension E st p c e (CloseParticipation g) = closeParticipation st p c e g"
| "handle_extension E st p c e (OpenParticipationRequest g) = openParticipation st p c e g"
| "handle_extension E st p c e (UpdateApplicationBuffer g b) =
     updateApplicationBuffer st p c e g b"
| "handle_extension E st p c e (UpdateProgressScore g s) = updateProgressScore st p c e g s"
| "handle_extension E st p c e (UpdateMatchmakeSessionAttribute g as) =
     updateMatchmakeSessionAttribute st p c e g as"
| "handle_extension E st p c e (ModifyCurrentGameAttribute g i v) =
     modifyCurrentGameAttribute st p c e g i v"
| "handle_extension E st p c e (UpdateMatchmakeSession h) = updateMatchmakeSession st p c e h"
| "handle_extension E st p c e (UpdateNotificationData t a b s) =
     updateNotificationData E st p c e t a b s"
| "handle_extension E st p c e (GetFriendNotificationData t) =
     getFriendNotificationData E st p c e t"
| "handle_extension E st p c e (GetlstFriendNotificationData ts) =
     getLstFriendNotificationData E st p c e ts"

fun handle_matchmaking ::
  "mm_env \<Rightarrow> store \<Rightarrow> u64 \<Rightarrow> u32 \<Rightarrow> string option \<Rightarrow> matchmaking_request \<Rightarrow> mm_result" where
  "handle_matchmaking E st p c e (RegisterGathering h) = registerGathering E st p c e h"
| "handle_matchmaking E st p c e (UnregisterGathering g) = unregisterGathering E st p c e g"
| "handle_matchmaking E st p c e (UnregisterGatherings gs) = unregisterGatherings E st p c e gs"
| "handle_matchmaking E st p c e (UpdateGathering h) = updateGathering st p c e h"
| "handle_matchmaking E st p c e (ParticipateRequest g m) = participate E st p c e g m"
| "handle_matchmaking E st p c e (CancelParticipationRequest g m) =
     cancelParticipation E st p c e g m"
| "handle_matchmaking E st p c e (GetParticipants g) = getParticipants st c e g"
| "handle_matchmaking E st p c e (GetDetailedParticipants g) = getDetailedParticipants st c e g"
| "handle_matchmaking E st p c e (GetParticipantsURLs g) = getParticipantsURLs E st p c e g"
| "handle_matchmaking E st p c e (FindByID gs) = findByID st c e gs"
| "handle_matchmaking E st p c e (FindBySingleID g) = findBySingleID st c e g"
| "handle_matchmaking E st p c e (FindByOwner i r) = findByOwner E st c e i r"
| "handle_matchmaking E st p c e (FindByParticipants ps) = findByParticipants E st c e ps"
| "handle_matchmaking E st p c e (LaunchSession g u) = launchSession st p c e g u"
| "handle_matchmaking E st p c e (UpdateSessionURL g u) = updateSessionURL st p c e g u"
| "handle_matchmaking E st p c e (GetSessionURL g) = getSessionURL st c e g"
| "handle_matchmaking E st p c e (GetSessionURLs g) = getSessionURLs E st p c e g"
| "handle_matchmaking E st p c e (GetState g) = getState st c e g"
| "handle_matchmaking E st p c e (SetState g s) = setState st p c e g s"
| "handle_matchmaking E st p c e (UpdateSessionHost g b) = updateSessionHost E st p c e g b"
| "handle_matchmaking E st p c e (UpdateSessionHostV1 g) = updateSessionHostV1 st p c e g"
| "handle_matchmaking E st p c e (MigrateGatheringOwnershipV1 g ps) =
     migrateGatheringOwnershipV1 E st p c e g ps"

fun handle_matchmaking_ext ::
  "mm_env \<Rightarrow> store \<Rightarrow> u64 \<Rightarrow> u32 \<Rightarrow> string option \<Rightarrow> matchmaking_ext_request \<Rightarrow> mm_result" where
  "handle_matchmaking_ext E st p c e (EndParticipationRequest g m) =
     endParticipation E st p c e g m"
| "handle_matchmaking_ext E st p c e (ExtGetParticipants g b) = extGetParticipants st c e g b"
| "handle_matchmaking_ext E st p c e (ExtGetDetailedParticipants g b) =
     extGetDetailedParticipants st c e g b"
| "handle_matchmaking_ext E st p c e (ExtGetParticipantsURLs gs) =
     extGetParticipantsURLs E st p c e gs"
| "handle_matchmaking_ext E st p c e (ExtDeleteFromDeletions gs q) =
     extDeleteFromDeletions st c e gs q"

fun handle :: "mm_env \<Rightarrow> store \<Rightarrow> u64 \<Rightarrow> u32 \<Rightarrow> string option \<Rightarrow> mm_request \<Rightarrow> mm_result" where
  "handle E st p c e (ExtensionRequest rq) = handle_extension E st p c e rq"
| "handle E st p c e (MatchMakingRequest rq) = handle_matchmaking E st p c e rq"
| "handle E st p c e (MatchMakingExtRequest rq) = handle_matchmaking_ext E st p c e rq"

text \<open>Handlers that only read.\<close>

lemma read_session_same: "fst (read_session st c e g pr meth body) = st"
  by (simp add: read_session_def reject_def split: sum.split)

lemmas read_handler_defs =
  browse_def browseMatchmakeSession_def browseMatchmakeSessionWithHostURLs_def
  findMatchmakeSessionByGatheringID_def findMatchmakeSessionBySingleGatheringID_def
  findMatchmakeSessionByOwner_def getPlayingSession_def getSimplePlayingSession_def
  getFriendNotificationData_def getLstFriendNotificationData_def
  getParticipants_def getDetailedParticipants_def getParticipantsURLs_def
  findByID_def findBySingleID_def findByOwner_def findByParticipants_def
  getSessionURL_def getSessionURLs_def getState_def
  extGetParticipants_def extGetDetailedParticipants_def extGetParticipantsURLs_def
  extDeleteFromDeletions_def

fun reads_extension :: "extension_request \<Rightarrow> bool" where
  "reads_extension (BrowseMatchmakeSession s r) = True"
| "reads_extension (BrowseMatchmakeSessionWithHostURLs s r) = True"
| "reads_extension (FindMatchmakeSessionByGatheringID gs) = True"
| "reads_extension (FindMatchmakeSessionBySingleGatheringID g) = True"
| "reads_extension (FindMatchmakeSessionByOwner i r) = True"
| "reads_extension (GetPlayingSession ps) = True"
| "reads_extension (GetSimplePlayingSession ps b) = True"
| "reads_extension (GetFriendNotificationData t) = True"
| "reads_extension (GetlstFriendNotificationData ts) = True"
| "reads_extension _ = False"

fun reads_matchmaking :: "matchmaking_request \<Rightarrow> bool" where
  "reads_matchmaking (GetParticipants g) = True"
| "reads_matchmaking (GetDetailedParticipants g) = True"
| "reads_matchmaking (GetParticipantsURLs g) = True"
| "reads_matchmaking (FindByID gs) = True"
| "reads_matchmaking (FindBySingleID g) = True"
| "reads_matchmaking (FindByOwner i r) = True"
| "reads_matchmaking (FindByParticipants ps) = True"
| "reads_matchmaking (GetSessionURL g) = True"
| "reads_matchmaking (GetSessionURLs g) = True"
| "reads_matchmaking (GetState g) = True"
| "reads_matchmaking _ = False"

fun reads_matchmaking_ext :: "matchmaking_ext_request \<Rightarrow> bool" where
  "reads_matchmaking_ext (EndParticipationRequest g m) = False"
| "reads_matchmaking_ext _ = True"

fun read_only :: "mm_request \<Rightarrow> bool" where
  "read_only (ExtensionRequest rq) = reads_extension rq"
| "read_only (MatchMakingRequest rq) = reads_matchmaking rq"
| "read_only (MatchMakingExtRequest rq) = reads_matchmaking_ext rq"

lemma handle_read_only:
  assumes "read_only rq"
  shows "fst (handle E st p c e rq) = st"
proof -
  note simps = read_handler_defs reject_def read_session_same Let_def
  have "reads_extension q \<Longrightarrow> fst (handle_extension E st p c e q) = st" for q
    by (cases q) (simp_all add: simps split: sum.split)
  moreover have "reads_matchmaking q \<Longrightarrow> fst (handle_matchmaking E st p c e q) = st" for q
    by (cases q) (simp_all add: simps split: sum.split prod.split)
  moreover have "reads_matchmaking_ext q \<Longrightarrow> fst (handle_matchmaking_ext E st p c e q) = st" for q
    by (cases q) (simp_all add: simps)
  ultimately show ?thesis using assms by (cases rq) simp_all
qed

fun checks_updates :: "mm_request \<Rightarrow> bool" where
  "checks_updates (MatchMakingRequest (UpdateGathering h)) = False"
| "checks_updates _ = True"

lemma handle_extension_trace:
  assumes "env_ok E" and "store_inv st" and "handle_extension E st p c e rq = (st', ns, r)"
  shows "lobby_trace E V p st st'"
proof (cases "reads_extension rq")
  case True
  then show ?thesis using handle_read_only [of "ExtensionRequest rq" E st p c e] assms(3) by simp
next
  case False
  note traces = createMatchmakeSession_trace [OF assms(1,2)] autoMatchmake_trace [OF assms(1,2)]
    join_session_steps [THEN steps_trace] owner_edits_steps [OF assms(2), THEN steps_trace]
    updateMatchmakeSession_steps [OF assms(2), THEN steps_trace]
    updateNotificationData_steps [THEN steps_trace]
  from False assms(3) show ?thesis
    by (cases rq)
      (auto simp: joinMatchmakeSession_def joinMatchmakeSessionEx_def autoMatchmakePostpone_def
        autoMatchmakeWithSearchCriteriaPostpone_def reject_def
        split: if_splits sum.splits elim: traces)
qed

lemma handle_matchmaking_trace:
  assumes "env_ok E" and "store_inv st" and "handle_matchmaking E st p c e rq = (st', ns, r)"
  shows "lobby_trace E (checks_updates (MatchMakingRequest rq)) p st st'"
proof (cases "reads_matchmaking rq")
  case True
  then show ?thesis using handle_read_only [of "MatchMakingRequest rq" E st p c e] assms(3) by simp
next
  case False
  note traces = registerGathering_trace [OF assms(1,2)] participate_steps [THEN steps_trace]
    leave_gathering_steps [OF assms(2), THEN steps_trace]
    updateGathering_steps [OF assms(2), THEN steps_trace] hosting_steps [THEN steps_trace]
    owner_steps [OF assms(2), THEN steps_trace] destroyGathering_steps [THEN steps_trace]
    destroy_each_steps [THEN steps_trace]
  from False assms(3) show ?thesis
    by (cases rq)
      (auto simp: cancelParticipation_def unregisterGathering_def unregisterGatherings_def reject_def
        split: if_splits prod.splits option.splits elim: traces)
qed

lemma handle_trace:
  assumes "env_ok E" and "store_inv st" and "handle E st p c e rq = (st', ns, r)"
  shows "lobby_trace E (checks_updates rq) p st st'"
proof (cases rq)
  case (ExtensionRequest q)
  with handle_extension_trace [OF assms(1,2)] assms(3) show ?thesis by simp
next
  case (MatchMakingRequest q)
  with assms(3) have "handle_matchmaking E st p c e q = (st', ns, r)" by simp
  from handle_matchmaking_trace [OF assms(1,2) this] MatchMakingRequest show ?thesis by simp
next
  case (MatchMakingExtRequest q)
  show ?thesis
  proof (cases "reads_matchmaking_ext q")
    case True
    then show ?thesis
      using handle_read_only [of "MatchMakingExtRequest q" E st p c e] assms(3) MatchMakingExtRequest
      by simp
  next
    case False
    then show ?thesis
      using assms(3) MatchMakingExtRequest
      by (cases q) (auto simp: endParticipation_def
          intro: leave_gathering_steps [OF assms(2), THEN steps_trace])
  qed
qed

end
