(* ===== verification/MMSystem.thy ===== *)
theory MMSystem
  imports MMDispatch
begin

text \<open>
  The matchmaking server as a transition system: any interleaving of requests, of the single steps
  of \<^verbatim>\<open>unregisterGatherings\<close> and of dropped connections (\<^verbatim>\<open>Register\<close>'s \<^verbatim>\<open>OnConnectionEnded\<close> hook), its
  invariants, and what the handlers promise their callers.
\<close>

subsection \<open>The transition system\<close>

definition RemoveConnection ::
  "mm_env \<Rightarrow> store \<Rightarrow> u64 \<Rightarrow> participation_event \<Rightarrow> store \<times> notification list" where
  "RemoveConnection E st pid subType = RemoveConnectionLocked E 0 st pid subType"

text \<open>With \<^verbatim>\<open>V\<close> the requests are those other than UpdateGathering.\<close>

inductive mm_step :: "bool \<Rightarrow> store \<Rightarrow> store \<Rightarrow> bool" for V :: bool where
  mm_request: "env_ok E \<Longrightarrow> (V \<longrightarrow> checks_updates rq) \<Longrightarrow> handle E st p c e rq = (st', ns, r) \<Longrightarrow>
    mm_step V st st'"
| mm_destroy: "destroyGathering E st p g = (st', ns, r) \<Longrightarrow> mm_step V st st'"
| mm_ended: "env_ok E \<Longrightarrow> RemoveConnection E st p Disconnect = (st', ns) \<Longrightarrow> mm_step V st st'"

inductive_cases mm_stepE: "mm_step V st st'"

lemma mm_step_trace:
  assumes "mm_step V st st'" and "store_inv st"
  shows "\<exists>E V' p. lobby_trace E V' p st st' \<and> (V \<longrightarrow> V')"
  using assms(1)
proof (cases rule: mm_step.cases)
  case (mm_request E rq p c e ns r)
  then show ?thesis using handle_trace [OF mm_request(1) assms(2) mm_request(3)] by blast
next
  case (mm_destroy E p g ns r)
  then show ?thesis using steps_trace [OF destroyGathering_steps] by blast
next
  case (mm_ended E p ns)
  then have "lobby_step E V p st st'"
    by (intro drop_step [OF mm_ended(1) assms(2)]) (simp add: RemoveConnection_def)
  then show ?thesis using steps_trace [OF step_steps] by blast
qed

lemma NewStore_inv: "store_inv NewStore" "all_valid NewStore" "ids_ok NewStore"
  by (simp_all add: NewStore_def store_inv_def all_valid_def session_store_def ids_ok_def)

interpretation mm: invariant_system "\<lambda>st. st = NewStore" "mm_step V" store_inv for V
proof
  fix st st'
  assume "mm_step V st st'" "store_inv st"
  then show "store_inv st'" using mm_step_trace lobby_trace_inv by blast
qed (simp add: NewStore_inv)

interpretation mm_checked: invariant_system "\<lambda>st. st = NewStore" "mm_step True"
  "\<lambda>st. store_inv st \<and> all_valid st"
proof
  fix st st'
  assume step: "mm_step True st st'" and inv: "store_inv st \<and> all_valid st"
  obtain E V' p where "lobby_trace E V' p st st'" and "True \<longrightarrow> V'"
    using mm_step_trace [OF step] inv by blast
  then have "lobby_trace E True p st st'" by simp
  then show "store_inv st' \<and> all_valid st'" using inv lobby_trace_inv lobby_trace_valid by blast
qed (simp add: NewStore_inv)

interpretation mm_notes: invariant_system "\<lambda>st. st = NewStore" "mm_step V"
  "\<lambda>st. store_inv st \<and> notes_ok st" for V
proof
  fix st st'
  assume step: "mm_step V st st'" and inv: "store_inv st \<and> notes_ok st"
  obtain E V' p where "lobby_trace E V' p st st'" using mm_step_trace [OF step] inv by blast
  then show "store_inv st' \<and> notes_ok st'" using inv lobby_trace_inv lobby_trace_notes by blast
qed (simp add: NewStore_inv NewStore_def notes_ok_def store_inv_def)

text \<open>A run of n steps hands out at most n identifiers.\<close>

lemma mm_run_ids:
  assumes "(mm_step V ^^ n) NewStore st" and "n < 2 ^ 32 - 1"
  shows "ids_ok st \<and> store_inv st \<and> unat (nextGatheringID st) \<le> n + 1"
  using assms
proof (induction n arbitrary: st)
  case 0
  then have "st = NewStore" by simp
  then show ?case using NewStore_inv by (simp add: NewStore_def)
next
  case (Suc n)
  then obtain mid where mid: "(mm_step V ^^ n) NewStore mid" "mm_step V mid st" by auto
  with Suc have IH: "ids_ok mid" "store_inv mid" "unat (nextGatheringID mid) \<le> n + 1" by auto
  obtain E V' p where tr: "lobby_trace E V' p mid st" using mm_step_trace [OF mid(2) IH(2)] by blast
  have "unat (nextGatheringID mid + 1) = unat (nextGatheringID mid) + 1"
    using IH(3) Suc.prems(2) by (simp add: unat_word_ariths)
  then have next_id: "unat (nextGatheringID st) \<le> n + 2" "nextGatheringID st \<noteq> 0"
    using lobby_trace_next [OF tr] IH by (auto simp: ids_ok_def simp flip: unat_eq_zero)
  from lobby_trace_ids [OF tr IH(1) next_id(2)] lobby_trace_inv [OF tr IH(2)] next_id(1)
  show ?case by simp
qed

subsection \<open>What a player gets\<close>

definition member_of :: "store \<Rightarrow> u64 \<Rightarrow> u32 \<Rightarrow> bool" where
  "member_of st pid k \<longleftrightarrow>
     (case sessions st k of None \<Rightarrow> False | Some s \<Rightarrow> pid \<in> set (Participants s))"

definition counts_fit :: "store \<Rightarrow> bool" where
  "counts_fit st \<longleftrightarrow>
     (\<forall>k s. sessions st k = Some s \<longrightarrow> length (Participants s) + 2 ^ 16 \<le> 2 ^ 32)"

lemma dropped:
  assumes "env_ok E" and "store_inv st" and "RemoveConnectionLocked E n st pid sub = (st1, ns)"
  shows "\<not> member_of st1 pid k" and "store_inv st1"
    and "nextGatheringID st1 = nextGatheringID st" and "counts_fit st \<Longrightarrow> counts_fit st1"
proof -
  have st1: "st1 = st\<lparr>sessions := (\<lambda>k. Option.bind (sessions st k) (after_leave pid))\<rparr>"
    using assms by (simp add: RemoveConnectionLocked_eq)
  show "\<not> member_of st1 pid k"
    by (auto simp: st1 member_of_def bind_eq_Some_conv dest: after_leave_not_member split: option.split)
  show "store_inv st1" using lobby_step_inv [OF drop_step [OF assms, of True]] assms(2) by blast
  show "nextGatheringID st1 = nextGatheringID st" by (simp add: st1)
  have "length (Participants s') \<le> length (Participants s)" if "after_leave pid s = Some s'" for s s'
    using that by (auto simp: after_leave_def Let_def split: if_splits)
  then show "counts_fit st \<Longrightarrow> counts_fit st1"
    by (fastforce simp: st1 counts_fit_def bind_eq_Some_conv)
qed

text \<open>A new lobby holds its creator and nobody else, so a join as one player cannot fail.\<close>

lemma full_for_empty:
  assumes "Participants s = []"
  shows "full_for s v \<longleftrightarrow> MaximumParticipants (MatchmakeSession s) \<noteq> 0 \<and>
    MaximumParticipants (MatchmakeSession s) < players v"
  using full_for_iff [of s v] assms by (simp add: word_less_nat_alt)

lemma created_full:
  assumes "CreateLocked E st pid m = (st2, gid, s)"
  shows "full_for s v \<longleftrightarrow> MaximumParticipants m \<noteq> 0 \<and> MaximumParticipants m < players v"
  using assms full_for_empty [of s v] by (auto simp: CreateLocked_eq)

lemma created_join:
  assumes "CreateLocked E st pid m = (st2, gid, s)"
    and "MaximumParticipants m = 0 \<or> players v \<le> MaximumParticipants m"
  shows "JoinLocked E s pid v msg =
    (Inr (of_nat (unat (players v)), with_players s (replicate (unat (players v)) pid)),
     join_notes E s pid v msg)"
proof -
  have "\<not> full_for s v" using assms created_full [OF assms(1), of v] by auto
  moreover have "Participants s = []" using assms(1) by (auto simp: CreateLocked_eq)
  ultimately show ?thesis by (simp add: JoinLocked_eq)
qed

text \<open>The candidate the automatic matchmaker picks has room for one more.\<close>

lemma eligible_not_full:
  assumes "eligible fl wanted s" and "length (Participants s) + 2 ^ 16 \<le> 2 ^ 32"
  shows "\<not> full_for s 1"
proof -
  have len: "length (Participants s) < 2 ^ 32" using assms(2) by simp
  have "MaximumParticipants (MatchmakeSession s) = 0 \<or>
      length (Participants s) < unat (MaximumParticipants (MatchmakeSession s))"
    using assms(1) u32_of_nat_less [OF len]
    by (auto simp: eligible_iff Let_def Participation_Count_def word_less_nat_alt unat_u16_u32
        simp flip: unat_eq_zero)
  then show ?thesis by (auto simp: full_for_iff [OF assms(2)] players_def)
qed

lemma accepted_not_full:
  assumes "accepts fl opts c pc s" and "VacantOnly c" and "1 \<le> pc_vacant pc"
    and "unat (pc_vacant pc) \<le> 2 ^ 16"
    and "length (Participants s) + 2 ^ 16 \<le> 2 ^ 32 - 1"
  shows "\<not> full_for s 1"
proof -
  let ?M = "MaximumParticipants (MatchmakeSession s)"
  have len: "length (Participants s) < 2 ^ 32" "length (Participants s) + 2 ^ 16 \<le> 2 ^ 32"
    using assms(5) by simp_all
  have sum: "unat (Participation_Count s + pc_vacant pc) = length (Participants s) + unat (pc_vacant pc)"
    using assms(4,5) u32_of_nat_less [OF len(1)]
    by (simp add: Participation_Count_def unat_word_ariths)
  have "(ucast ?M :: u32) = 0 \<or> Participation_Count s + pc_vacant pc \<le> ucast ?M"
    using assms(1,2) by (auto simp: accepts_iff Let_def)
  then have "?M = 0 \<or> length (Participants s) + unat (pc_vacant pc) \<le> unat ?M"
    by (auto simp: word_le_nat_alt sum unat_u16_u32 simp flip: unat_eq_zero)
  then show ?thesis
    using assms(3) by (auto simp: full_for_iff [OF len(2)] players_def word_le_nat_alt)
qed

end
