(* ===== verification/MMPromises.thy ===== *)
theory MMPromises
  imports MMSystem
begin

text \<open>
  What single handlers promise: the outcome of creating a lobby and of the automatic matchmaker for
  a well-formed request, and which credentials of a lobby a response discloses.
\<close>

subsection \<open>Creating a lobby\<close>

lemma member_of_put:
  "sessions st k = Some s \<Longrightarrow>
   member_of (put_session k s' st) p j \<longleftrightarrow> (if j = k then p \<in> set (Participants s') else member_of st p j)"
  by (auto simp: member_of_def put_session_def)

lemma member_of_create:
  "CreateLocked E st p m = (st2, gid, s) \<Longrightarrow> j \<noteq> gid \<Longrightarrow> member_of st2 q j = member_of st q j"
  by (auto simp: CreateLocked_eq member_of_def)

lemma create_join_outcome:
  assumes E: "env_ok E" "store_inv st" and m: "CheckValidMatchmakeSession m"
    and drop: "RemoveConnectionLocked E 0 st pid Disconnect = (st1, ns1)"
    and create: "CreateLocked E st1 pid m = (st2, gid, s)"
    and join: "JoinLocked E s pid v msg = (Inr (c, s'), ns2)"
  shows "gid = nextGatheringID st" and "sessions (put_session gid s' st2) gid = Some s'"
    and "Participants s' = replicate (unat (players v)) pid"
    and "ID (MatchmakeSession s') = gid"
    and "OwnerPID (MatchmakeSession s') = pid" and "HostPID (MatchmakeSession s') = pid"
    and "SessionKey (MatchmakeSession s') = session_key E"
    and "member_of (put_session gid s' st2) pid k \<longleftrightarrow> k = gid"
proof -
  have s: "Participants s = []" "sessions st2 gid = Some s" "ID (MatchmakeSession s) = gid"
    "OwnerPID (MatchmakeSession s) = pid" "HostPID (MatchmakeSession s) = pid"
    "SessionKey (MatchmakeSession s) = session_key E" "gid = nextGatheringID st1"
    using create by (auto simp: CreateLocked_eq)
  have s': "s' = with_players s (replicate (unat (players v)) pid)"
    using join s(1) by (cases rule: JoinLocked_cases [of pid s E v msg]) auto
  show "gid = nextGatheringID st" using s(7) dropped(3) [OF E drop] by simp
  show "sessions (put_session gid s' st2) gid = Some s'" using s(2) by (simp add: put_session_eq)
  show "Participants s' = replicate (unat (players v)) pid"
    and "ID (MatchmakeSession s') = gid"
    and "OwnerPID (MatchmakeSession s') = pid" and "HostPID (MatchmakeSession s') = pid"
    and "SessionKey (MatchmakeSession s') = session_key E" using s s' by simp_all
  then show "member_of (put_session gid s' st2) pid k \<longleftrightarrow> k = gid"
    using member_of_put [OF s(2)] member_of_create [OF create] dropped(1) [OF E drop, of k]
      players_pos [of v] by auto
qed

definition room_for :: "matchmake_session \<Rightarrow> u16 \<Rightarrow> bool" where
  "room_for m v \<longleftrightarrow> MaximumParticipants m = 0 \<or> players v \<le> MaximumParticipants m"

lemma created_not_full:
  assumes "CreateLocked E st pid m = (st2, gid, s)"
  shows "full_for s v \<longleftrightarrow> \<not> room_for m v"
  using created_full [OF assms, of v] by (auto simp: room_for_def)

lemma createMatchmakeSession_outcome:
  assumes E: "env_ok E" "store_inv st" and m: "CheckValidMatchmakeSession m"
    and msg: "length msg \<le> 256" and room: "room_for m v"
  obtains st' ns s where
    "createMatchmakeSession E st pid callID None (Some (GatheringObject ''MatchmakeSession'' (Some m)))
       msg v =
     (st', ns, Inr (respond MMX ''MethodCreateMatchmakeSession'' callID
        (WU32 (nextGatheringID st) #
         (if MatchMaking_GE_3_0_0 E then [WBuffer (session_key E)] else []))))"
    "sessions st' (nextGatheringID st) = Some s"
    "Participants s = replicate (unat (players v)) pid"
    "OwnerPID (MatchmakeSession s) = pid" "HostPID (MatchmakeSession s) = pid"
    "\<And>k. member_of st' pid k \<longleftrightarrow> k = nextGatheringID st"
proof -
  obtain st1 ns1 where drop: "RemoveConnectionLocked E 0 st pid Disconnect = (st1, ns1)"
    by (cases "RemoveConnectionLocked E 0 st pid Disconnect")
  obtain st2 gid s where create: "CreateLocked E st1 pid m = (st2, gid, s)"
    by (cases "CreateLocked E st1 pid m")
  have "\<not> full_for s v" using created_not_full [OF create, of v] room by simp
  moreover have "pid \<notin> set (Participants s)" using create by (auto simp: CreateLocked_eq)
  ultimately obtain c s' ns2 where join: "JoinLocked E s pid v msg = (Inr (c, s'), ns2)"
    by (simp add: JoinLocked_eq)
  note out = create_join_outcome [OF E m drop create join]
  have "createMatchmakeSession E st pid callID None
      (Some (GatheringObject ''MatchmakeSession'' (Some m))) msg v =
    (put_session gid s' st2, ns1 @ ns2,
     Inr (respond MMX ''MethodCreateMatchmakeSession'' callID
        (WU32 (nextGatheringID st) #
         (if MatchMaking_GE_3_0_0 E then [WBuffer (session_key E)] else []))))"
    using drop create join m msg out(1,4,7)
    by (simp add: createMatchmakeSession_def sessionFromHolder_def maxMessageLength_def)
  then show ?thesis
    using that out by metis
qed

subsection \<open>The automatic matchmaker always finds a place\<close>

definition counts_fit_auto :: "store \<Rightarrow> bool" where
  "counts_fit_auto st \<longleftrightarrow>
     (\<forall>k s. sessions st k = Some s \<longrightarrow> length (Participants s) + 2 ^ 16 \<le> 2 ^ 32 - 1)"

lemma dropped_fit:
  assumes "env_ok E" and "store_inv st" and "RemoveConnectionLocked E n st pid sub = (st1, ns)"
    and "counts_fit_auto st"
  shows "counts_fit_auto st1"
proof -
  have st1: "st1 = st\<lparr>sessions := (\<lambda>k. Option.bind (sessions st k) (after_leave pid))\<rparr>"
    using assms by (simp add: RemoveConnectionLocked_eq)
  have "length (Participants s') \<le> length (Participants s)" if "after_leave pid s = Some s'" for s s'
    using that by (auto simp: after_leave_def Let_def split: if_splits)
  then show ?thesis using assms(4)
    by (fastforce simp: st1 counts_fit_auto_def bind_eq_Some_conv)
qed

lemma auto_candidate_room:
  assumes "env_ok E" and "store_inv st" and "counts_fit_auto st"
    and "auto_candidate E st pid cs m = Some (k, s)"
  shows "\<not> full_for s 1"
proof -
  have fit: "length (Participants s) + 2 ^ 16 \<le> 2 ^ 32 - 1"
    using auto_candidate_Some(1) [OF assms(1,2,4)] assms(3) by (simp add: counts_fit_auto_def)
  show ?thesis
  proof (cases "length cs = 0")
    case True
    with assms(4) have "FindSession E 1 st pid m (AllowPublicMatchmaking E) = Some (k, s)"
      by (auto simp: auto_candidate_def split: option.splits if_splits)
    from FindSession_Some(2) [OF assms(1,2) this] fit show ?thesis
      by (intro eligible_not_full) auto
  next
    case False
    let ?opts = "\<lparr>AutoMatchmake = True, ExcludeOwnerPID = pid,
      AllowPublic = AllowPublicMatchmaking E\<rparr>"
    from False assms(4) have found: "List.find (\<lambda>(k, s). CanJoin E pid s = None)
        (Search E 1 st pid cs \<lparr>Offset = 0, Length = 1\<rparr> (Some m) ?opts) = Some (k, s)"
      by (simp add: auto_candidate_def)
    then have "good_result st cs (friend_list E pid) ?opts (k, s)"
      using find_Some_set [OF found] Search_sound [OF assms(1,2)] by blast
    then obtain c pc where c: "parse_criteria (with_auto ?opts c) = Some pc"
      "accepts (friend_list E pid) ?opts (with_auto ?opts c) pc s"
      by (auto simp: good_result_def)
    have "1 \<le> pc_vacant pc \<and> unat (pc_vacant pc) \<le> 2 ^ 16"
    proof -
      have "pc_vacant pc = (let v = ucast (VacantParticipants c) in if v = 0 then 1 else v)"
        using c(1) by (auto simp: parse_criteria_def with_auto_def split: option.splits prod.splits if_splits)
      moreover have "unat (ucast (VacantParticipants c) :: u32) \<le> 2 ^ 16"
        using unsigned_less [of "VacantParticipants c", where ?'a = nat] by (simp add: unat_u16_u32)
      ultimately show ?thesis
        by (auto simp: Let_def word_le_nat_alt unat_gt_0 Suc_le_eq)
    qed
    with c(2) fit show ?thesis by (intro accepted_not_full) (auto simp: with_auto_def)
  qed
qed

lemma update_count_same: "ParticipationCount m = c \<Longrightarrow> m\<lparr>ParticipationCount := c\<rparr> = m"
  by (cases m) simp

lemma autoMatchmake_outcome:
  assumes E: "env_ok E" "store_inv st" and m: "CheckValidMatchmakeSession m"
    and fit: "counts_fit_auto st"
  obtains st' ns s gid where
    "autoMatchmake E st pid callID cs m msg meth =
     (st', ns, Inr (respond MMX meth callID [WStruct (SGatheringHolder (MatchmakeSession s))]))"
    "sessions st' gid = Some s" "ID (MatchmakeSession s) = gid"
    "\<And>k. member_of st' pid k \<longleftrightarrow> k = gid"
proof -
  obtain st1 ns1 where drop: "RemoveConnectionLocked E 0 st pid Disconnect = (st1, ns1)"
    by (cases "RemoveConnectionLocked E 0 st pid Disconnect")
  note st1 = dropped [OF E drop] dropped_fit [OF E drop fit]
  show ?thesis
  proof (cases "auto_candidate E st1 pid cs m")
    case None
    obtain st2 gid s where create: "CreateLocked E st1 pid m = (st2, gid, s)"
      by (cases "CreateLocked E st1 pid m")
    have "room_for m 1"
      by (simp add: room_for_def players_def) (metis word_not_simps(1) linorder_not_le word_less_1)
    then have "\<not> full_for s 1" using created_not_full [OF create, of 1] by simp
    moreover have "pid \<notin> set (Participants s)" using create by (auto simp: CreateLocked_eq)
    ultimately obtain s' ns2 where
      join: "JoinLocked E s pid 1 msg = (Inr (of_nat (length (Participants s')), s'), ns2)"
      and cnt: "ParticipationCount (MatchmakeSession s') = of_nat (length (Participants s'))"
      by (simp add: JoinLocked_eq)
    note out = create_join_outcome [OF E m drop create join]
    have "autoMatchmake E st pid callID cs m msg meth =
      (put_session gid s' st2, ns1 @ ns2,
       Inr (respond MMX meth callID [WStruct (SGatheringHolder (MatchmakeSession s'))]))"
      using drop None create join m update_count_same [OF cnt]
      by (simp add: autoMatchmake_def holderFor_def)
    then show ?thesis using that out by blast
  next
    case (Some ks)
    obtain k s where ks: "ks = (k, s)" by (cases ks)
    have cand: "sessions st1 k = Some s" "\<not> full_for s 1"
      using auto_candidate_Some [OF E(1) st1(2)] auto_candidate_room [OF E(1) st1(2) st1(5)] Some ks
      by auto
    have "pid \<notin> set (Participants s)" using st1(1) [of k] cand(1) by (simp add: member_of_def)
    with cand(2) obtain s' ns2 where
      join: "JoinLocked E s pid 1 msg = (Inr (of_nat (length (Participants s')), s'), ns2)"
      and s': "ParticipationCount (MatchmakeSession s') = of_nat (length (Participants s'))"
        "ID (MatchmakeSession s') = ID (MatchmakeSession s)" "pid \<in> set (Participants s')"
      using players_pos [of 1] by (simp add: JoinLocked_eq)
    have "autoMatchmake E st pid callID cs m msg meth =
      (put_session k s' st1, ns1 @ ns2,
       Inr (respond MMX meth callID [WStruct (SGatheringHolder (MatchmakeSession s'))]))"
      using drop Some ks join m update_count_same [OF s'(1)]
      by (simp add: autoMatchmake_def holderFor_def)
    moreover have "sessions (put_session k s' st1) k = Some s'"
      using cand(1) by (simp add: put_session_eq)
    moreover have "ID (MatchmakeSession s') = k"
      using store_invD [OF st1(2) cand(1)] s'(2) by (simp add: session_ok_def)
    moreover have "member_of (put_session k s' st1) pid j \<longleftrightarrow> j = k" for j
      using member_of_put [OF cand(1)] st1(1) s'(3) by auto
    ultimately show ?thesis using that by blast
  qed
qed

subsection \<open>Credentials\<close>

text \<open>The structures and the buffers a value on the wire contains.\<close>

fun wire_structs :: "'f wire \<Rightarrow> 'f list" where
  "wire_structs (WStruct f) = [f]"
| "wire_structs (WList ws) = concat (map wire_structs ws)"
| "wire_structs _ = []"

fun wire_buffers :: "'f wire \<Rightarrow> bytes list" where
  "wire_buffers (WBuffer b) = [b]"
| "wire_buffers (WList ws) = concat (map wire_buffers ws)"
| "wire_buffers _ = []"

text \<open>A response value shows no session key and no password of a lobby the caller is not in.\<close>

definition keeps_secrets :: "store \<Rightarrow> u64 \<Rightarrow> mm_struct wire \<Rightarrow> bool" where
  "keeps_secrets st p w \<longleftrightarrow>
     (\<forall>f \<in> set (wire_structs w). \<forall>m. shown_session f = Some m \<longrightarrow>
        (SessionKey m = [] \<and> UserPassword m = []) \<or> member_of st p (ID m)) \<and>
     (\<forall>b \<in> set (wire_buffers w). \<exists>k s. sessions st k = Some s \<and> p \<in> set (Participants s) \<and>
        b = SessionKey (MatchmakeSession s))"

lemma publicCopy_secret [simp]:
  "SessionKey (publicCopy m) = []" "UserPassword (publicCopy m) = []"
  by (simp_all add: publicCopy_def)

lemma keeps_secrets_list [simp]:
  "keeps_secrets st p (WList ws) \<longleftrightarrow> (\<forall>w \<in> set ws. keeps_secrets st p w)"
  by (auto simp: keeps_secrets_def)

lemma keeps_secrets_atoms [simp]:
  "keeps_secrets st p (WBool b)" "keeps_secrets st p (WU32 x)" "keeps_secrets st p (WU16 y)"
  "keeps_secrets st p (WString z)" "keeps_secrets st p (WPID q)"
  by (simp_all add: keeps_secrets_def)

lemma keeps_secrets_struct [simp]:
  "keeps_secrets st p (WStruct f) \<longleftrightarrow>
     (\<forall>m. shown_session f = Some m \<longrightarrow>
        (SessionKey m = [] \<and> UserPassword m = []) \<or> member_of st p (ID m))"
  by (simp add: keeps_secrets_def)

lemma keeps_secrets_buffer:
  "sessions st k = Some s \<Longrightarrow> p \<in> set (Participants s) \<Longrightarrow>
   keeps_secrets st p (WBuffer (SessionKey (MatchmakeSession s)))"
  by (auto simp: keeps_secrets_def)

definition secret_result :: "u64 \<Rightarrow> mm_result \<Rightarrow> bool" where
  "secret_result p res \<longleftrightarrow>
     (case res of (st, ns, Inl e) \<Rightarrow> True
      | (st, ns, Inr resp) \<Rightarrow> \<forall>w \<in> set (Body resp). keeps_secrets st p w)"

lemma secret_simps [simp]:
  "secret_result p (st, ns, Inl e)" "secret_result p (reject st e)"
  "secret_result p (st, ns, Inr resp) \<longleftrightarrow> (\<forall>w \<in> set (Body resp). keeps_secrets st p w)"
  by (simp_all add: secret_result_def reject_def)

lemma secret_read_session:
  "(\<And>s ws. body s = Inr ws \<Longrightarrow> \<forall>w \<in> set ws. keeps_secrets st p w) \<Longrightarrow>
   secret_result p (read_session st c e g pr meth body)"
  by (auto simp: read_session_def split: sum.split)

lemma secret_lists [simp]:
  "keeps_secrets st p (pid_list s)" "keeps_secrets st p (detail_list s)"
  "keeps_secrets st p (url_list us)"
  by (auto simp: pid_list_def detail_list_def url_list_def participantDetails_def Let_def)

lemma set_applyRange: "x \<in> set (applyRange xs r) \<Longrightarrow> x \<in> set xs"
  by (auto simp: applyRange_eq dest: in_set_takeD in_set_dropD split: if_splits)

lemma secret_readers:
  "secret_result p (browse E st q c e s r meth)"
  "secret_result p (findMatchmakeSessionByGatheringID st c e gs)"
  "secret_result p (findMatchmakeSessionBySingleGatheringID st c e g)"
  "secret_result p (findMatchmakeSessionByOwner E st c e w r)"
  "secret_result p (getPlayingSession E st c e ps)"
  "secret_result p (getSimplePlayingSession E st q c e ps b)"
  "secret_result p (getFriendNotificationData E st q c e t)"
  "secret_result p (getLstFriendNotificationData E st q c e ts)"
  "secret_result p (findByID st c e gs)" "secret_result p (findBySingleID st c e g)"
  "secret_result p (findByOwner E st c e q r)" "secret_result p (findByParticipants E st c e ps)"
  "secret_result p (extGetParticipantsURLs E st q c e gs)"
  "secret_result p (extDeleteFromDeletions st c e gs q)"
  by (auto simp: read_handler_defs holderFor_def Let_def dest!: set_applyRange split: sum.split prod.split
      sum.splits if_splits)

lemma secret_reads:
  "secret_result p (getParticipants st c e g)" "secret_result p (getDetailedParticipants st c e g)"
  "secret_result p (extGetParticipants st c e g b)"
  "secret_result p (extGetDetailedParticipants st c e g b)"
  "secret_result p (getParticipantsURLs E st q c e g)" "secret_result p (getSessionURL st c e g)"
  "secret_result p (getSessionURLs E st q c e g)" "secret_result p (getState st c e g)"
  unfolding read_handler_defs
  by (rule secret_read_session; auto split: if_splits option.splits)+

lemma secret_mutateOwned: "secret_result p (mutateOwned st q c e g meth f)"
  by (simp add: mutateOwned_def respondEmpty_def split: sum.split)

lemma secret_owner_edits:
  "secret_result p (closeParticipation st q c e g)" "secret_result p (openParticipation st q c e g)"
  "secret_result p (updateApplicationBuffer st q c e g b)"
  "secret_result p (updateProgressScore st q c e g x)"
  "secret_result p (updateMatchmakeSessionAttribute st q c e g as)"
  "secret_result p (modifyCurrentGameAttribute st q c e g i v)"
  "secret_result p (updateMatchmakeSession st q c e h)"
  "secret_result p (updateNotificationData E st q c e t a1 a2 z)"
  by (simp_all add: closeParticipation_def openParticipation_def updateApplicationBuffer_def
      updateProgressScore_def updateMatchmakeSessionAttribute_def modifyCurrentGameAttribute_def
      updateMatchmakeSession_def updateNotificationData_def secret_mutateOwned respondEmpty_def Let_def
      split: sum.split)

lemma secret_writers:
  "secret_result p (unregisterGathering E st q c e g)"
  "secret_result p (unregisterGatherings E st q c e gs)"
  "secret_result p (updateGathering st q c e h)" "secret_result p (participate E st q c e g m)"
  "secret_result p (leave_gathering E st q c e g m sub pr meth)"
  "secret_result p (launchSession st q c e g u)" "secret_result p (updateSessionURL st q c e g u)"
  "secret_result p (setState st q c e g x)" "secret_result p (updateSessionHost E st q c e g b)"
  "secret_result p (updateSessionHostV1 st q c e g)"
  "secret_result p (migrateGatheringOwnershipV1 E st q c e g ps)"
  "secret_result p (registerGathering E st q c e h)"
  by (simp_all add: unregisterGathering_def unregisterGatherings_def updateGathering_def
      participate_def leave_gathering_def launchSession_def updateSessionURL_def setState_def
      updateSessionHost_def updateSessionHostV1_def migrateGatheringOwnershipV1_def
      registerGathering_def Let_def split: sum.split prod.split option.split)

lemma secret_join_session: "secret_result p (join_session E st p c e g msg v meth)"
proof (cases "e = None \<and> \<not> maxMessageLength < length msg")
  case True
  show ?thesis
  proof (cases "sessions st g")
    case None
    then show ?thesis using True by (simp add: join_session_def GetLocked_def)
  next
    case (Some s)
    let ?s' = "with_players s (Participants s @ replicate (unat (players v)) p)"
    have "sessions (put_session g ?s' st) g = Some ?s'" using Some by (simp add: put_session_eq)
    from keeps_secrets_buffer [OF this, of p] players_pos [of v] Some True show ?thesis
      by (cases rule: JoinLocked_cases [of p s E v msg])
        (simp_all add: join_session_def GetLocked_def Let_def split: option.split)
  qed
qed (auto simp: join_session_def)

lemma secret_createMatchmakeSession:
  assumes E: "env_ok E" "store_inv st"
  shows "secret_result p (createMatchmakeSession E st p c e h msg v)"
proof (cases "e = None \<and> \<not> maxMessageLength < length msg")
  case True
  show ?thesis
  proof (cases "sessionFromHolder h")
    case (Inl x)
    then show ?thesis using True by (simp add: createMatchmakeSession_def)
  next
    case (Inr m)
    obtain st1 ns1 where drop: "RemoveConnectionLocked E 0 st p Disconnect = (st1, ns1)"
      by (cases "RemoveConnectionLocked E 0 st p Disconnect")
    obtain st2 gid s where create: "CreateLocked E st1 p m = (st2, gid, s)"
      by (cases "CreateLocked E st1 p m")
    obtain res ns2 where join: "JoinLocked E s p v msg = (res, ns2)" by (cases "JoinLocked E s p v msg")
    show ?thesis
    proof (cases "CheckValidMatchmakeSession m \<and> (\<exists>c s'. res = Inr (c, s'))")
      case False
      then show ?thesis
        using True Inr drop create join
        by (cases res) (auto simp: createMatchmakeSession_def)
    next
      case okay: True
      then obtain cnt s' where res: "res = Inr (cnt, s')" by blast
      note out = create_join_outcome [OF E conjunct1 [OF okay] drop create join [unfolded res]]
      have "keeps_secrets (put_session gid s' st2) p (WBuffer (SessionKey (MatchmakeSession s')))"
        using keeps_secrets_buffer [OF out(2), of p] out(3) players_pos [of v] by simp
      then show ?thesis
        using True Inr drop create join res okay
        by (auto simp: createMatchmakeSession_def Let_def)
    qed
  qed
qed (auto simp: createMatchmakeSession_def)

lemma secret_autoMatchmake:
  assumes E: "env_ok E" "store_inv st"
  shows "secret_result p (autoMatchmake E st p c cs m msg meth)"
proof (cases "CheckValidMatchmakeSession m")
  case False
  then show ?thesis by (simp add: autoMatchmake_def)
next
  case valid: True
  obtain st1 ns1 where drop: "RemoveConnectionLocked E 0 st p Disconnect = (st1, ns1)"
    by (cases "RemoveConnectionLocked E 0 st p Disconnect")
  note st1 = dropped [OF E drop]
  show ?thesis
  proof (cases "auto_candidate E st1 p cs m")
    case None
    obtain st2 gid s where create: "CreateLocked E st1 p m = (st2, gid, s)"
      by (cases "CreateLocked E st1 p m")
    obtain res ns2 where join: "JoinLocked E s p 1 msg = (res, ns2)" by (cases "JoinLocked E s p 1 msg")
    show ?thesis
    proof (cases res)
      case (Inl x)
      then show ?thesis using drop None create join valid by (simp add: autoMatchmake_def)
    next
      case (Inr cs')
      obtain cnt s' where cs': "cs' = (cnt, s')" by (cases cs')
      note out = create_join_outcome [OF E valid drop create join [unfolded Inr cs']]
      show ?thesis
        using drop None create join valid Inr cs' out(4,8)
        by (simp add: autoMatchmake_def holderFor_def)
    qed
  next
    case (Some ks)
    obtain k s where ks: "ks = (k, s)" by (cases ks)
    have cand: "sessions st1 k = Some s"
      using auto_candidate_Some(1) [OF E(1) st1(2)] Some ks by auto
    have id: "ID (MatchmakeSession s) = k" using store_invD [OF st1(2) cand] by (simp add: session_ok_def)
    show ?thesis
      using drop Some ks valid id member_of_put [OF cand] players_pos [of 1]
      by (cases rule: JoinLocked_cases [of p s E 1 msg]) (simp_all add: autoMatchmake_def holderFor_def)
  qed
qed

lemma handle_secret:
  assumes "env_ok E" and "store_inv st"
  shows "secret_result p (handle E st p c e rq)"
proof (cases rq)
  case (ExtensionRequest q)
  have "secret_result p (handle_extension E st p c e q)"
    by (cases q) (simp_all add: joinMatchmakeSession_def joinMatchmakeSessionEx_def
        autoMatchmakePostpone_def autoMatchmakeWithSearchCriteriaPostpone_def
        browseMatchmakeSession_def browseMatchmakeSessionWithHostURLs_def
        secret_createMatchmakeSession [OF assms] secret_autoMatchmake [OF assms]
        secret_join_session secret_owner_edits secret_readers split: sum.split)
  with ExtensionRequest show ?thesis by simp
next
  case (MatchMakingRequest q)
  have "secret_result p (handle_matchmaking E st p c e q)"
    by (cases q) (simp_all add: cancelParticipation_def secret_writers secret_readers secret_reads)
  with MatchMakingRequest show ?thesis by simp
next
  case (MatchMakingExtRequest q)
  have "secret_result p (handle_matchmaking_ext E st p c e q)"
    by (cases q) (simp_all add: endParticipation_def secret_writers secret_readers secret_reads)
  with MatchMakingExtRequest show ?thesis by simp
qed

end
