(* ===== verification/MMTheorems.thy ===== *)
theory MMTheorems
  imports MMPromises
begin

text \<open>
  The properties of the lobbies, each with a witness at a concrete input where it has hypotheses
  (those of search and notifications are in MMQueries). \<^verbatim>\<open>example_env\<close>, \<^verbatim>\<open>example_match\<close> and \<^verbatim>\<open>example_lobby\<close> are that input: an environment whose
  maps are visited in increasing order of the keys, a valid session description, and a lobby of the
  players 7 (owner and host), 8 and 9.
\<close>

subsection \<open>A concrete input\<close>

definition example_proto :: nex_proto where
  "example_proto =
     \<lparr>HasFlag = (\<lambda>flags flag. flags = 1 \<and> flag = NotifyParticipationEventsToAllParticipants),
      Build = (\<lambda>c. case c of CatCode n \<Rightarrow> n * 1000 | _ \<Rightarrow> 3000),
      ToUnsigned = of_int,
      NewNotificationEvent =
        \<lparr>PIDSource = 0, Type = 0, Param1 = 0, Param2 = 0, StrParam = [], Param3 = 0\<rparr>\<rparr>"

definition example_match :: matchmake_session where
  "example_match =
     \<lparr>ID = 0, OwnerPID = 0, HostPID = 0, MinimumParticipants = 1, MaximumParticipants = 4,
      ParticipationPolicy = 0, PolicyArgument = 0, Flags = 0, State = 0, Description = [],
      GameMode = 2, Attributes = [0, 5, 0, 0, 0, 0], OpenParticipation = True,
      MatchmakeSystemType = 3, ApplicationBuffer = [], ParticipationCount = 0, ProgressScore = 10,
      SessionKey = [], Option0 = 0, MatchmakeParam = [], StartedTime = 0, UserPassword = [],
      ReferGID = 0, UserPasswordEnabled = False, SystemPasswordEnabled = False, CodeWord = []\<rparr>"

definition example_env :: mm_env where
  "example_env =
     \<lparr>proto = example_proto, newSession = example_match, storeEndpoint = True,
      friendPIDs = Some (\<lambda>p. if p = 8 then [7] else []), now = 1000, randRead = None,
      mapOrder = (\<lambda>n. sorted_list_of_set), eventOrder = sorted_list_of_set,
      mm_endpoint = \<lparr>Connections = [], ep_StreamID = 0\<rparr>, AllowPublicMatchmaking = True,
      MatchMaking_GE_3_0_0 = True\<rparr>"

definition example_lobby :: session where
  "example_lobby =
     \<lparr>MatchmakeSession = example_match
        \<lparr>ID := 1, OwnerPID := 7, HostPID := 8, ParticipationCount := 3, SessionKey := [42]\<rparr>,
      Participants = [7, 8, 9], RegisteredTime = 0, SessionURL = []\<rparr>"

definition example_store :: store where
  "example_store =
     \<lparr>sessions = [1 \<mapsto> example_lobby], nextGatheringID = 2, notificationData = Map.empty\<rparr>"

lemma example_env_ok: "env_ok example_env"
  by (simp add: env_ok_def example_env_def visits_all_sorted)

lemma example_store_inv: "store_inv example_store"
  by (simp add: store_inv_def session_ok_def example_store_def example_lobby_def)

lemma example_match_valid: "CheckValidMatchmakeSession example_match"
  by (simp add: CheckValidMatchmakeSession_iff example_match_def)

abbreviation example_create :: mm_request where
  "example_create \<equiv> ExtensionRequest
     (CreateMatchmakeSession (Some (GatheringObject ''MatchmakeSession'' (Some example_match))) [] 1)"

subsection \<open>Permissions and invariants\<close>

text \<open>C1: every request, decoded or not, refines the abstract lobby machine: it is a sequence of
  changes the caller is permitted (joining an open gathering with room, leaving, editing or
  destroying a gathering it owns, hosting one it is in, taking ownership where the flag allows it,
  publishing its own data), with at most one creation, at the end.\<close>

theorem request_refines_lobby_steps:
  assumes "env_ok E" and "store_inv st"
  shows "lobby_trace E (checks_updates rq) p st (fst (handle E st p c e rq))"
  using handle_trace [OF assms, of p c e rq] by (cases "handle E st p c e rq") simp

theorem request_refines_lobby_steps_witness:
  "lobby_trace example_env True 8 example_store
     (fst (handle example_env example_store 8 0 None example_create))"
  using request_refines_lobby_steps [OF example_env_ok example_store_inv, of example_create 8 0 None]
  by simp

text \<open>C2: in every reachable state a gathering is stored under its own ID, its owner and its host are
  participants, and its participation count is the number of participants.\<close>

theorem reachable_sessions_well_formed:
  assumes "(mm_step False)\<^sup>*\<^sup>* NewStore st" and "sessions st k = Some s"
  shows "ID (MatchmakeSession s) = k \<and>
    OwnerPID (MatchmakeSession s) \<in> set (Participants s) \<and>
    HostPID (MatchmakeSession s) \<in> set (Participants s) \<and>
    ParticipationCount (MatchmakeSession s) = of_nat (length (Participants s))"
  using mm.inv_reachable [OF refl assms(1)] assms(2) by (auto simp: store_inv_def session_ok_def)

definition example_request :: mm_result where
  "example_request = handle example_env NewStore 8 0 None example_create"

definition example_created :: store where
  "example_created = fst example_request"

lemma example_created_facts:
  obtains s where "sessions example_created 1 = Some s" "Participants s = [8]"
    "mm_step V NewStore example_created" "(mm_step V)\<^sup>*\<^sup>* NewStore example_created"
proof -
  have room: "room_for example_match 1" and msg: "length [] \<le> 256"
    by (simp_all add: room_for_def players_def example_match_def)
  obtain st ns s r where out:
    "createMatchmakeSession example_env NewStore 8 0 None
       (Some (GatheringObject ''MatchmakeSession'' (Some example_match))) [] 1 = (st, ns, r)"
    "sessions st (nextGatheringID NewStore) = Some s"
    "Participants s = replicate (unat (players 1)) 8"
    by (rule createMatchmakeSession_outcome [OF example_env_ok NewStore_inv(1) example_match_valid
          msg room, of 8 0]) blast
  have handled: "handle example_env NewStore 8 0 None example_create = (st, ns, r)"
    using out(1) by simp
  then have "example_created = st" by (simp add: example_created_def example_request_def)
  moreover have "mm_step V NewStore st"
    by (rule mm_request [OF example_env_ok _ handled]) simp
  ultimately show ?thesis using that out(2,3) by (simp add: NewStore_def players_def r_into_rtranclp [of "mm_step V"])
qed

theorem reachable_sessions_well_formed_witness:
  "\<exists>s. sessions example_created 1 = Some s \<and> OwnerPID (MatchmakeSession s) = 8"
proof -
  obtain s where s: "sessions example_created 1 = Some s" "Participants s = [8]"
    "(mm_step False)\<^sup>*\<^sup>* NewStore example_created" by (rule example_created_facts)
  with reachable_sessions_well_formed [OF s(3) s(1)] show ?thesis by simp
qed

text \<open>C17: as long as gatherings are changed through the checked requests (all but UpdateGathering),
  every stored session satisfies the validity check of common-go in every reachable state.\<close>

theorem reachable_sessions_valid:
  assumes "(mm_step True)\<^sup>*\<^sup>* NewStore st" and "sessions st k = Some s"
  shows "CheckValidMatchmakeSession (MatchmakeSession s)"
  using mm_checked.inv_reachable [OF refl assms(1)] assms(2)
  by (auto simp: all_valid_def session_store_def valid_session_def)

theorem reachable_sessions_valid_witness:
  "\<exists>s. sessions example_created 1 = Some s \<and> CheckValidMatchmakeSession (MatchmakeSession s)"
proof -
  obtain s where s: "sessions example_created 1 = Some s"
    "(mm_step True)\<^sup>*\<^sup>* NewStore example_created" by (rule example_created_facts)
  with reachable_sessions_valid [OF s(2) s(1)] show ?thesis by simp
qed

text \<open>C30: in a run of fewer than 2^32 - 1 steps no gathering has the ID 0 that the game reads as "no
  gathering", and the next ID to be handed out is neither 0 nor in use.\<close>

theorem gathering_ids_fresh:
  assumes "(mm_step V ^^ n) NewStore st" and "n < 2 ^ 32 - 1"
  shows "sessions st 0 = None \<and> nextGatheringID st \<noteq> 0 \<and> sessions st (nextGatheringID st) = None"
proof -
  have "ids_ok st" using mm_run_ids [OF assms] by blast
  then show ?thesis
    by (cases "sessions st 0"; cases "sessions st (nextGatheringID st)") (auto simp: ids_ok_def)
qed

theorem gathering_ids_fresh_witness:
  "sessions example_created 0 = None \<and> nextGatheringID example_created \<noteq> 0"
proof -
  have "mm_step False NewStore example_created" by (rule example_created_facts)
  then have "(mm_step False ^^ 1) NewStore example_created" by (simp only: relpowp_1)
  from gathering_ids_fresh [OF this] show ?thesis by simp
qed

text \<open>After 2^32 - 1 creations the counter wraps: the next gathering gets the ID 0.\<close>

theorem gathering_id_wraps:
  assumes "nextGatheringID st = 0xFFFFFFFF"
    and "CreateLocked E st pid m = (st1, gid1, s1)" and "CreateLocked E' st1 pid' m' = (st2, gid2, s2)"
  shows "gid1 = 0xFFFFFFFF \<and> gid2 = 0 \<and> ID (MatchmakeSession s2) = 0 \<and> sessions st2 0 = Some s2"
  using assms by (auto simp: CreateLocked_eq)

theorem gathering_id_wraps_witness:
  "fst (snd (CreateLocked example_env
     (fst (CreateLocked example_env (NewStore\<lparr>nextGatheringID := 0xFFFFFFFF\<rparr>) 7 example_match))
     8 example_match)) = 0"
proof -
  obtain st1 g1 s1 where c1: "CreateLocked example_env (NewStore\<lparr>nextGatheringID := 0xFFFFFFFF\<rparr>)
      7 example_match = (st1, g1, s1)"
    using prod_cases3 by blast
  obtain st2 g2 s2 where c2: "CreateLocked example_env st1 8 example_match = (st2, g2, s2)"
    using prod_cases3 by blast
  show ?thesis using gathering_id_wraps [OF _ c1 c2] c1 c2 by simp
qed


lemma example_leave:
  "fst (handle example_env example_store 9 0 None
     (MatchMakingRequest (CancelParticipationRequest 1 []))) =
   example_store\<lparr>sessions := [1 \<mapsto> with_players example_lobby [7, 8]]\<rparr>"
  by (simp add: cancelParticipation_def leave_gathering_def maxMessageLength_def GetLocked_def
      LeaveLocked_eq after_leave_def example_store_def example_lobby_def example_match_def)


subsection \<open>Joining, leaving and dropping out\<close>

text \<open>C28: a join is refused exactly when the player is already in the gathering or the party does not
  fit; otherwise the party is appended and nothing else of the session but its count changes.\<close>

theorem JoinLocked_exact:
  assumes "length (Participants s) + 2 ^ 16 \<le> 2 ^ 32"
  shows "fst (JoinLocked E s pid v msg) =
    (let party = (if v = 0 then 1 else unat v);
         maximum = unat (MaximumParticipants (MatchmakeSession s));
         total = length (Participants s) + party in
     if pid \<in> set (Participants s)
     then Inl (NewError RendezVous_AlreadyParticipatedGathering
                 ''Already a participant of this gathering'')
     else if 0 < maximum \<and> maximum < total
     then Inl (NewError RendezVous_SessionFull ''Gathering is full'')
     else Inr (of_nat total,
            s\<lparr>Participants := Participants s @ replicate party pid,
              MatchmakeSession := (MatchmakeSession s)\<lparr>ParticipationCount := of_nat total\<rparr>\<rparr>))"
proof -
  have party: "unat (players v) = (if v = 0 then 1 else unat v)" by (simp add: players_def)
  show ?thesis
    unfolding Let_def party [symmetric]
    by (auto simp: JoinLocked_eq full_for_iff [OF assms] with_players_def unat_gt_0)
qed

theorem JoinLocked_exact_witness:
  "fst (JoinLocked example_env example_lobby 5 2 []) =
     Inl (NewError RendezVous_SessionFull ''Gathering is full'')"
  using JoinLocked_exact [of example_lobby example_env 5 2 "[]"]
  by (simp add: example_lobby_def example_match_def)

text \<open>C26: when a console drops out, every gathering it owned is gone, every other gathering it was in
  loses it (and is hosted by its owner if it was the host), and all others are untouched, in
  whatever order the gatherings are visited.\<close>

theorem RemoveConnection_sessions:
  assumes "env_ok E" and "store_inv st"
  shows "sessions (fst (RemoveConnection E st pid sub)) k =
    (case sessions st k of
       None \<Rightarrow> None
     | Some s \<Rightarrow>
         let m = MatchmakeSession s; rest = filter (\<lambda>p. p \<noteq> pid) (Participants s) in
         if pid \<notin> set (Participants s) then Some s
         else if OwnerPID m = pid then None
         else Some (s\<lparr>Participants := rest,
                MatchmakeSession := m\<lparr>ParticipationCount := of_nat (length rest),
                  HostPID := (if HostPID m = pid then OwnerPID m else HostPID m)\<rparr>\<rparr>))"
proof (cases "sessions st k")
  case (Some s)
  then have "OwnerPID (MatchmakeSession s) \<in> set (Participants s)"
    using store_invD [OF assms(2)] by (simp add: session_ok_def)
  then have "OwnerPID (MatchmakeSession s) \<noteq> pid \<Longrightarrow> filter (\<lambda>p. p \<noteq> pid) (Participants s) \<noteq> []"
    by (auto simp: filter_empty_conv)
  with Some show ?thesis
    by (auto simp: RemoveConnection_def RemoveConnectionLocked_eq [OF assms] after_leave_def Let_def
        with_players_def)
qed (simp add: RemoveConnection_def RemoveConnectionLocked_eq [OF assms])

theorem RemoveConnection_sessions_witness:
  "map_option (\<lambda>s. (Participants s, HostPID (MatchmakeSession s)))
     (sessions (fst (RemoveConnection example_env example_store 8 Disconnect)) 1) = Some ([7, 9], 7)"
  using RemoveConnection_sessions [OF example_env_ok example_store_inv, of 8 Disconnect 1]
  by (simp add: example_store_def example_lobby_def example_match_def Let_def)

lemma RemoveDuplicates_filter_nonempty:
  "q \<in> set xs \<Longrightarrow> q \<noteq> p \<Longrightarrow> RemoveDuplicates (filter (\<lambda>x. x \<noteq> p) xs) \<noteq> []"
  by (auto simp: filter_empty_conv)

text \<open>C39: every player left behind in a gathering is told that the console is gone and how many
  participants remain, and nobody else is told anything.\<close>

theorem RemoveConnection_notifies:
  assumes "env_ok E" and "store_inv st" and "storeEndpoint E" and "sessions st k = Some s"
  shows "(\<exists>ev targets. (ev, targets) \<in> set (snd (RemoveConnection E st pid sub)) \<and>
        q \<in> set targets \<and> Param1 ev = ucast k \<and> Param2 ev = pid \<and>
        Type ev = Build (proto E) (CatParticipationEvent sub) \<and>
        Param3 ev = ucast (of_nat (length (filter (\<lambda>p. p \<noteq> pid) (Participants s))) :: u32))
    \<longleftrightarrow> pid \<in> set (Participants s) \<and> q \<in> set (Participants s) \<and> q \<noteq> pid"
proof -
  let ?rest = "\<lambda>r. filter (\<lambda>p. p \<noteq> pid) (Participants r)"
  let ?ev = "\<lambda>j r. (NewNotificationEvent (proto E))
          \<lparr>PIDSource := pid, Type := Build (proto E) (CatParticipationEvent sub),
           Param1 := ucast j, Param2 := pid, StrParam := [],
           Param3 := ucast (of_nat (length (?rest r)) :: u32)\<rparr>"
  have "leave_notes E r pid sub [] = (if pid \<in> set (Participants r) \<and> ?rest r \<noteq> [] then
      [(?ev j r, RemoveDuplicates (?rest r))] else [])" if "sessions st j = Some r" for j r
    using store_invD [OF assms(2) that] assms(3)
    by (simp add: session_ok_def leave_notes_def notifyParticipation_def Let_def)
  then have sent: "(ev, targets) \<in> set (snd (RemoveConnection E st pid sub)) \<longleftrightarrow>
      (\<exists>j r. sessions st j = Some r \<and> pid \<in> set (Participants r) \<and> ?rest r \<noteq> [] \<and>
         ev = ?ev j r \<and> targets = RemoveDuplicates (?rest r))" for ev targets
    using set_AllLocked [OF assms(1,2), of 0]
    by (fastforce simp: RemoveConnection_def RemoveConnectionLocked_eq [OF assms(1,2)] split: if_splits)
  show ?thesis (is "?L \<longleftrightarrow> ?R")
  proof
    assume ?L
    then obtain ev j r where r: "sessions st j = Some r" "pid \<in> set (Participants r)"
      "q \<in> set (RemoveDuplicates (?rest r))" and ev: "ev = ?ev j r" "Param1 ev = ucast k"
      unfolding sent by blast
    from ev have "ucast j = (ucast k :: u64)" by simp
    with r show ?R using assms(4) by (auto simp: ucast_u32_u64_eq)
  next
    assume ?R
    then have "q \<in> set (?rest s)" by simp
    then have "(?ev k s, RemoveDuplicates (?rest s)) \<in> set (snd (RemoveConnection E st pid sub)) \<and>
        q \<in> set (RemoveDuplicates (?rest s))"
      unfolding sent using \<open>?R\<close> assms(4) by (metis empty_iff empty_set set_RemoveDuplicates)
    then show ?L by (intro exI [of _ "?ev k s"] exI [of _ "RemoveDuplicates (?rest s)"]) simp
  qed
qed

theorem RemoveConnection_notifies_witness:
  "\<exists>ev targets. (ev, targets) \<in> set (snd (RemoveConnection example_env example_store 8 Disconnect)) \<and>
     9 \<in> set targets \<and> Param1 ev = 1 \<and> Param2 ev = 8 \<and> Param3 ev = 2"
  using RemoveConnection_notifies [OF example_env_ok example_store_inv, of 1 example_lobby 8 Disconnect 9]
  by (simp add: example_store_def example_lobby_def example_env_def) metis

subsection \<open>Creating lobbies and automatic matchmaking\<close>

text \<open>C20: creating a lobby from a valid description with room for the party succeeds: the caller is
  its owner, host and only participant, gets the new ID and key, and is in no other gathering.\<close>

theorem create_puts_caller_in_one_lobby:
  assumes "env_ok E" and "store_inv st" and "CheckValidMatchmakeSession m" and "length msg \<le> 256"
    and "MaximumParticipants m = 0 \<or> (if v = 0 then 1 else v) \<le> MaximumParticipants m"
  shows "\<exists>st' ns s.
    createMatchmakeSession E st pid callID None
      (Some (GatheringObject ''MatchmakeSession'' (Some m))) msg v =
    (st', ns, Inr (respond ''matchmakeextension.ProtocolID'' ''MethodCreateMatchmakeSession'' callID
       (WU32 (nextGatheringID st) #
        (if MatchMaking_GE_3_0_0 E then [WBuffer (session_key E)] else [])))) \<and>
    sessions st' (nextGatheringID st) = Some s \<and>
    Participants s = replicate (if v = 0 then 1 else unat v) pid \<and>
    OwnerPID (MatchmakeSession s) = pid \<and> HostPID (MatchmakeSession s) = pid \<and>
    (\<forall>k. member_of st' pid k \<longleftrightarrow> k = nextGatheringID st)"
proof -
  have room: "room_for m v" using assms(5) by (simp add: room_for_def players_def)
  have party: "unat (players v) = (if v = 0 then 1 else unat v)" by (simp add: players_def)
  show ?thesis
    by (rule createMatchmakeSession_outcome [OF assms(1-4) room, of pid callID],
        unfold party) blast
qed

theorem create_puts_caller_in_one_lobby_witness:
  "\<exists>st' ns r. createMatchmakeSession example_env example_store 9 3 None
      (Some (GatheringObject ''MatchmakeSession'' (Some example_match))) [] 1 = (st', ns, r) \<and>
    member_of st' 9 2 \<and> \<not> member_of st' 9 1"
proof -
  have "length [] \<le> 256" and "MaximumParticipants example_match = 0 \<or>
      (if (1 :: u16) = 0 then 1 else 1) \<le> MaximumParticipants example_match"
    and two: "nextGatheringID example_store = 2"
    by (simp_all add: example_match_def example_store_def)
  note create_puts_caller_in_one_lobby [OF example_env_ok example_store_inv example_match_valid this(1,2),
      of 9 3, unfolded two]
  moreover have "(1 :: u32) \<noteq> 2" by simp
  ultimately show ?thesis by blast
qed

text \<open>C21: automatic matchmaking with a valid description never fails: whatever the criteria, the
  caller ends up in exactly one gathering, which the response describes.\<close>

theorem autoMatchmake_always_places:
  assumes "env_ok E" and "store_inv st" and "CheckValidMatchmakeSession m"
    and "\<forall>k s. sessions st k = Some s \<longrightarrow> length (Participants s) + 2 ^ 16 \<le> 2 ^ 32 - 1"
  shows "\<exists>st' ns s gid.
    autoMatchmake E st pid callID cs m msg mid =
      (st', ns, Inr (respond ''matchmakeextension.ProtocolID'' mid callID
         [WStruct (SGatheringHolder (MatchmakeSession s))])) \<and>
    sessions st' gid = Some s \<and> ID (MatchmakeSession s) = gid \<and>
    (\<forall>k. member_of st' pid k \<longleftrightarrow> k = gid)"
proof -
  have "counts_fit_auto st" using assms(4) by (simp add: counts_fit_auto_def)
  then show ?thesis
    by (rule autoMatchmake_outcome [OF assms(1-3)]) blast
qed

theorem autoMatchmake_always_places_witness:
  "\<exists>st' ns (s :: session) gid.
    autoMatchmake example_env example_store 5 3 [] example_match [] ''m'' =
      (st', ns, Inr (respond ''matchmakeextension.ProtocolID'' ''m'' 3
         [WStruct (SGatheringHolder (MatchmakeSession s))])) \<and> member_of st' 5 gid"
proof -
  have "\<forall>k s. sessions example_store k = Some s \<longrightarrow> length (Participants s) + 2 ^ 16 \<le> 2 ^ 32 - 1"
    by (simp add: example_store_def example_lobby_def)
  from autoMatchmake_always_places [OF example_env_ok example_store_inv example_match_valid this,
      where pid = 5 and callID = 3 and cs = "[]" and msg = "[]" and mid = "''m''"]
  show ?thesis by blast
qed

text \<open>C22: no response discloses the session key or the password of a gathering its caller is not a
  participant of, whatever was asked.\<close>

theorem responses_keep_secrets:
  assumes "env_ok E" and "store_inv st" and "handle E st p c e rq = (st', ns, Inr resp)"
    and "w \<in> set (Body resp)"
  shows "(\<forall>f \<in> set (wire_structs w). \<forall>m. shown_session f = Some m \<longrightarrow>
       SessionKey m = [] \<and> UserPassword m = [] \<or> member_of st' p (ID m)) \<and>
    (\<forall>b \<in> set (wire_buffers w). \<exists>k s. sessions st' k = Some s \<and> p \<in> set (Participants s) \<and>
       b = SessionKey (MatchmakeSession s))"
  using handle_secret [OF assms(1,2), of p c e rq] assms(3,4)
  by (simp add: keeps_secrets_def secret_result_def)

theorem responses_keep_secrets_witness:
  "SessionKey (publicCopy (MatchmakeSession example_lobby)) = [] \<or> member_of example_store 5 1"
proof -
  let ?m = "publicCopy (MatchmakeSession example_lobby)"
  have "handle example_env example_store 5 0 None
      (ExtensionRequest (FindMatchmakeSessionBySingleGatheringID 1)) =
    (example_store, [], Inr (respond MMX ''MethodFindMatchmakeSessionBySingleGatheringID'' 0
       [WStruct (SMatchmakeSession ?m)]))"
    by (simp add: findMatchmakeSessionBySingleGatheringID_def GetLocked_def example_store_def)
  from responses_keep_secrets [OF example_env_ok example_store_inv this, of "WStruct (SMatchmakeSession ?m)"]
  show ?thesis by (auto simp: publicCopy_def example_lobby_def example_match_def)
qed

text \<open>The two join routes disagree on passwords: a gathering with a password rejects every
  JoinMatchmakeSession, and admits the same player through MatchMaking's Participate.\<close>

theorem password_guards_only_one_route:
  assumes "sessions st gid = Some s" and "UserPasswordEnabled (MatchmakeSession s)"
    and "CanJoin E pid s = None" and "pid \<notin> set (Participants s)"
    and "length (Participants s) + 2 ^ 16 \<le> 2 ^ 32"
    and "MaximumParticipants (MatchmakeSession s) = 0 \<or>
      length (Participants s) < unat (MaximumParticipants (MatchmakeSession s))"
    and "length msg \<le> 256"
  shows "joinMatchmakeSession E st pid callID None gid msg =
      (st, [], Inl (NewError RendezVous_PermissionDenied ''Gathering is password protected'')) \<and>
    member_of (fst (participate E st pid callID None gid msg)) pid gid"
proof -
  have "\<not> full_for s 1" using full_for_iff [OF assms(5), of 1] assms(6) by (auto simp: players_def)
  then show ?thesis
    using assms(1-4,7) players_pos [of 1]
    by (simp add: joinMatchmakeSession_def join_session_def participate_def GetLocked_def
        maxMessageLength_def reject_def JoinLocked_eq member_of_put)
qed

definition example_locked :: store where
  "example_locked = example_store\<lparr>sessions := [1 \<mapsto> example_lobby\<lparr>MatchmakeSession :=
     (MatchmakeSession example_lobby)\<lparr>UserPassword := ''pw'', UserPasswordEnabled := True\<rparr>\<rparr>]\<rparr>"

theorem password_guards_only_one_route_witness:
  "member_of (fst (participate example_env example_locked 5 0 None 1 [])) 5 1"
  using password_guards_only_one_route [of example_locked 1 "example_lobby\<lparr>MatchmakeSession :=
     (MatchmakeSession example_lobby)\<lparr>UserPassword := ''pw'', UserPasswordEnabled := True\<rparr>\<rparr>"
     example_env 5 "[]" 0]
  by (simp add: example_locked_def example_store_def example_lobby_def example_match_def CanJoin_def)

text \<open>An invalid description is refused by UpdateMatchmakeSession but stored by the older
  UpdateGathering, which makes the stored session invalid.\<close>

theorem updateGathering_stores_unchecked:
  assumes "sessions st (ID m) = Some s" and "OwnerPID (MatchmakeSession s) = pid"
    and "\<not> CheckValidMatchmakeSession m" and "length (SessionKey m) \<le> 512"
  shows "updateMatchmakeSession st pid callID None
       (Some (GatheringObject ''MatchmakeSession'' (Some m))) =
      (st, [], Inl (invalidArgument None)) \<and>
    (\<exists>s'. sessions (fst (updateGathering st pid callID None
         (Some (GatheringObject ''MatchmakeSession'' (Some m))))) (ID m) = Some s' \<and>
       \<not> CheckValidMatchmakeSession (MatchmakeSession s'))"
proof -
  have "sessions (fst (updateGathering st pid callID None
      (Some (GatheringObject ''MatchmakeSession'' (Some m))))) (ID m) =
    Some (set_mm s (with_identity s m))"
    using assms(1,2) by (simp add: updateGathering_def sessionFromHolder_def ownedSession_def
        GetLocked_def put_session_eq)
  moreover have "\<not> CheckValidMatchmakeSession (with_identity s m)"
    using assms(3,4) by (auto simp: CheckValidMatchmakeSession_iff with_identity_def Let_def)
  ultimately show ?thesis
    using assms(3) by (simp add: updateMatchmakeSession_def sessionFromHolder_def reject_def)
qed

theorem updateGathering_stores_unchecked_witness:
  "\<exists>s'. sessions (fst (updateGathering example_store 7 0 None
     (Some (GatheringObject ''MatchmakeSession''
        (Some (example_match\<lparr>ID := 1, ProgressScore := 101\<rparr>)))))) 1 = Some s' \<and>
     \<not> CheckValidMatchmakeSession (MatchmakeSession s')"
  using updateGathering_stores_unchecked [of example_store "example_match\<lparr>ID := 1, ProgressScore := 101\<rparr>"
      example_lobby 7 0]
  by (simp add: example_store_def example_lobby_def example_match_def CheckValidMatchmakeSession_iff)

end
