(* ===== verification/MMQueries.thy ===== *)
theory MMQueries
  imports MMTheorems
begin

text \<open>
  The properties of what players ask the matchmaking server: searching and ordering lobbies, the
  constraint language, published notification data, and batches of gatherings to destroy.
\<close>

subsection \<open>Search\<close>


definition example_criteria :: search_criteria where
  "example_criteria =
     \<lparr>Attribs = [[], ''5'', ''0,3'', [], [], []], sc_GameMode = ''2'', sc_MinParticipants = [],
      sc_MaxParticipants = [], sc_MatchmakeSystemType = [], VacantOnly = True, ExcludeLocked = True,
      ExcludeNonHostPID = False, SelectionMethod = NearestNeighbor, VacantParticipants = 1\<rparr>"

lemma example_constraints:
  "parseConstraint [] = (no_constraint, False, True)"
  "parseConstraint ''2'' = (\<lparr>rc_min = 2, rc_max = 2\<rparr>, True, True)"
  "parseConstraint ''0,3'' = (\<lparr>rc_min = 0, rc_max = 3\<rparr>, True, True)"
proof -
  have digits: "FormatUint 2 = ''2''" "FormatUint 0 = ''0''" "FormatUint 3 = ''3''" by code_simp+
  show "parseConstraint [] = (no_constraint, False, True)" by (simp add: parseConstraint_def)
  show "parseConstraint ''2'' = (\<lparr>rc_min = 2, rc_max = 2\<rparr>, True, True)"
    using parseConstraint_exact [of 2, unfolded digits] by simp
  show "parseConstraint ''0,3'' = (\<lparr>rc_min = 0, rc_max = 3\<rparr>, True, True)"
    using parseConstraint_between [of 0 3, unfolded digits] by simp
qed

lemma example_search:
  "Search example_env 0 example_store 5 [example_criteria] \<lparr>Offset = 0, Length = 10\<rparr> None
     \<lparr>AutoMatchmake = True, ExcludeOwnerPID = 5, AllowPublic = True\<rparr> = [(1, example_lobby)]"
proof -
  let ?opts = "\<lparr>AutoMatchmake = True, ExcludeOwnerPID = 5, AllowPublic = True\<rparr>"
  let ?c = "with_auto ?opts example_criteria"
  have pc: "parse_criteria ?c = Some \<lparr>pc_attribs = [(no_constraint, False), (no_constraint, False),
      (\<lparr>rc_min = 0, rc_max = 3\<rparr>, True), (no_constraint, False), (no_constraint, False),
      (no_constraint, False)], pc_max = (no_constraint, False), pc_min = (no_constraint, False),
      pc_mode = (\<lparr>rc_min = 2, rc_max = 2\<rparr>, True), pc_system = (no_constraint, False), pc_vacant = 1\<rparr>"
    by (simp add: parse_criteria_def with_auto_def example_criteria_def example_constraints)
  have all: "AllLocked example_env 0 example_store = [(1, example_lobby)]"
    by (simp add: AllLocked_def example_env_def example_store_def)
  have "matchCriteria example_env 0 example_store ?c fl ?opts = Some [(1, example_lobby)]" for fl
    unfolding matchCriteria_def pc option.case all
    by (simp add: accepts_iff Let_def with_auto_def example_criteria_def example_lobby_def
        example_match_def fails_def rc_contains_def Participation_Count_def)
  moreover have "length (sortSessions [(1 :: u32, example_lobby)] ?c None) = 1"
    using mset_sortSessions by (metis One_nat_def length_Cons list.size(3) size_mset)
  moreover have "sortSessions [(1, example_lobby)] ?c None = [(1, example_lobby)]"
    by (simp add: sortSessions_def with_auto_def example_criteria_def)
  ultimately show ?thesis
    by (simp add: Search_def Let_def search_loop_single)
qed


text \<open>The results are the matches in the order of the criteria's selection method: nearest
  reference attribute, nearest progress score, nearest sum of both, or fullest first; ordering only
  permutes them.\<close>

theorem sortSessions_orders:
  "mset (sortSessions xs c source) = mset xs \<and>
   (case SelectionMethod c of
      NearestNeighbor \<Rightarrow>
        sorted (map (\<lambda>(k, s). distanceTo (referenceAttribute c) (attributeOf s)) (sortSessions xs c source))
    | BroadenRange \<Rightarrow>
        sorted (map (\<lambda>(k, s). distanceTo (referenceAttribute c) (attributeOf s)) (sortSessions xs c source))
    | SelectProgressScore \<Rightarrow>
        (case source of None \<Rightarrow> sortSessions xs c source = xs
         | Some m \<Rightarrow> sorted (map (\<lambda>(k, s). progressDistance (ucast (ProgressScore m)) s)
                              (sortSessions xs c source)))
    | BroadenRangeWithProgressScore \<Rightarrow>
        (case source of None \<Rightarrow> sortSessions xs c source = xs
         | Some m \<Rightarrow> sorted (map (\<lambda>(k, s). distanceTo (referenceAttribute c) (attributeOf s) +
                                progressDistance (ucast (ProgressScore m)) s) (sortSessions xs c source)))
    | OtherSelectionMethod v \<Rightarrow>
        sorted (map (\<lambda>(k, s). - uint (Participation_Count s)) (sortSessions xs c source)))"
  using by_near.sorted_by_key by_progress.sorted_by_key by_near_and_progress.sorted_by_key
    by_fullness.sorted_by_key
  by (simp add: sortSessions_def Let_def fullness_order case_prod_unfold
      split: selection_method.split option.split)

text \<open>C40: the plain automatic matchmaker picks an eligible lobby whenever there is one, and none of the
  eligible lobbies is nearer to the wanted attribute 1 than the one it picks.\<close>

theorem FindSession_nearest:
  assumes "env_ok E" and "store_inv st"
  shows "case FindSession E n st pid wanted True of
      None \<Rightarrow> \<forall>k s. sessions st k = Some s \<longrightarrow> \<not> eligible (friend_list E pid) wanted s
    | Some (k, s) \<Rightarrow> sessions st k = Some s \<and> eligible (friend_list E pid) wanted s \<and>
        (\<forall>k' s'. sessions st k' = Some s' \<and> eligible (friend_list E pid) wanted s' \<longrightarrow>
           attribute_distance wanted s \<le> attribute_distance wanted s')"
proof (cases "FindSession E n st pid wanted True")
  case None
  then show ?thesis using FindSession_None [OF assms, of n pid wanted] by simp
next
  case (Some ks)
  obtain k s where ks: "ks = (k, s)" by (cases ks)
  note found = FindSession_Some [OF assms Some [unfolded ks]]
  have "\<forall>k' s'. sessions st k' = Some s' \<and> eligible (friend_list E pid) wanted s' \<longrightarrow>
      attribute_distance wanted s \<le> attribute_distance wanted s'" using found(3) by blast
  then show ?thesis using found(1,2) Some ks by simp
qed

theorem FindSession_nearest_witness:
  "FindSession example_env 0 example_store 5 (MatchmakeSession example_lobby) True \<noteq> None"
proof
  assume none: "FindSession example_env 0 example_store 5 (MatchmakeSession example_lobby) True = None"
  have "eligible (friend_list example_env 5) (MatchmakeSession example_lobby) example_lobby"
    by (simp add: eligible_iff Let_def matchedAttributes_iff example_lobby_def example_match_def
        Participation_Count_def)
  moreover have "sessions example_store 1 = Some example_lobby" by (simp add: example_store_def)
  ultimately show False
    using FindSession_nearest [OF example_env_ok example_store_inv, where n = 0 and pid = 5 and
        wanted = "MatchmakeSession example_lobby"] none by simp
qed

text \<open>A constraint string means what the protocol says: empty is no constraint, "n" is exactly n
  and "a,b" is the closed range from a to b; every parsed bound fits 32 bits.\<close>

theorem parseConstraint_meaning:
  assumes "a < 2 ^ 32" and "b < 2 ^ 32"
  shows "parseConstraint [] = (no_constraint, False, True) \<and>
    parseConstraint (FormatUint a) = (\<lparr>rc_min = of_nat a, rc_max = of_nat a\<rparr>, True, True) \<and>
    parseConstraint (FormatUint a @ '','' @ FormatUint b) =
      (\<lparr>rc_min = of_nat a, rc_max = of_nat b\<rparr>, True, True) \<and>
    (\<forall>v :: u32. rc_contains \<lparr>rc_min = of_nat a, rc_max = of_nat b\<rparr> (ucast v) \<longleftrightarrow>
       a \<le> unat v \<and> unat v \<le> b)"
proof -
  have "unat (of_nat a :: u64) = a" "unat (of_nat b :: u64) = b"
    using assms by (auto simp: of_nat_inverse)
  then have "rc_contains \<lparr>rc_min = of_nat a, rc_max = of_nat b\<rparr> (ucast v) \<longleftrightarrow>
      a \<le> unat v \<and> unat v \<le> b" for v :: u32
    by (simp add: rc_contains_def word_le_nat_alt unat_u32_u64)
  moreover have "parseConstraint [] = (no_constraint, False, True)" by (simp add: parseConstraint_def)
  ultimately show ?thesis
    using parseConstraint_exact [OF assms(1)] parseConstraint_between [OF assms] by simp
qed

theorem parseConstraint_meaning_witness:
  "parseConstraint ''1,10'' = (\<lparr>rc_min = 1, rc_max = 10\<rparr>, True, True)"
proof -
  have one: "FormatUint 1 = ''1''" and ten: "FormatUint 10 = ''10''" by code_simp+
  show ?thesis using parseConstraint_meaning [of 1 10] unfolding one ten by simp
qed

subsection \<open>Notification data\<close>

lemma friendNotificationData_member:
  assumes "env_ok E" and "notes_ok st" and "q \<in> set (friend_list E p)"
    and "notificationData st (ucast q) = Some m" and "m t = Some ev"
    and "c \<in> set cats" and "t div 1000 = c \<or> t = c"
  shows "ev \<in> set (friendNotificationData E st p cats)"
proof -
  have "visits_all (eventOrder E)" "finite (dom m)"
    using assms(1,2,4) by (auto simp: env_ok_def notes_ok_def)
  then have "(t, ev) \<in> set (range_map m (eventOrder E (dom m)))"
    using range_map_visits_all(1) assms(5) by fastforce
  then show ?thesis
    using assms(3,4,6,7)
    by (force simp: friendNotificationData_def NotificationDataForPIDs_def)
qed

lemma friendNotificationData_source:
  assumes "env_ok E" and "notes_ok st" and "ev \<in> set (friendNotificationData E st p cats)"
  shows "PIDSource ev \<in> ucast ` set (friend_list E p) \<and>
    (Type ev div 1000 \<in> set cats \<or> Type ev \<in> set cats)"
proof -
  obtain q m c t where q: "q \<in> set (friend_list E p)" "notificationData st (ucast q) = Some m"
    and c: "c \<in> set cats" "t div 1000 = c \<or> t = c"
    and ev: "(t, ev) \<in> set (range_map m (eventOrder E (dom m)))"
    using assms(3) unfolding friendNotificationData_def NotificationDataForPIDs_def
    by (clarsimp split: option.splits) (drule sym, blast)
  then have "Type ev = t \<and> PIDSource ev = ucast q"
    using assms(2) by (auto simp: notes_ok_def set_range_map)
  then show ?thesis using q c by auto
qed

text \<open>What a player publishes is read back by those who have it as a friend, and a player reads
  back only what its friends published, in the categories it asked for.\<close>

theorem notification_data_roundtrip:
  assumes "env_ok E" and "(mm_step V)\<^sup>*\<^sup>* NewStore st"
    and "101 \<le> t" and "t \<le> 108" and "RuneCountInString z \<le> 256"
    and "Build (proto E) (CatCode t) div 1000 = t"
    and "ucast (ucast p :: u32) = p" and "ucast p \<in> set (friend_list E q)"
  shows "let st' = fst (updateNotificationData E st p callID None t a b z);
      read = friendNotificationData E st' q [t] in
    (\<exists>ev \<in> set read. PIDSource ev = p \<and> Param1 ev = a \<and> Param2 ev = b \<and> StrParam ev = z) \<and>
    (\<forall>ev \<in> set read. PIDSource ev \<in> ucast ` set (friend_list E q))"
proof -
  let ?ev = "(NewNotificationEvent (proto E))
      \<lparr>PIDSource := p, Type := Build (proto E) (CatCode t), Param1 := a, Param2 := b, StrParam := z\<rparr>"
  let ?st = "SetNotificationData st p ?ev"
  have st': "fst (updateNotificationData E st p callID None t a b z) = ?st"
    using assms(3-5) by (simp add: updateNotificationData_def Let_def maxMessageLength_def not_less)
  have okay: "notes_ok st" using mm_notes.inv_reachable [OF refl assms(2)] by simp
  then have okay': "notes_ok ?st" by (rule notes_ok_publish) simp
  have "\<exists>m. notificationData ?st p = Some m \<and> m (Type ?ev) = Some ?ev"
    by (auto simp: SetNotificationData_def Let_def split: option.split)
  then obtain m where m: "notificationData ?st (ucast (ucast p :: u32)) = Some m"
    "m (Type ?ev) = Some ?ev" using assms(7) by auto
  have "?ev \<in> set (friendNotificationData E ?st q [t])"
    by (rule friendNotificationData_member [OF assms(1) okay' assms(8) m, of t])
      (simp_all add: assms(6))
  then have "\<exists>ev \<in> set (friendNotificationData E ?st q [t]).
      PIDSource ev = p \<and> Param1 ev = a \<and> Param2 ev = b \<and> StrParam ev = z"
    by (rule rev_bexI) simp
  then show ?thesis
    using friendNotificationData_source [OF assms(1) okay'] unfolding st' Let_def by blast
qed

theorem notification_data_roundtrip_witness:
  "\<exists>ev \<in> set (friendNotificationData example_env
      (fst (updateNotificationData example_env NewStore 7 0 None 101 5 6 [])) 8 [101]). PIDSource ev = 7"
proof -
  have runes: "RuneCountInString [] \<le> 256" using RuneCountInString_le [of "[]"] by simp
  have "Build (proto example_env) (CatCode 101) div 1000 = 101"
    "ucast (7 :: u64) \<in> set (friend_list example_env 8)"
    by (simp_all add: example_env_def example_proto_def friend_list_def)
  from notification_data_roundtrip [OF example_env_ok rtranclp.rtrancl_refl _ _ runes this(1) _ this(2),
      where callID = 0 and a = 5 and b = 6]
  show ?thesis unfolding Let_def by auto
qed

subsection \<open>Destroying a batch of gatherings\<close>

lemma destroyGathering_owned:
  "sessions st g = Some s \<Longrightarrow> OwnerPID (MatchmakeSession s) = pid \<Longrightarrow>
   \<exists>note. destroyGathering E st pid g = (delete_session g st, [note], None) \<and>
     Param1 (fst note) = ucast g \<and> set (snd note) = set (Participants s)"
  by (simp add: destroyGathering_def GetLocked_def)

lemma destroyGathering_refused:
  "(case sessions st g of None \<Rightarrow> True | Some s \<Rightarrow> OwnerPID (MatchmakeSession s) \<noteq> pid) \<Longrightarrow>
   \<exists>e. destroyGathering E st pid g = (st, [], Some e)"
  by (auto simp: destroyGathering_def GetLocked_def split: option.splits)

text \<open>UnregisterGatherings destroys the gatherings of the batch one by one and stops at the first
  that is missing or not the caller's: those before it stay destroyed, with their players told,
  although the call fails; those after it are untouched.\<close>

theorem unregisterGatherings_stops:
  assumes "distinct gs" and "\<forall>g \<in> set gs. \<exists>s. sessions st g = Some s \<and> OwnerPID (MatchmakeSession s) = pid"
    and "bad \<notin> set gs"
    and "case sessions st bad of None \<Rightarrow> True | Some s \<Rightarrow> OwnerPID (MatchmakeSession s) \<noteq> pid"
  shows "\<exists>st' notes e.
    unregisterGatherings E st pid callID None (gs @ bad # rest) = (st', notes, Inl e) \<and>
    (\<forall>k. sessions st' k = (if k \<in> set gs then None else sessions st k)) \<and>
    map (\<lambda>note. Param1 (fst note)) notes = map ucast gs"
proof -
  have "\<exists>st' notes e. destroy_each E st pid (gs @ bad # rest) = (st', notes, Some e) \<and>
    (\<forall>k. sessions st' k = (if k \<in> set gs then None else sessions st k)) \<and>
    map (\<lambda>note. Param1 (fst note)) notes = map ucast gs"
    using assms
  proof (induction gs arbitrary: st)
    case Nil
    then show ?case using destroyGathering_refused [OF Nil(4), of E] by auto
  next
    case (Cons g gs)
    let ?st = "delete_session g st"
    obtain s where s: "sessions st g = Some s" "OwnerPID (MatchmakeSession s) = pid"
      using Cons.prems(2) by auto
    obtain told where told: "destroyGathering E st pid g = (?st, [told], None)" "Param1 (fst told) = ucast g"
      using destroyGathering_owned [OF s] by blast
    have st: "sessions ?st k = (if k = g then None else sessions st k)" for k
      by (simp add: delete_session_def)
    have "\<forall>h \<in> set gs. \<exists>s. sessions ?st h = Some s \<and> OwnerPID (MatchmakeSession s) = pid"
      using Cons.prems(1,2) by (auto simp: st)
    moreover have "case sessions ?st bad of None \<Rightarrow> True | Some s \<Rightarrow> OwnerPID (MatchmakeSession s) \<noteq> pid"
      using Cons.prems(3,4) by (auto simp: st)
    ultimately obtain st' ns e where
      "destroy_each E ?st pid (gs @ bad # rest) = (st', ns, Some e)"
      "\<forall>k. sessions st' k = (if k \<in> set gs then None else sessions ?st k)"
      "map (\<lambda>note. Param1 (fst note)) ns = map ucast gs"
      using Cons.IH [of ?st] Cons.prems(1,3) by auto
    with told show ?case by (auto simp: st)
  qed
  then show ?thesis by (fastforce simp: unregisterGatherings_def)
qed

theorem unregisterGatherings_stops_witness:
  "\<exists>st' notes e. unregisterGatherings example_env example_store 7 0 None [1, 5, 6] = (st', notes, Inl e) \<and>
     sessions st' 1 = None"
  using unregisterGatherings_stops [of "[1]" example_store 7 5 example_env 0 "[6]"]
  by (simp add: example_store_def example_lobby_def) fastforce

end
