(* ===== verification/Config.thy ===== *)
theory Config
  imports GoStd
begin

text \<open>
  The configuration of the server: \<^verbatim>\<open>src/globals/config.go\<close>, the check of \<^verbatim>\<open>src/main.go\<close> and the friend
  list of \<^verbatim>\<open>src/globals/friends.go\<close>. The environment is a function from names to values (the empty
  string when unset); the random bytes of \<^verbatim>\<open>rand.Read\<close> are an argument.
\<close>

subsection \<open>Constants and settings\<close>

definition DefaultAccessKey :: string where "DefaultAccessKey = ''811aa39f''"

definition BuildName :: string where
  "BuildName = ''branch:origin/release/ngs/3.9.x.200x build:3_9_19_2005_0''"

definition NEXVersion :: "nat \<times> nat \<times> nat" where "NEXVersion = (3, 9, 1)"

record config =
  AuthenticationServerPort :: int
  SecureServerPort :: int
  SecureServerHost :: string
  AccessKey :: string
  KerberosPassword :: string
  AccountsFile :: string
  AccountSecret :: string
  AllowUnknownAccounts :: bool
  DataDir :: string
  cfg_AllowPublicMatchmaking :: bool
  LogPackets :: bool
  StructureHeader :: string
  StatsPort :: int

type_synonym environment = "string \<Rightarrow> string"

definition envString :: "environment \<Rightarrow> string \<Rightarrow> string \<Rightarrow> string" where
  "envString env key fallback =
     (let value = TrimSpace (env key) in if value \<noteq> [] then value else fallback)"

definition envInt :: "environment \<Rightarrow> string \<Rightarrow> int \<Rightarrow> int" where
  "envInt env key fallback =
     (let value = TrimSpace (env key) in
      if value = [] then fallback
      else case Atoi value of None \<Rightarrow> fallback | Some parsed \<Rightarrow> parsed)"

definition envBool :: "environment \<Rightarrow> string \<Rightarrow> bool \<Rightarrow> bool" where
  "envBool env key fallback =
     (let value = TrimSpace (env key) in
      if value = [] then fallback
      else let lower = ToLower value in
        if lower \<in> {''1'', ''true'', ''yes'', ''on''} then True
        else if lower \<in> {''0'', ''false'', ''no'', ''off''} then False
        else fallback)"

definition LoadConfig :: "environment \<Rightarrow> config" where
  "LoadConfig env =
     \<lparr>AuthenticationServerPort = envInt env ''FAST_AUTHENTICATION_SERVER_PORT'' 26500,
      SecureServerPort = envInt env ''FAST_SECURE_SERVER_PORT'' 26501,
      SecureServerHost = envString env ''FAST_SECURE_SERVER_HOST'' ''127.0.0.1'',
      AccessKey = envString env ''FAST_ACCESS_KEY'' DefaultAccessKey,
      KerberosPassword = envString env ''FAST_KERBEROS_PASSWORD'' ''fast-racing-neo'',
      AccountsFile = envString env ''FAST_ACCOUNTS_FILE'' [],
      AccountSecret = envString env ''FAST_ACCOUNT_SECRET'' [],
      AllowUnknownAccounts = envBool env ''FAST_ALLOW_UNKNOWN_ACCOUNTS'' True,
      DataDir = envString env ''FAST_DATA_DIR'' ''data'',
      cfg_AllowPublicMatchmaking = envBool env ''FAST_ALLOW_PUBLIC_MATCHMAKING'' True,
      LogPackets = envBool env ''FAST_LOG_PACKETS'' False,
      StructureHeader = ToLower (envString env ''FAST_STRUCTURE_HEADER'' ''on''),
      StatsPort = envInt env ''FAST_STATS_PORT'' 26502\<rparr>"

subsection \<open>The check before the servers start\<close>

datatype config_error =
    BadAuthenticationPort int
  | BadSecurePort int
  | SharedPort int
  | BadAccessKey string
  | MissingHost
  | NoRandomSecret

definition validateConfig :: "bytes option \<Rightarrow> config \<Rightarrow> config_error + config" where
  "validateConfig rand settings =
     (if AuthenticationServerPort settings < 1 \<or> AuthenticationServerPort settings > 65535
      then Inl (BadAuthenticationPort (AuthenticationServerPort settings))
      else if SecureServerPort settings < 1 \<or> SecureServerPort settings > 65535
      then Inl (BadSecurePort (SecureServerPort settings))
      else if AuthenticationServerPort settings = SecureServerPort settings
      then Inl (SharedPort (AuthenticationServerPort settings))
      else if length (AccessKey settings) \<noteq> 8 then Inl (BadAccessKey (AccessKey settings))
      else if SecureServerHost settings = [] then Inl MissingHost
      else if AccountSecret settings = [] \<and> AllowUnknownAccounts settings then
        (case rand of
           None \<Rightarrow> Inl NoRandomSecret
         | Some secret \<Rightarrow> Inr (settings\<lparr>AccountSecret := HexEncodeToString secret\<rparr>))
      else Inr settings)"

subsection \<open>Friends\<close>

text \<open>There is no friends server: nobody has friends.\<close>

definition GetUserFriendPIDs :: "u32 \<Rightarrow> u32 list" where
  "GetUserFriendPIDs pid = []"

end
