(* ===== verification/StructHeader.thy ===== *)
theory StructHeader
  imports NexCore Config "HOL-Library.Monad_Syntax"
begin

text \<open>
  The detection of structure headers (\<^verbatim>\<open>src/nexserver/structure_header.go\<close>): the walk over the bytes of a
  login request, and the decision it makes once for both servers. A slice of a byte slice that would
  reach outside of it is None, so a definition that ends in Some reads only the request. The header
  walk is a \<^verbatim>\<open>partial_function\<close>, whose result None would also be a loop that does not end.
\<close>

subsection \<open>Reading a request\<close>

definition sub :: "bytes \<Rightarrow> nat \<Rightarrow> nat \<Rightarrow> bytes option" where
  "sub bs lo hi = (if lo \<le> hi \<and> hi \<le> length bs then Some (take (hi - lo) (drop lo bs)) else None)"

text \<open>The pair of the code: the new cursor and whether the field was there.\<close>

definition skipString :: "bytes \<Rightarrow> nat \<Rightarrow> (nat \<times> bool) option" where
  "skipString data cursor =
     (if cursor + 2 > length data then Some (cursor, False)
      else do {
        field \<leftarrow> sub data cursor (cursor + 2);
        let len = of_le field; cursor' = cursor + 2 in
        if cursor' + len > length data then Some (cursor', False)
        else Some (cursor' + len, True)
      })"

fun skip_strings :: "nat \<Rightarrow> bytes \<Rightarrow> nat \<Rightarrow> (nat \<times> bool) option" where
  "skip_strings 0 data cursor = Some (cursor, True)"
| "skip_strings (Suc n) data cursor = do {
     (cursor', ok) \<leftarrow> skipString data cursor;
     if \<not> ok then Some (cursor', False) else skip_strings n data cursor'
   }"

definition skipStationURLList :: "bytes \<Rightarrow> nat \<Rightarrow> (nat \<times> bool) option" where
  "skipStationURLList data cursor =
     (if cursor + 4 > length data then Some (cursor, False)
      else do {
        field \<leftarrow> sub data cursor (cursor + 4);
        let items = of_le field; cursor' = cursor + 4 in
        if items > 64 then Some (cursor', False) else skip_strings items data cursor'
      })"

text \<open>The data holder at a cursor: its type name, two lengths and the object; None inside is \<^verbatim>\<open>false\<close>.\<close>

definition holder_object :: "bytes \<Rightarrow> nat \<Rightarrow> bytes option option" where
  "holder_object parameters cursor = do {
     (cursor1, ok) \<leftarrow> skipString parameters cursor;
     if \<not> ok then Some None
     else if cursor1 + 8 > length parameters then Some None
     else do {
       let cursor2 = cursor1 + 4;
       field \<leftarrow> sub parameters cursor2 (cursor2 + 4);
       let objectLength = of_le field; cursor3 = cursor2 + 4 in
       if cursor3 + objectLength > length parameters then Some None
       else map_option Some (sub parameters cursor3 (cursor3 + objectLength))
     }
   }"

definition loginDataObject :: "u16 \<Rightarrow> u32 \<Rightarrow> bytes \<Rightarrow> bytes option option" where
  "loginDataObject protocolID methodID parameters =
     (if protocolID = 0x0A \<and> methodID = 0x02 then do {
        (cursor, ok) \<leftarrow> skipString parameters 0;
        if \<not> ok then Some None else holder_object parameters cursor
      }
      else if protocolID = 0x0B \<and> methodID = 0x04 then do {
        (cursor, ok) \<leftarrow> skipStationURLList parameters 0;
        if \<not> ok then Some None else holder_object parameters cursor
      }
      else Some None)"

definition maxStructureVersion :: nat where "maxStructureVersion = 8"

partial_function (option) header_walk :: "bytes \<Rightarrow> nat \<Rightarrow> nat \<Rightarrow> (nat \<times> nat) option" where
  "header_walk object cursor chain =
     (if cursor + 5 \<le> length object then do {
        version \<leftarrow> sub object cursor (cursor + 1);
        field \<leftarrow> sub object (cursor + 1) (cursor + 5);
        (if of_le version > maxStructureVersion \<or> cursor + 5 + of_le field > length object
         then Some (cursor, chain)
         else header_walk object (cursor + 5 + of_le field) (chain + 1))
      }
      else Some (cursor, chain))"

definition objectHasStructureHeader :: "bytes \<Rightarrow> (bool \<times> bool) option" where
  "objectHasStructureHeader object =
     (if object = [] then Some (False, False)
      else do {
        (cursor, chain) \<leftarrow> header_walk object 0 0;
        if chain > 0 \<and> cursor = length object then Some (True, True)
        else if length object \<ge> 2 then do {
          field \<leftarrow> sub object 0 2;
          let stringLength = of_le field in
          if stringLength > 0 \<and> 2 + stringLength \<le> length object then Some (False, True)
          else Some (False, False)
        }
        else Some (False, False)
      })"

subsection \<open>The decision\<close>

text \<open>A server's setting is None while the server does not exist.\<close>

record header_state =
  structureHeaderOnce :: bool
  structureHeaderKnown :: bool
  structureHeaderInUse :: bool
  structureHeaderSource :: string
  authHeader :: "bool option"
  secureHeader :: "bool option"

definition setStructureHeader :: "bool \<Rightarrow> string \<Rightarrow> header_state \<Rightarrow> header_state" where
  "setStructureHeader useHeader reason s =
     s\<lparr>structureHeaderKnown := True, structureHeaderInUse := useHeader,
       structureHeaderSource := reason,
       authHeader := map_option (\<lambda>_. useHeader) (authHeader s),
       secureHeader := map_option (\<lambda>_. useHeader) (secureHeader s)\<rparr>"

definition applyStructureHeaderMode :: "config \<Rightarrow> header_state \<Rightarrow> header_state" where
  "applyStructureHeaderMode settings s =
     (if StructureHeader settings = ''on''
      then setStructureHeader True ''forced by FAST_STRUCTURE_HEADER=on'' s
      else if StructureHeader settings = ''off''
      then setStructureHeader False ''forced by FAST_STRUCTURE_HEADER=off'' s
      else s)"

record rmc_message =
  IsRequest :: bool
  rmc_ProtocolID :: u16
  rmc_MethodID :: u32
  Parameters :: bytes

definition detectStructureHeader ::
  "config \<Rightarrow> rmc_message option \<Rightarrow> header_state \<Rightarrow> header_state option" where
  "detectStructureHeader settings packet s =
     (if StructureHeader settings \<noteq> ''auto'' then Some s
      else if structureHeaderKnown s then Some s
      else case packet of
        None \<Rightarrow> Some s
      | Some request \<Rightarrow>
          (if \<not> IsRequest request then Some s
           else do {
             objectData \<leftarrow> loginDataObject (rmc_ProtocolID request) (rmc_MethodID request) (Parameters request);
             case objectData of
               None \<Rightarrow> Some s
             | Some object \<Rightarrow> do {
                 (useHeader, ok) \<leftarrow> objectHasStructureHeader object;
                 if \<not> ok then Some s
                 else if structureHeaderOnce s then Some s
                 else Some (setStructureHeader useHeader ''detected from the console's login data''
                        (s\<lparr>structureHeaderOnce := True\<rparr>))
               }
           }))"

subsection \<open>Nothing outside the request is read\<close>

lemma sub_Some [simp]: "lo \<le> hi \<Longrightarrow> hi \<le> length bs \<Longrightarrow> sub bs lo hi = Some (take (hi - lo) (drop lo bs))"
  by (simp add: sub_def)

lemma skipString_False:
  "\<not> (cursor + 2 \<le> length data \<and> cursor + 2 + of_le (take 2 (drop cursor data)) \<le> length data) \<Longrightarrow>
   \<exists>c. skipString data cursor = Some (c, False)"
  by (auto simp: skipString_def Let_def)

lemma skipString_True:
  "cursor + 2 \<le> length data \<Longrightarrow> cursor + 2 + of_le (take 2 (drop cursor data)) \<le> length data \<Longrightarrow>
   skipString data cursor = Some (cursor + 2 + of_le (take 2 (drop cursor data)), True)"
  by (auto simp: skipString_def Let_def)

lemma skipString_result:
  obtains c where "skipString data cursor = Some (c, False)"
  | c where "skipString data cursor = Some (c, True)" "cursor + 2 \<le> c" "c \<le> length data"
  by (metis skipString_False skipString_True le_add1)

lemma skip_strings_result:
  "cursor \<le> length data \<Longrightarrow>
   (\<exists>c. skip_strings n data cursor = Some (c, False)) \<or>
   (\<exists>c. skip_strings n data cursor = Some (c, True) \<and> cursor \<le> c \<and> c \<le> length data)"
proof (induction n arbitrary: cursor)
  case (Suc n)
  show ?case
  proof (cases rule: skipString_result [of data cursor])
    case (2 c)
    then show ?thesis using Suc.IH [of c] by fastforce
  qed simp
qed simp

lemma skipStationURLList_result:
  obtains c where "skipStationURLList data cursor = Some (c, False)"
  | c where "skipStationURLList data cursor = Some (c, True)" "c \<le> length data"
proof -
  let ?n = "of_le (take 4 (drop cursor data))"
  consider "cursor + 4 > length data \<or> ?n > 64" | "cursor + 4 \<le> length data" "?n \<le> 64" by linarith
  then have "(\<exists>c. skipStationURLList data cursor = Some (c, False)) \<or>
    (\<exists>c. skipStationURLList data cursor = Some (c, True) \<and> c \<le> length data)"
  proof cases
    case 1
    then show ?thesis by (cases "cursor + 4 > length data") (simp_all add: skipStationURLList_def Let_def)
  next
    case 2
    then show ?thesis using skip_strings_result [of "cursor + 4" data ?n]
      by (auto simp: skipStationURLList_def Let_def)
  qed
  then show thesis using that by blast
qed

lemma holder_object_result: "holder_object parameters cursor \<noteq> None"
  by (cases rule: skipString_result [of parameters cursor]) (simp_all add: holder_object_def Let_def)

lemma loginDataObject_result: "\<exists>r. loginDataObject p m parameters = Some r"
proof -
  have names: "(skipString parameters 0 \<bind> (\<lambda>(cursor, ok). if \<not> ok then Some None
      else holder_object parameters cursor)) \<noteq> None"
    by (cases rule: skipString_result [of parameters 0]) (simp_all add: holder_object_result)
  have urls: "(skipStationURLList parameters 0 \<bind> (\<lambda>(cursor, ok). if \<not> ok then Some None
      else holder_object parameters cursor)) \<noteq> None"
    by (cases rule: skipStationURLList_result [of parameters 0]) (simp_all add: holder_object_result)
  show ?thesis using names urls by (simp add: loginDataObject_def)
qed

text \<open>Every turn of the walk consumes five bytes at least.\<close>

definition header_fits :: "bytes \<Rightarrow> nat \<Rightarrow> bool" where
  "header_fits object cursor \<longleftrightarrow> cursor + 5 \<le> length object \<and>
     of_le (take 1 (drop cursor object)) \<le> maxStructureVersion \<and>
     cursor + 5 + of_le (take 4 (drop (cursor + 1) object)) \<le> length object"

lemma header_walk_step:
  "header_fits object cursor \<Longrightarrow>
   header_walk object cursor chain =
     header_walk object (cursor + 5 + of_le (take 4 (drop (cursor + 1) object))) (chain + 1)"
  by (subst header_walk.simps) (simp add: header_fits_def)

lemma header_walk_stop:
  "\<not> header_fits object cursor \<Longrightarrow> header_walk object cursor chain = Some (cursor, chain)"
  by (subst header_walk.simps) (auto simp: header_fits_def)

lemma header_walk_result:
  "cursor \<le> length object \<Longrightarrow>
   \<exists>c n. header_walk object cursor chain = Some (c, n) \<and>
     chain \<le> n \<and> cursor + 5 * n \<le> c + 5 * chain \<and> c \<le> length object"
proof (induction "length object - cursor" arbitrary: cursor chain rule: less_induct)
  case less
  let ?next = "cursor + 5 + of_le (take 4 (drop (cursor + 1) object))"
  show ?case
  proof (cases "header_fits object cursor")
    case True
    then have fits: "cursor + 5 \<le> ?next" "?next \<le> length object" "length object - ?next < length object - cursor"
      by (auto simp: header_fits_def)
    obtain c n where w: "header_walk object ?next (chain + 1) = Some (c, n)"
      "chain + 1 \<le> n" "?next + 5 * n \<le> c + 5 * (chain + 1)" "c \<le> length object"
      using less.hyps [OF fits(3) fits(2), of "chain + 1"] by blast
    have le: "chain \<le> n" using w(2) by simp
    have "cursor + 5 * n \<le> c + 5 * chain" using w(3) fits(1) by (simp add: add.commute)
    then show ?thesis using header_walk_step [OF True, of chain] w(1,4) le by metis
  next
    case False
    then show ?thesis using less.prems by (simp add: header_walk_stop)
  qed
qed

lemma objectHasStructureHeader_result: "\<exists>h ok. objectHasStructureHeader object = Some (h, ok)"
proof -
  obtain c n where "header_walk object 0 0 = Some (c, n)"
    using header_walk_result [of 0 object 0] by auto
  then show ?thesis by (cases "object = []") (auto simp: objectHasStructureHeader_def Let_def)
qed

lemma detectStructureHeader_cases:
  obtains (kept) "detectStructureHeader settings packet s = Some s"
  | (set) h where "detectStructureHeader settings packet s =
      Some (setStructureHeader h ''detected from the console's login data'' (s\<lparr>structureHeaderOnce := True\<rparr>))"
    "\<not> structureHeaderKnown s" "\<not> structureHeaderOnce s" "StructureHeader settings = ''auto''"
proof (cases "StructureHeader settings = ''auto'' \<and> \<not> structureHeaderKnown s \<and> packet \<noteq> None \<and> IsRequest (the packet)")
  case True
  then obtain r where packet: "packet = Some r" "IsRequest r" by auto
  obtain ob where login: "loginDataObject (rmc_ProtocolID r) (rmc_MethodID r) (Parameters r) = Some ob"
    using loginDataObject_result by blast
  note eq = detectStructureHeader_def [of settings packet s, unfolded packet option.case]
  show thesis
  proof (cases ob)
    case None
    then show thesis using kept True login packet by (simp add: eq)
  next
    case (Some object)
    obtain h ok where ob: "objectHasStructureHeader object = Some (h, ok)"
      using objectHasStructureHeader_result by blast
    show thesis
    proof (cases "ok \<and> \<not> structureHeaderOnce s")
      case True2: True
      then show thesis using set [of h] True login packet Some ob by (simp add: eq)
    next
      case False
      then show thesis using kept True login packet Some ob by (auto simp add: eq)
    qed
  qed
next
  case False
  then show thesis using kept by (cases packet) (auto simp: detectStructureHeader_def)
qed

text \<open>C37: the detection returns on every packet, whatever its bytes: the walk over the headers ends within
  the object after at most a fifth of its length in steps, no slice is taken outside of the request,
  and what is left is the old decision or, once, a new one that both servers share.\<close>

theorem detection_returns:
  "(\<exists>cursor chain. header_walk object 0 0 = Some (cursor, chain) \<and>
      5 * chain \<le> cursor \<and> cursor \<le> length object) \<and>
   detectStructureHeader settings packet s \<in>
     Some ` ({s} \<union> {setStructureHeader h ''detected from the console's login data'' (s\<lparr>structureHeaderOnce := True\<rparr>) |h.
       StructureHeader settings = ''auto'' \<and> \<not> structureHeaderKnown s \<and> \<not> structureHeaderOnce s})"
proof
  show "\<exists>cursor chain. header_walk object 0 0 = Some (cursor, chain) \<and>
      5 * chain \<le> cursor \<and> cursor \<le> length object"
    using header_walk_result [of 0 object 0] by auto
  show "detectStructureHeader settings packet s \<in>
     Some ` ({s} \<union> {setStructureHeader h ''detected from the console's login data'' (s\<lparr>structureHeaderOnce := True\<rparr>) |h.
       StructureHeader settings = ''auto'' \<and> \<not> structureHeaderKnown s \<and> \<not> structureHeaderOnce s})"
    by (cases rule: detectStructureHeader_cases [of settings packet s]) auto
qed

end
