(* ===== verification/LoginRequests.thy ===== *)
theory LoginRequests
  imports StructHeader
begin

text \<open>
  What consoles send at login, and how \<^verbatim>\<open>src/nexserver/structure_header.go\<close> reads it. The requests are
  written with the library's own encoders: strings (\<^verbatim>\<open>String.WriteTo\<close>), lists of station URLs, and the
  data holder (\<^verbatim>\<open>any_object_holder.go\<close>). The login structure and its header chain are the ones the
  comments of \<^verbatim>\<open>structure_header.go\<close> describe and its test builds.
\<close>

subsection \<open>Requests\<close>

abbreviation wire_cfg :: stream_settings where "wire_cfg \<equiv> NewByteStreamSettings"

definition data_holder :: "string \<Rightarrow> bytes \<Rightarrow> bytes" where
  "data_holder typeName object =
     write_string wire_cfg typeName @ le_bytes 4 (length object + 4) @ write_buffer object"

definition LoginEx :: "string \<Rightarrow> string \<Rightarrow> bytes \<Rightarrow> rmc_message" where
  "LoginEx userName typeName object =
     \<lparr>IsRequest = True, rmc_ProtocolID = 0x0A, rmc_MethodID = 0x02,
      Parameters = write_string wire_cfg userName @ data_holder typeName object\<rparr>"

definition RegisterEx :: "string list \<Rightarrow> string \<Rightarrow> bytes \<Rightarrow> rmc_message" where
  "RegisterEx urls typeName object =
     \<lparr>IsRequest = True, rmc_ProtocolID = 0x0B, rmc_MethodID = 0x04,
      Parameters = write_list (write_string wire_cfg) urls @ data_holder typeName object\<rparr>"

text \<open>\<^verbatim>\<open>AuthenticationInfo\<close>: a token, \<^verbatim>\<open>ngsVersion\<close>, \<^verbatim>\<open>tokenType\<close> and \<^verbatim>\<open>serverVersion\<close>.\<close>

definition AuthenticationInfo :: "string \<Rightarrow> u32 \<Rightarrow> u8 \<Rightarrow> u32 \<Rightarrow> bytes" where
  "AuthenticationInfo token ngsVersion tokenType serverVersion =
     write_string wire_cfg token @ le_bytes 4 (unat ngsVersion) @ le_bytes 1 (unat tokenType) @
     le_bytes 4 (unat serverVersion)"

text \<open>One header per class of the inheritance chain: the empty one of \<^verbatim>\<open>Data\<close>, then the content's.\<close>

definition with_headers :: "bytes \<Rightarrow> bytes" where
  "with_headers content = le_bytes 1 0 @ le_bytes 4 0 @ le_bytes 1 0 @ write_buffer content"

subsection \<open>Finding the login data\<close>

lemma length_write_string [simp]: "length (write_string wire_cfg s) = length s + 3"
  by (simp add: write_string_def NewByteStreamSettings_def Let_def)

lemma length_write_buffer [simp]: "length (write_buffer b) = length b + 4"
  by (simp add: write_buffer_def)

lemma skipString_written:
  assumes "length s + 1 < 2 ^ 16"
  shows "skipString (xs @ write_string wire_cfg s @ ys) (length xs) = Some (length xs + length s + 3, True)"
proof -
  have len: "of_le (le_bytes 2 (Suc (length s))) = Suc (length s)"
    using assms by (simp add: of_le_le_bytes)
  then show ?thesis
    by (simp add: skipString_def write_string_def NewByteStreamSettings_def Let_def)
qed

lemma skip_strings_written:
  "\<forall>s \<in> set ss. length s + 1 < 2 ^ 16 \<Longrightarrow>
   skip_strings (length ss) (xs @ concat (map (write_string wire_cfg) ss) @ ys) (length xs) =
   Some (length xs + length (concat (map (write_string wire_cfg) ss)), True)"
proof (induction ss arbitrary: xs)
  case (Cons s ss)
  have IH: "skip_strings (length ss) ((xs @ write_string wire_cfg s) @ concat (map (write_string wire_cfg) ss) @ ys)
      (length (xs @ write_string wire_cfg s)) =
    Some (length (xs @ write_string wire_cfg s) + length (concat (map (write_string wire_cfg) ss)), True)"
    by (rule Cons.IH) (use Cons.prems in simp)
  show ?case
    using IH skipString_written [of s xs "concat (map (write_string wire_cfg) ss) @ ys"] Cons.prems
    by (simp add: add.assoc)
qed simp

lemma holder_object_written:
  assumes "length typeName + 1 < 2 ^ 16" and "length object < 2 ^ 32"
  shows "holder_object (xs @ data_holder typeName object) (length xs) = Some (Some object)"
proof -
  have len: "of_le (le_bytes 4 (length object)) = length object"
    using assms(2) by (simp add: of_le_le_bytes)
  show ?thesis
    using skipString_written [OF assms(1), of xs "le_bytes 4 (length object + 4) @ write_buffer object"] len
    by (simp add: holder_object_def data_holder_def write_buffer_def Let_def)
qed

lemma loginDataObject_LoginEx:
  assumes "length userName + 1 < 2 ^ 16" and "length typeName + 1 < 2 ^ 16" and "length object < 2 ^ 32"
  shows "loginDataObject 0x0A 0x02 (Parameters (LoginEx userName typeName object)) = Some (Some object)"
  using skipString_written [OF assms(1), of "[]" "data_holder typeName object"]
    holder_object_written [OF assms(2,3), of "write_string wire_cfg userName"]
  by (simp add: loginDataObject_def LoginEx_def add.commute)

lemma loginDataObject_RegisterEx:
  assumes "\<forall>u \<in> set urls. length u + 1 < 2 ^ 16" and "length urls \<le> 64"
    and "length typeName + 1 < 2 ^ 16" and "length object < 2 ^ 32"
  shows "loginDataObject 0x0B 0x04 (Parameters (RegisterEx urls typeName object)) = Some (Some object)"
proof -
  let ?us = "write_list (write_string wire_cfg) urls"
  have "of_le (le_bytes 4 (length urls)) = length urls"
    using assms(2) by (simp add: of_le_le_bytes)
  then have "skipStationURLList (?us @ data_holder typeName object) 0 = Some (length ?us, True)"
    using skip_strings_written [OF assms(1), of "le_bytes 4 (length urls)" "data_holder typeName object"]
      assms(2)
    by (simp add: skipStationURLList_def write_list_def Let_def)
  then show ?thesis
    using holder_object_written [OF assms(3,4), of ?us]
    by (simp add: loginDataObject_def RegisterEx_def)
qed

subsection \<open>Telling the two layouts apart\<close>

lemma header_chain_detected:
  assumes "length content < 2 ^ 32"
  shows "objectHasStructureHeader (with_headers content) = Some (True, True)"
proof -
  let ?ob = "with_headers content"
  have len: "of_le (le_bytes 4 (length content)) = length content"
    using assms by (simp add: of_le_le_bytes)
  have first: "header_fits ?ob 0" "of_le (take 4 (drop (0 + 1) ?ob)) = 0"
    by (simp_all add: header_fits_def with_headers_def write_buffer_def maxStructureVersion_def
        of_le_le_bytes)
  have second: "header_fits ?ob 5" "of_le (take 4 (drop (5 + 1) ?ob)) = length content"
    using len by (simp_all add: header_fits_def with_headers_def write_buffer_def maxStructureVersion_def
        of_le_le_bytes)
  have "header_walk ?ob 0 0 = header_walk ?ob (10 + length content) 2"
    using header_walk_step [OF first(1), of 0] header_walk_step [OF second(1), of 1] first(2) second(2)
    by (simp add: numeral_2_eq_2)
  also have "\<dots> = Some (10 + length content, 2)"
    by (rule header_walk_stop) (simp add: header_fits_def with_headers_def)
  finally show ?thesis
    by (simp add: objectHasStructureHeader_def with_headers_def)
qed


text \<open>Without headers the structure starts with the token, whose length and first characters, read as a
  header, ask for more bytes than there are.\<close>

lemma byte_of_char_pos: "c \<noteq> CHR 0x00 \<Longrightarrow> 1 \<le> unat (byte_of_char c)"
proof -
  assume "c \<noteq> CHR 0x00"
  then have "(of_char c :: nat) \<noteq> 0"
    using of_char_eq_iff [of c "CHR 0x00", where ?'a = nat] by simp
  then show ?thesis by (simp add: unat_byte_of_char)
qed

lemma token_is_no_header:
  assumes "token \<noteq> []" and "CHR 0x00 \<notin> set token" and "length token + 1 < 2 ^ 16"
  shows "\<not> header_fits (AuthenticationInfo token ngs ty sv) 0"
proof
  let ?ob = "AuthenticationInfo token ngs ty sv" and ?n = "length token"
  assume fits: "header_fits ?ob 0"
  obtain c cs where token: "token = c # cs" using assms(1) by (cases token) auto
  have pos: "\<forall>d \<in> set token. 1 \<le> unat (byte_of_char d)"
    using assms(2) byte_of_char_pos by metis
  obtain r where ob: "?ob = le_bytes 2 (?n + 1) @ bytes_of_string token @ 0 # r" and r: "length r = 9"
    by (simp add: AuthenticationInfo_def write_string_def NewByteStreamSettings_def byte_of_char_def)
  obtain l hi where le: "le_bytes 2 (?n + 1) = [l, hi]" by (simp add: numeral_2_eq_2)
  have tail: "drop 1 ?ob = hi # bytes_of_string token @ 0 # r" unfolding ob le by simp
  have version: "(?n + 1) mod 256 \<le> 8"
    using fits by (simp add: header_fits_def ob maxStructureVersion_def numeral_2_eq_2 unat_of_nat)
  have size: "5 + of_le (take 4 (drop 1 ?ob)) \<le> ?n + 12"
    using fits r by (simp add: header_fits_def ob)
  show False
  proof (cases "?n < 255")
    case True
    then have "?n \<le> 7" using version by simp
    have "256 * unat (byte_of_char c) \<le> of_le (take 4 (drop 1 ?ob))"
      unfolding tail unfolding token by simp
    then show False using size pos token \<open>?n \<le> 7\<close> by simp
  next
    case False
    then obtain d e ds where cs: "cs = d # e # ds"
      using token by (cases cs; cases "tl cs") auto
    have "256 * (256 * (256 * unat (byte_of_char e))) \<le> of_le (take 4 (drop 1 ?ob))"
      unfolding tail unfolding token cs by simp
    moreover have "1 \<le> unat (byte_of_char e)" using pos token cs by simp
    moreover have "?n < 65536" using assms(3) by simp
    ultimately show False using size by linarith
  qed
qed

lemma bare_structure_detected:
  assumes "token \<noteq> []" and "CHR 0x00 \<notin> set token" and "length token + 1 < 2 ^ 16"
  shows "objectHasStructureHeader (AuthenticationInfo token ngs ty sv) = Some (False, True)"
proof -
  have "take 2 (AuthenticationInfo token ngs ty sv) = le_bytes 2 (length token + 1)"
    by (simp add: AuthenticationInfo_def write_string_def NewByteStreamSettings_def Let_def)
  moreover have "of_le (le_bytes 2 (length token + 1)) = length token + 1"
    using assms(3) by (simp add: of_le_le_bytes)
  moreover have "length (AuthenticationInfo token ngs ty sv) = length token + 12"
    by (simp add: AuthenticationInfo_def)
  moreover from this have "AuthenticationInfo token ngs ty sv \<noteq> []" by auto
  ultimately show ?thesis
    using header_walk_stop [OF token_is_no_header [OF assms, of ngs ty sv], of 0]
    by (simp add: objectHasStructureHeader_def Let_def)
qed

lemma detect_first:
  assumes "StructureHeader settings = ''auto''" and "\<not> structureHeaderKnown s" and "\<not> structureHeaderOnce s"
    and "IsRequest r" and "loginDataObject (rmc_ProtocolID r) (rmc_MethodID r) (Parameters r) = Some (Some object)"
    and "objectHasStructureHeader object = Some (h, True)"
  shows "detectStructureHeader settings (Some r) s =
    Some (setStructureHeader h ''detected from the console's login data'' (s\<lparr>structureHeaderOnce := True\<rparr>))"
  using assms by (simp add: detectStructureHeader_def)

text \<open>C29: whichever of the two layouts a console uses, its first login, by LoginEx or by RegisterEx, is
  read exactly: the server switches structure headers on if the login structure came with its header
  chain and off if it did not.\<close>

theorem login_detection_right:
  fixes h :: bool and settings :: config and s :: header_state
  assumes "StructureHeader settings = ''auto''" and "\<not> structureHeaderKnown s" and "\<not> structureHeaderOnce s"
    and "token \<noteq> []" and "CHR 0x00 \<notin> set token" and "length token + 1 < 2 ^ 16"
    and "length typeName + 1 < 2 ^ 16" and "length userName + 1 < 2 ^ 16"
    and "length urls \<le> 64" and "\<forall>u \<in> set urls. length u + 1 < 2 ^ 16"
    and "info = AuthenticationInfo token ngs ty sv" and "object = (if h then with_headers info else info)"
    and "r \<in> {LoginEx userName typeName object, RegisterEx urls typeName object}"
  shows "detectStructureHeader settings (Some r) s =
    Some (setStructureHeader h ''detected from the console's login data'' (s\<lparr>structureHeaderOnce := True\<rparr>))"
proof (rule detect_first [OF assms(1-3)])
  have short: "length info < 2 ^ 17" using assms(6,11) by (simp add: AuthenticationInfo_def)
  then have "length object < 2 ^ 32" using assms(12) by (simp add: with_headers_def)
  then show "loginDataObject (rmc_ProtocolID r) (rmc_MethodID r) (Parameters r) = Some (Some object)"
    using assms(13) loginDataObject_LoginEx [OF assms(8,7)] loginDataObject_RegisterEx [OF assms(10,9,7)]
    by (auto simp: LoginEx_def RegisterEx_def)
  show "IsRequest r" using assms(13) by (auto simp: LoginEx_def RegisterEx_def)
  show "objectHasStructureHeader object = Some (h, True)"
    using header_chain_detected [of info] short bare_structure_detected [OF assms(4-6)] assms(11,12)
    by auto
qed

definition auto_settings :: config where
  "auto_settings = (LoadConfig (\<lambda>_. []))\<lparr>StructureHeader := ''auto''\<rparr>"

definition undecided :: header_state where
  "undecided = \<lparr>structureHeaderOnce = False, structureHeaderKnown = False, structureHeaderInUse = False,
     structureHeaderSource = [], authHeader = Some True, secureHeader = Some True\<rparr>"

theorem login_detection_right_witness:
  "detectStructureHeader auto_settings
     (Some (LoginEx ''1800000001'' ''AuthenticationInfo'' (AuthenticationInfo ''ab'' 3 1 3))) undecided =
   Some (setStructureHeader False ''detected from the console's login data''
     (undecided\<lparr>structureHeaderOnce := True\<rparr>))"
  by (rule login_detection_right [where h = False and urls = "[]" and token = "''ab''"
        and userName = "''1800000001''" and typeName = "''AuthenticationInfo''"
        and ngs = 3 and ty = 1 and sv = 3
        and info = "AuthenticationInfo ''ab'' 3 1 3" and object = "AuthenticationInfo ''ab'' 3 1 3"])
    (simp_all add: auto_settings_def undecided_def)

end
