(* ===== verification/Startup.thy ===== *)
theory Startup
  imports LoginRequests
begin

text \<open>
  The two servers coming up (\<^verbatim>\<open>src/main.go\<close>, \<^verbatim>\<open>src/nexserver/authentication.go\<close> and \<^verbatim>\<open>secure.go\<close>):
  \<^verbatim>\<open>main\<close> starts both in goroutines of their own, and a third one that waits for the matchmaking store
  before it serves statistics. An event is one step of one goroutine, or a login arriving at a server
  that listens; a run is any sequence of events that can happen, so it is any interleaving. What the
  servers share is the structure-header decision. \<^verbatim>\<open>setStructureHeader\<close> holds a mutex, and the other
  goroutine's unprotected assignments to its own server are events of their own.
\<close>

subsection \<open>Events\<close>

datatype auth_pc = AuthStarting | AuthCreated | AuthDefaulted | AuthListening

datatype secure_pc = SecureStarting | SecureCreated | SecureDefaulted | SecureStoreReady | SecureListening

text \<open>A goroutine only moves forward: its positions are ordered by how far it has got.\<close>

primrec auth_rank :: "auth_pc \<Rightarrow> nat" where
  "auth_rank AuthStarting = 0"
| "auth_rank AuthCreated = 1"
| "auth_rank AuthDefaulted = 2"
| "auth_rank AuthListening = 3"

primrec secure_rank :: "secure_pc \<Rightarrow> nat" where
  "secure_rank SecureStarting = 0"
| "secure_rank SecureCreated = 1"
| "secure_rank SecureDefaulted = 2"
| "secure_rank SecureStoreReady = 3"
| "secure_rank SecureListening = 4"

lemma auth_rank_inject: "auth_rank x = auth_rank y \<Longrightarrow> x = y"
  by (cases x; cases y) simp_all

lemma secure_rank_inject: "secure_rank x = secure_rank y \<Longrightarrow> x = y"
  by (cases x; cases y) simp_all

instantiation auth_pc :: linorder
begin

definition less_eq_auth_pc :: "auth_pc \<Rightarrow> auth_pc \<Rightarrow> bool" where
  "x \<le> y \<longleftrightarrow> auth_rank x \<le> auth_rank y"

definition less_auth_pc :: "auth_pc \<Rightarrow> auth_pc \<Rightarrow> bool" where
  "x < y \<longleftrightarrow> auth_rank x < auth_rank y"

instance
  by standard (auto simp: less_eq_auth_pc_def less_auth_pc_def intro: auth_rank_inject)

end

instantiation secure_pc :: linorder
begin

definition less_eq_secure_pc :: "secure_pc \<Rightarrow> secure_pc \<Rightarrow> bool" where
  "x \<le> y \<longleftrightarrow> secure_rank x \<le> secure_rank y"

definition less_secure_pc :: "secure_pc \<Rightarrow> secure_pc \<Rightarrow> bool" where
  "x < y \<longleftrightarrow> secure_rank x < secure_rank y"

instance
  by standard (auto simp: less_eq_secure_pc_def less_secure_pc_def intro: secure_rank_inject)

end

record servers =
  header :: header_state
  auth :: auth_pc
  secure :: secure_pc
  MatchmakingAssigned :: bool
  statsServing :: bool

definition servers0 :: servers where
  "servers0 = \<lparr>header = \<lparr>structureHeaderOnce = False, structureHeaderKnown = False,
       structureHeaderInUse = False, structureHeaderSource = [], authHeader = None, secureHeader = None\<rparr>,
     auth = AuthStarting, secure = SecureStarting, MatchmakingAssigned = False, statsServing = False\<rparr>"

datatype startup_event =
    AuthStep
  | SecureStep
  | StatsStep
  | AuthLogin rmc_message
  | SecureLogin rmc_message

fun StartAuthenticationServer :: "config \<Rightarrow> servers \<Rightarrow> servers option" where
  "StartAuthenticationServer settings s =
     (case auth s of
        AuthStarting \<Rightarrow> Some (s\<lparr>auth := AuthCreated,
          header := (header s)\<lparr>authHeader := Some (UseStructureHeader NewByteStreamSettings)\<rparr>\<rparr>)
      | AuthCreated \<Rightarrow> Some (s\<lparr>auth := AuthDefaulted, header := (header s)\<lparr>authHeader := Some True\<rparr>\<rparr>)
      | AuthDefaulted \<Rightarrow> Some (s\<lparr>auth := AuthListening,
          header := applyStructureHeaderMode settings (header s)\<rparr>)
      | AuthListening \<Rightarrow> None)"

fun StartSecureServer :: "servers \<Rightarrow> servers option" where
  "StartSecureServer s =
     (case secure s of
        SecureStarting \<Rightarrow> Some (s\<lparr>secure := SecureCreated,
          header := (header s)\<lparr>secureHeader := Some (UseStructureHeader NewByteStreamSettings)\<rparr>\<rparr>)
      | SecureCreated \<Rightarrow> Some (s\<lparr>secure := SecureDefaulted, header := (header s)\<lparr>secureHeader := Some True\<rparr>\<rparr>)
      | SecureDefaulted \<Rightarrow> Some (s\<lparr>secure := SecureStoreReady, MatchmakingAssigned := True\<rparr>)
      | SecureStoreReady \<Rightarrow> Some (s\<lparr>secure := SecureListening\<rparr>)
      | SecureListening \<Rightarrow> None)"

definition StartStatsServer :: "config \<Rightarrow> servers \<Rightarrow> servers option" where
  "StartStatsServer settings s =
     (if \<not> MatchmakingAssigned s then None
      else Some (if StatsPort settings \<le> 0 then s else s\<lparr>statsServing := True\<rparr>))"

fun fire :: "config \<Rightarrow> startup_event \<Rightarrow> servers \<Rightarrow> servers option" where
  "fire settings AuthStep s = StartAuthenticationServer settings s"
| "fire settings SecureStep s = StartSecureServer s"
| "fire settings StatsStep s = StartStatsServer settings s"
| "fire settings (AuthLogin r) s =
     (if auth s \<noteq> AuthListening then None
      else map_option (\<lambda>h. s\<lparr>header := h\<rparr>) (detectStructureHeader settings (Some r) (header s)))"
| "fire settings (SecureLogin r) s =
     (if secure s \<noteq> SecureListening then None
      else map_option (\<lambda>h. s\<lparr>header := h\<rparr>) (detectStructureHeader settings (Some r) (header s)))"

fun startup_run :: "config \<Rightarrow> startup_event list \<Rightarrow> servers \<Rightarrow> servers option" where
  "startup_run settings [] s = Some s"
| "startup_run settings (e # es) s = Option.bind (fire settings e s) (startup_run settings es)"

definition both_listening :: "servers \<Rightarrow> bool" where
  "both_listening s \<longleftrightarrow> auth s = AuthListening \<and> secure s = SecureListening"

subsection \<open>Progress\<close>

lemma progress_event:
  assumes "fire settings e s = Some t"
  shows "auth s \<le> auth t \<and> secure s \<le> secure t"
proof (cases e)
  case AuthStep
  then show ?thesis using assms by (cases "auth s") (auto simp: less_eq_auth_pc_def)
next
  case SecureStep
  then show ?thesis using assms by (cases "secure s") (auto simp: less_eq_secure_pc_def)
qed (use assms in \<open>auto simp: StartStatsServer_def split: if_splits\<close>)

text \<open>The statistics are served only once the gathering store exists.\<close>

definition stats_wait :: "servers \<Rightarrow> bool" where
  "stats_wait s \<longleftrightarrow> (MatchmakingAssigned s \<longleftrightarrow> SecureStoreReady \<le> secure s) \<and>
     (statsServing s \<longrightarrow> MatchmakingAssigned s)"

lemma stats_wait_event:
  assumes "stats_wait s" and "fire settings e s = Some t"
  shows "stats_wait t"
proof (cases e)
  case AuthStep
  then show ?thesis using assms by (cases "auth s") (auto simp: stats_wait_def)
next
  case SecureStep
  then show ?thesis using assms by (cases "secure s") (auto simp: stats_wait_def less_eq_secure_pc_def)
qed (use assms in \<open>auto simp: stats_wait_def StartStatsServer_def split: if_splits\<close>)

lemma startup_run_append:
  "startup_run settings (es @ fs) s = Option.bind (startup_run settings es s) (startup_run settings fs)"
  by (induction es arbitrary: s) (auto simp: Option.bind_assoc split: bind_splits)

lemma stats_wait_run:
  "startup_run settings es servers0 = Some s \<Longrightarrow> stats_wait s"
proof (induction es arbitrary: s rule: rev_induct)
  case Nil
  then show ?case by (auto simp: stats_wait_def servers0_def less_eq_secure_pc_def)
next
  case (snoc e es)
  then obtain u where "startup_run settings es servers0 = Some u" "fire settings e u = Some s"
    by (auto simp: startup_run_append bind_eq_Some_conv)
  then show ?case using snoc.IH stats_wait_event by blast
qed

subsection \<open>Without a setting that switches the headers off, both servers use them\<close>

definition headers_on :: "servers \<Rightarrow> bool" where
  "headers_on s \<longleftrightarrow>
     (auth s \<in> {AuthDefaulted, AuthListening} \<longrightarrow> authHeader (header s) = Some True) \<and>
     (secure s \<in> {SecureDefaulted, SecureStoreReady, SecureListening} \<longrightarrow> secureHeader (header s) = Some True)"

lemma headers_on_event:
  assumes "StructureHeader settings \<notin> {''off'', ''auto''}" and "headers_on s"
    and "fire settings e s = Some t"
  shows "headers_on t"
proof (cases e)
  case AuthStep
  then show ?thesis using assms
    by (cases "auth s") (auto simp: headers_on_def applyStructureHeaderMode_def setStructureHeader_def)
next
  case SecureStep
  then show ?thesis using assms by (cases "secure s") (auto simp: headers_on_def)
next
  case StatsStep
  then show ?thesis using assms by (auto simp: headers_on_def StartStatsServer_def split: if_splits)
next
  case (AuthLogin r)
  then show ?thesis using assms by (auto simp: detectStructureHeader_def split: if_splits)
next
  case (SecureLogin r)
  then show ?thesis using assms by (auto simp: detectStructureHeader_def split: if_splits)
qed

lemma headers_on_run:
  "StructureHeader settings \<notin> {''off'', ''auto''} \<Longrightarrow> headers_on s \<Longrightarrow>
   startup_run settings es s = Some t \<Longrightarrow> headers_on t"
proof (induction es arbitrary: s)
  case (Cons e es)
  then obtain u where "fire settings e s = Some u" "startup_run settings es u = Some t"
    by (auto simp: bind_eq_Some_conv)
  then show ?case using Cons headers_on_event by blast
qed simp

text \<open>Once both listen, no login can make them disagree.\<close>

lemma agreement_kept:
  assumes "both_listening s" and "authHeader (header s) = secureHeader (header s)"
    and "fire settings e s = Some t"
  shows "both_listening t \<and> authHeader (header t) = secureHeader (header t)"
proof (cases e)
  case StatsStep
  then show ?thesis using assms by (auto simp: StartStatsServer_def both_listening_def split: if_splits)
next
  case (AuthLogin r)
  then show ?thesis using assms
    by (cases rule: detectStructureHeader_cases [of settings "Some r" "header s"])
      (auto simp: setStructureHeader_def both_listening_def)
next
  case (SecureLogin r)
  then show ?thesis using assms
    by (cases rule: detectStructureHeader_cases [of settings "Some r" "header s"])
      (auto simp: setStructureHeader_def both_listening_def)
qed (use assms in \<open>auto simp: both_listening_def\<close>)

subsection \<open>The race\<close>

definition bare_login :: rmc_message where
  "bare_login = LoginEx ''1800000001'' ''AuthenticationInfo'' (AuthenticationInfo ''ab'' 3 1 3)"

text \<open>The authentication server comes up, and takes a login, before the secure server exists.\<close>

definition race :: "bool \<Rightarrow> startup_event list" where
  "race login = [AuthStep, AuthStep, AuthStep] @ (if login then [AuthLogin bare_login] else []) @
     [SecureStep, SecureStep, SecureStep, SecureStep]"

lemma detect_bare_login:
  assumes "StructureHeader settings = ''auto''" and "\<not> structureHeaderKnown s" and "\<not> structureHeaderOnce s"
  shows "detectStructureHeader settings (Some bare_login) s =
    Some (setStructureHeader False ''detected from the console's login data'' (s\<lparr>structureHeaderOnce := True\<rparr>))"
proof (rule detect_first [OF assms])
  show "loginDataObject (rmc_ProtocolID bare_login) (rmc_MethodID bare_login) (Parameters bare_login) =
      Some (Some (AuthenticationInfo ''ab'' 3 1 3))"
    using loginDataObject_LoginEx [of "''1800000001''" "''AuthenticationInfo''" "AuthenticationInfo ''ab'' 3 1 3"]
    by (simp add: bare_login_def LoginEx_def AuthenticationInfo_def)
  show "objectHasStructureHeader (AuthenticationInfo ''ab'' 3 1 3) = Some (False, True)"
    by (rule bare_structure_detected) simp_all
qed (simp add: bare_login_def LoginEx_def)

lemma race_splits:
  assumes "StructureHeader settings \<in> {''off'', ''auto''}"
  shows "\<exists>s. startup_run settings (race (StructureHeader settings = ''auto'')) servers0 = Some s \<and>
    both_listening s \<and> authHeader (header s) = Some False \<and> secureHeader (header s) = Some True"
proof (cases "StructureHeader settings = ''auto''")
  case True
  then show ?thesis
    by (simp add: race_def servers0_def applyStructureHeaderMode_def detect_bare_login both_listening_def
        setStructureHeader_def)
next
  case False
  then show ?thesis using assms
    by (simp add: race_def servers0_def applyStructureHeaderMode_def both_listening_def
        setStructureHeader_def)
qed

text \<open>C23: the two servers agree on structure headers in every run of the startup exactly if the setting
  leaves them on. Switched off by the setting, or by the first login in automatic mode, the secure
  server can come up after the decision and overwrite it: the authentication server then writes
  structures without headers and the secure server reads them with.\<close>

theorem servers_agree_iff_left_on:
  "(\<forall>es s. startup_run settings es servers0 = Some s \<and> both_listening s \<longrightarrow>
      authHeader (header s) = secureHeader (header s)) \<longleftrightarrow>
   StructureHeader settings \<notin> {''off'', ''auto''}"
proof
  assume left: "\<forall>es s. startup_run settings es servers0 = Some s \<and> both_listening s \<longrightarrow>
      authHeader (header s) = secureHeader (header s)"
  show "StructureHeader settings \<notin> {''off'', ''auto''}"
    using left race_splits [of settings] by force
next
  assume on: "StructureHeader settings \<notin> {''off'', ''auto''}"
  have start: "headers_on servers0" by (simp add: headers_on_def servers0_def)
  show "\<forall>es s. startup_run settings es servers0 = Some s \<and> both_listening s \<longrightarrow>
      authHeader (header s) = secureHeader (header s)"
  proof (intro allI impI, elim conjE)
    fix es s
    assume "startup_run settings es servers0 = Some s" and both: "both_listening s"
    from headers_on_run [OF on start this(1)] both
    show "authHeader (header s) = secureHeader (header s)"
      by (simp add: headers_on_def both_listening_def)
  qed
qed

lemma default_headers_on: "StructureHeader (LoadConfig (\<lambda>_. [])) = ''on''"
  by code_simp

theorem servers_agree_iff_left_on_witness:
  "(\<exists>es s. startup_run auto_settings es servers0 = Some s \<and> both_listening s \<and>
      authHeader (header s) \<noteq> secureHeader (header s)) \<and>
   (\<exists>s. startup_run (LoadConfig (\<lambda>_. [])) (race False) servers0 = Some s \<and> both_listening s \<and>
      authHeader (header s) = secureHeader (header s))"
proof
  show "\<exists>es s. startup_run auto_settings es servers0 = Some s \<and> both_listening s \<and>
      authHeader (header s) \<noteq> secureHeader (header s)"
    using servers_agree_iff_left_on [of auto_settings] by (auto simp: auto_settings_def)
  have on: "StructureHeader (LoadConfig (\<lambda>_. [])) \<notin> {''off'', ''auto''}"
    by (simp add: default_headers_on)
  have "\<exists>s. startup_run (LoadConfig (\<lambda>_. [])) (race False) servers0 = Some s \<and> both_listening s"
    using on by (simp add: race_def servers0_def applyStructureHeaderMode_def both_listening_def
        default_headers_on setStructureHeader_def)
  then show "\<exists>s. startup_run (LoadConfig (\<lambda>_. [])) (race False) servers0 = Some s \<and> both_listening s \<and>
      authHeader (header s) = secureHeader (header s)"
    using servers_agree_iff_left_on [THEN iffD2, OF on] by blast
qed

end
