(* ===== verification/RankingStore.thy ===== *)
theory RankingStore
  imports NexCore
begin

text \<open>
  The leaderboard store of \<^verbatim>\<open>src/ranking/store.go\<close> in memory: entries, the scores by category and
  player, the common data, the comparator of a board, the order of its entries, their ranks and the
  cut of a page. The enumerations and structures of \<^verbatim>\<open>nex-protocols-go\<close> (not in the repository) are
  fields of the record \<^verbatim>\<open>ranking_proto\<close> and records with the fields the store reads and writes.
  A Go map is ranged over in an arbitrary order of its keys: \<^verbatim>\<open>entryOrder\<close> for players and unique IDs,
  \<^verbatim>\<open>categoryOrder\<close> for categories, \<^verbatim>\<open>keyOrder\<close> for the string keys of a decoded file.
\<close>

subsection \<open>Data\<close>

record ranking_proto =
  OrderByDescending :: u8
  UpdateModeNormal :: u8
  OrderCalculation113 :: u8

record score_data =
  sd_Category :: u32
  sd_Score :: u32
  sd_OrderBy :: u8
  sd_UpdateMode :: u8
  sd_Groups :: bytes
  sd_Param :: u64

record order_param =
  OrderCalculation :: u8
  Offset :: u32
  Length :: u8

record rank_data =
  rd_PrincipalID :: u64
  rd_UniqueID :: u64
  rd_Order :: u32
  rd_Category :: u32
  rd_Score :: u32
  rd_Groups :: bytes
  rd_Param :: u64
  rd_CommonData :: bytes
  rd_UpdateTime :: u64

record entry =
  e_PID :: u64
  e_UniqueID :: u64
  e_Category :: u32
  e_Score :: u32
  e_OrderBy :: u8
  e_Groups :: bytes
  e_Param :: u64
  e_UpdateTime :: u64

record ranking_store =
  scores :: "u32 \<rightharpoonup> u64 \<rightharpoonup> entry"
  commonData :: "u64 \<rightharpoonup> bytes"

record ranking_env =
  rankingProto :: ranking_proto
  entryOrder :: "u64 set \<Rightarrow> u64 list"
  categoryOrder :: "u32 set \<Rightarrow> u32 list"
  keyOrder :: "string set \<Rightarrow> string list"
  rankingFriends :: "(u32 \<Rightarrow> u32 list) option"

definition NewRankingStore :: ranking_store where
  "NewRankingStore = \<lparr>scores = Map.empty, commonData = Map.empty\<rparr>"

text \<open>Reading a category that is not there reads an empty map.\<close>

definition board :: "ranking_store \<Rightarrow> u32 \<Rightarrow> u64 \<rightharpoonup> entry" where
  "board st category = (case scores st category of None \<Rightarrow> Map.empty | Some entries \<Rightarrow> entries)"

text \<open>Every entry sits under its own category and player, and the maps are finite.\<close>

definition ranking_ok :: "ranking_store \<Rightarrow> bool" where
  "ranking_ok st \<longleftrightarrow> finite (dom (scores st)) \<and> finite (dom (commonData st)) \<and>
     (\<forall>c entries. scores st c = Some entries \<longrightarrow> finite (dom entries) \<and>
        (\<forall>p e. entries p = Some e \<longrightarrow> e_PID e = p \<and> e_Category e = c))"

lemma ranking_ok_board:
  "ranking_ok st \<Longrightarrow> finite (dom (board st c))"
  "ranking_ok st \<Longrightarrow> board st c p = Some e \<Longrightarrow> e_PID e = p \<and> e_Category e = c"
  by (auto simp: ranking_ok_def board_def split: option.splits)

subsection \<open>Comparing scores\<close>

definition betterThan :: "ranking_proto \<Rightarrow> u32 \<Rightarrow> u32 \<Rightarrow> u8 \<Rightarrow> bool" where
  "betterThan P score other orderBy =
     (if orderBy = OrderByDescending P then score > other else score < other)"

definition entry_less :: "ranking_proto \<Rightarrow> u8 \<Rightarrow> entry \<Rightarrow> entry \<Rightarrow> bool" where
  "entry_less P orderBy a b =
     (if e_Score a \<noteq> e_Score b then betterThan P (e_Score a) (e_Score b) orderBy
      else e_UpdateTime a < e_UpdateTime b)"

interpretation better: strict_weak_order "\<lambda>x y. betterThan P x y orderBy"
  by unfold_locales (auto simp: betterThan_def)

interpretation ranking: strict_weak_order "entry_less P orderBy"
proof
  show "\<not> entry_less P orderBy x x" for x by (simp add: entry_less_def)
  show "entry_less P orderBy x z" if "entry_less P orderBy x y" "entry_less P orderBy y z" for x y z
    using that by (auto simp: entry_less_def betterThan_def split: if_splits)
  show "\<not> entry_less P orderBy x z"
    if "\<not> entry_less P orderBy x y" "\<not> entry_less P orderBy y z" for x y z
    using that by (auto simp: entry_less_def betterThan_def split: if_splits)
qed

lemma betterThan_total: "x \<noteq> y \<Longrightarrow> betterThan P x y o' \<or> betterThan P y x o'"
  by (auto simp: betterThan_def)

lemma entry_less_score:
  "\<not> entry_less P orderBy b a \<Longrightarrow> \<not> betterThan P (e_Score b) (e_Score a) orderBy"
  using better.irreflexive by (auto simp: entry_less_def split: if_splits)

subsection \<open>A board in rank order\<close>

definition board_order :: "entry list \<Rightarrow> u8" where
  "board_order entries = (case entries of [] \<Rightarrow> 0 | e # _ \<Rightarrow> e_OrderBy e)"

definition rankedEntries :: "ranking_env \<Rightarrow> ranking_store \<Rightarrow> u32 \<Rightarrow> entry list" where
  "rankedEntries E st category =
     (let m = board st category;
          entries = map snd (range_map m (entryOrder E (dom m)))
      in SliceStable (entry_less (rankingProto E) (board_order entries)) entries)"

text \<open>The loop over the ordered list that gives each player its rank.\<close>

fun rank_loop :: "bool \<Rightarrow> nat \<Rightarrow> u32 \<Rightarrow> u32 \<Rightarrow> entry list \<Rightarrow> (u64 \<rightharpoonup> u32) \<Rightarrow> (u64 \<rightharpoonup> u32)" where
  "rank_loop standard index previousScore previousRank [] ranks = ranks"
| "rank_loop standard index previousScore previousRank (e # es) ranks =
     (let rank = (if standard \<and> index > 0 \<and> e_Score e = previousScore then previousRank
                  else of_nat index + 1)
      in rank_loop standard (index + 1) (e_Score e) rank es (ranks(e_PID e \<mapsto> rank)))"

definition ranks_of :: "ranking_env \<Rightarrow> entry list \<Rightarrow> u8 \<Rightarrow> u64 \<rightharpoonup> u32" where
  "ranks_of E ordered calculation =
     rank_loop (calculation = OrderCalculation113 (rankingProto E)) 0 0 0 ordered Map.empty"

definition rank_row :: "ranking_store \<Rightarrow> (u64 \<rightharpoonup> u32) \<Rightarrow> entry \<Rightarrow> rank_data" where
  "rank_row st ranks e =
     \<lparr>rd_PrincipalID = e_PID e, rd_UniqueID = e_UniqueID e,
      rd_Order = (case ranks (e_PID e) of None \<Rightarrow> 0 | Some r \<Rightarrow> r),
      rd_Category = e_Category e, rd_Score = e_Score e, rd_Groups = e_Groups e,
      rd_Param = e_Param e,
      rd_CommonData = (case commonData st (e_UniqueID e) of None \<Rightarrow> [] | Some b \<Rightarrow> b),
      rd_UpdateTime = e_UpdateTime e\<rparr>"

definition rankData ::
  "ranking_env \<Rightarrow> ranking_store \<Rightarrow> entry list \<Rightarrow> entry list \<Rightarrow> u8 \<Rightarrow> rank_data list" where
  "rankData E st ordered selected calculation =
     map (rank_row st (ranks_of E ordered calculation)) selected"

definition slice :: "entry list \<Rightarrow> order_param \<Rightarrow> entry list" where
  "slice entries op =
     (let offset = unat (Offset op); len = unat (Length op) in
      if offset \<ge> length entries then []
      else let selected = drop offset entries in
        if len > 0 \<and> len < length selected then take len selected else selected)"

subsection \<open>Order and ranks: what they mean\<close>

lemma range_board:
  assumes "ranking_ok st" and "visits_all (entryOrder E)"
  shows "distinct (map e_PID (map snd (range_map (board st c) (entryOrder E (dom (board st c))))))"
    and "set (map snd (range_map (board st c) (entryOrder E (dom (board st c))))) =
         {e. board st c (e_PID e) = Some e}"
proof -
  let ?xs = "range_map (board st c) (entryOrder E (dom (board st c)))"
  have fin: "finite (dom (board st c))" using ranking_ok_board(1) [OF assms(1)] .
  have set: "set ?xs = {(p, e). board st c p = Some e}"
    using range_map_visits_all(1) [OF assms(2) fin] .
  have "map e_PID (map snd ?xs) = map fst ?xs"
    using set ranking_ok_board(2) [OF assms(1)] by auto
  then show "distinct (map e_PID (map snd ?xs))"
    by (simp only: range_map_visits_all(3) [OF assms(2) fin])
  show "set (map snd ?xs) = {e. board st c (e_PID e) = Some e}"
  proof (rule Set.set_eqI)
    fix e
    show "e \<in> set (map snd ?xs) \<longleftrightarrow> e \<in> {e. board st c (e_PID e) = Some e}"
      using ranking_ok_board(2) [OF assms(1), of c] by (auto simp: set image_iff)
  qed
qed

lemma set_rankedEntries:
  assumes "ranking_ok st" and "visits_all (entryOrder E)"
  shows "set (rankedEntries E st c) = {e. board st c (e_PID e) = Some e}"
  using range_board(2) [OF assms] by (simp add: rankedEntries_def Let_def)

lemma distinct_rankedEntries:
  assumes "ranking_ok st" and "visits_all (entryOrder E)"
  shows "distinct (map e_PID (rankedEntries E st c))"
proof -
  have "mset (map e_PID (rankedEntries E st c)) =
      mset (map e_PID (map snd (range_map (board st c) (entryOrder E (dom (board st c))))))"
    unfolding rankedEntries_def Let_def mset_map mset_SliceStable ..
  then show ?thesis using range_board(1) [OF assms] mset_eq_imp_distinct_iff by blast
qed

text \<open>A board whose entries agree on the ordering.\<close>

definition uniform :: "ranking_store \<Rightarrow> u32 \<Rightarrow> u8 \<Rightarrow> bool" where
  "uniform st c ob \<longleftrightarrow> (\<forall>p e. board st c p = Some e \<longrightarrow> e_OrderBy e = ob)"

lemma rankedEntries_sorted:
  assumes "ranking_ok st" and "visits_all (entryOrder E)" and "uniform st c ob"
  shows "sorted_wrt (\<lambda>a b. \<not> entry_less (rankingProto E) ob b a) (rankedEntries E st c)"
proof -
  let ?es = "map snd (range_map (board st c) (entryOrder E (dom (board st c))))"
  show ?thesis
  proof (cases ?es)
    case Nil
    then show ?thesis by (simp add: rankedEntries_def)
  next
    case (Cons e es)
    then have "e \<in> set ?es" by simp
    then have "board st c (e_PID e) = Some e" using range_board(2) [OF assms(1,2)] by blast
    then have "board_order ?es = ob"
      using assms(3) Cons by (simp add: board_order_def uniform_def)
    then show ?thesis unfolding rankedEntries_def Let_def using ranking.sorted_SliceStable by metis
  qed
qed

lemma board_order_ranked:
  assumes "ranking_ok st" and "visits_all (entryOrder E)" and "uniform st c ob"
    and "rankedEntries E st c \<noteq> []"
  shows "board_order (rankedEntries E st c) = ob"
proof -
  obtain e es where e: "rankedEntries E st c = e # es" using assms(4) by (meson neq_Nil_conv)
  then have "board st c (e_PID e) = Some e" using set_rankedEntries [OF assms(1,2)] by force
  then show ?thesis using assms(3) e by (simp add: board_order_def uniform_def)
qed

text \<open>Ranks do not depend on the page: ordinal ranks are positions, standard ranks are one more than
  the number of entries with a better score.\<close>

lemma rank_loop_other:
  "p \<notin> e_PID ` set es \<Longrightarrow> rank_loop std i ps pr es ranks p = ranks p"
  by (induction std i ps pr es ranks rule: rank_loop.induct) (auto simp: Let_def)

lemma rank_loop_ordinal:
  "distinct (map e_PID es) \<Longrightarrow> j < length es \<Longrightarrow>
   rank_loop False i ps pr es ranks (e_PID (es ! j)) = Some (of_nat (i + j) + 1)"
proof (induction es arbitrary: i j ps pr ranks)
  case Nil
  then show ?case by simp
next
  case (Cons e es)
  then show ?case
    by (cases j) (auto simp: rank_loop_other Let_def add.assoc add.left_commute)
qed

context strict_weak_order
begin

text \<open>Ranking by a weak order: in a sorted list the elements below an element come before it, and
  they are all of the earlier elements if the previous one is below it.\<close>

lemma below_in_sorted:
  "sorted_wrt (\<lambda>a b. \<not> lt b a) (map f (xs @ y # ys)) \<Longrightarrow>
   filter (\<lambda>z. lt (f z) (f y)) (xs @ y # ys) = filter (\<lambda>z. lt (f z) (f y)) xs"
  using irreflexive by (auto simp: sorted_wrt_append filter_empty_conv)

lemma all_below_in_sorted:
  assumes "sorted_wrt (\<lambda>a b. \<not> lt b a) (map f (xs @ y # ys))"
    and "xs = [] \<or> lt (f (last xs)) (f y)"
  shows "filter (\<lambda>z. lt (f z) (f y)) xs = xs"
proof (cases xs rule: rev_cases)
  case (snoc us u)
  have "lt (f z) (f y)" if "z \<in> set us" for z
  proof -
    have "\<not> lt (f u) (f z)" "lt (f u) (f y)"
      using assms snoc that by (auto simp: sorted_wrt_append)
    then show ?thesis using incomparable by blast
  qed
  then show ?thesis using assms(2) snoc by simp
qed simp

end

definition better_count :: "ranking_proto \<Rightarrow> u8 \<Rightarrow> u32 \<Rightarrow> entry list \<Rightarrow> nat" where
  "better_count P ob score es = length (filter (\<lambda>d. betterThan P (e_Score d) score ob) es)"

lemma rank_loop_standard:
  assumes "sorted_wrt (\<lambda>a b. \<not> betterThan P b a ob) (map e_Score (xs @ es))"
    and "distinct (map e_PID es)" and "j < length es"
    and "xs \<noteq> [] \<Longrightarrow> ps = e_Score (last xs) \<and> pr = of_nat (better_count P ob ps xs) + 1"
  shows "rank_loop True (length xs) ps pr es ranks (e_PID (es ! j)) =
    Some (of_nat (better_count P ob (e_Score (es ! j)) (xs @ es)) + 1)"
  using assms
proof (induction es arbitrary: xs j ps pr ranks)
  case Nil
  then show ?case by simp
next
  case (Cons e es)
  let ?rank = "if True \<and> length xs > 0 \<and> e_Score e = ps then pr else of_nat (length xs) + 1"
  have count: "better_count P ob (e_Score e) (xs @ e # es) = better_count P ob (e_Score e) xs"
    using better.below_in_sorted [OF Cons.prems(1)] by (simp add: better_count_def)
  have rank: "?rank = of_nat (better_count P ob (e_Score e) xs) + 1"
  proof (cases "xs \<noteq> [] \<and> e_Score e = ps")
    case True
    then show ?thesis using Cons.prems(4) by auto
  next
    case False
    have "xs = [] \<or> betterThan P (e_Score (last xs)) (e_Score e) ob"
    proof (cases xs rule: rev_cases)
      case (snoc us u)
      then have "e_Score u \<noteq> e_Score e" "\<not> betterThan P (e_Score e) (e_Score u) ob"
        using False Cons.prems(1,4) by (auto simp: sorted_wrt_append)
      then show ?thesis using snoc betterThan_total by fastforce
    qed simp
    from better.all_below_in_sorted [OF Cons.prems(1) this]
    show ?thesis using False by (auto simp: better_count_def)
  qed
  show ?case
  proof (cases j)
    case 0
    have "e_PID e \<notin> e_PID ` set es" using Cons.prems(2) by auto
    then show ?thesis using 0 rank count by (simp add: Let_def rank_loop_other)
  next
    case (Suc i)
    have pr: "?rank = of_nat (better_count P ob (e_Score e) (xs @ [e])) + 1"
      using rank better.irreflexive by (simp add: better_count_def)
    have "rank_loop True (length (xs @ [e])) (e_Score e) ?rank es (ranks(e_PID e \<mapsto> ?rank))
        (e_PID (es ! i)) =
      Some (of_nat (better_count P ob (e_Score (es ! i)) ((xs @ [e]) @ es)) + 1)"
      by (rule Cons.IH) (use Cons.prems(1-3) Suc pr in auto)
    then show ?thesis using Suc by (simp add: Let_def)
  qed
qed

end
