(* ===== verification/Json.thy ===== *)
theory Json
  imports GoStd "HOL-Library.Monad_Syntax"
begin

text \<open>
  The part of Go's \<^verbatim>\<open>encoding/json\<close> the server uses: the grammar of JSON texts as \<^verbatim>\<open>Unmarshal\<close> accepts
  them (any text, with its escapes, surrogate pairs, invalid UTF-8 and nesting limit), and the two
  layouts the server writes, \<^verbatim>\<open>MarshalIndent\<close> with two spaces and the compact one of an \<^verbatim>\<open>Encoder\<close>.
  What the server writes has only plain strings (field names, decimal keys, base64), so no escaping
  is needed there. A locale of layouts shows that whatever is written is read back.
\<close>

datatype json =
    JNull
  | JBool bool
  | JNum string
  | JStr string
  | JArr "json list"
  | JObj "(string \<times> json) list"

subsection \<open>Tokens\<close>

definition json_space :: "char \<Rightarrow> bool" where
  "json_space c \<longleftrightarrow> (of_char c :: nat) \<in> {9, 10, 13, 32}"

definition skip_ws :: "string \<Rightarrow> string" where
  "skip_ws s = dropWhile json_space s"

text \<open>The next token must be the given character.\<close>

definition expect :: "char \<Rightarrow> string \<Rightarrow> string option" where
  "expect c s = (case skip_ws s of [] \<Rightarrow> None | d # r \<Rightarrow> if d = c then Some r else None)"

definition is_digit :: "char \<Rightarrow> bool" where
  "is_digit c = (digit_val c \<noteq> None)"

definition number_char :: "char \<Rightarrow> bool" where
  "number_char c = (is_digit c \<or> c \<in> set ''+-.eE'')"

text \<open>The optional exponent and fraction, each with at least one digit, and the integer part without
  superfluous zeros.\<close>

definition valid_exponent :: "string \<Rightarrow> bool" where
  "valid_exponent s =
     (case s of
        [] \<Rightarrow> True
      | c # r \<Rightarrow> c \<in> set ''eE'' \<and>
          (let ds = (case r of [] \<Rightarrow> [] | d # r' \<Rightarrow> if d \<in> set ''+-'' then r' else r)
           in ds \<noteq> [] \<and> list_all is_digit ds))"

definition valid_fraction :: "string \<Rightarrow> bool" where
  "valid_fraction s =
     (case s of
        [] \<Rightarrow> True
      | c # r \<Rightarrow> if c = CHR ''.'' then takeWhile is_digit r \<noteq> [] \<and> valid_exponent (dropWhile is_digit r)
               else valid_exponent s)"

definition valid_number :: "string \<Rightarrow> bool" where
  "valid_number s =
     (let u = (case s of [] \<Rightarrow> [] | c # r \<Rightarrow> if c = CHR ''-'' then r else s);
          i = takeWhile is_digit u
      in i \<noteq> [] \<and> (hd i = CHR ''0'' \<longrightarrow> i = ''0'') \<and> valid_fraction (dropWhile is_digit u))"

definition parse_number :: "string \<Rightarrow> (json \<times> string) option" where
  "parse_number s =
     (let t = takeWhile number_char s in
      if valid_number t then Some (JNum t, dropWhile number_char s) else None)"

definition parse_literal :: "string \<Rightarrow> (json \<times> string) option" where
  "parse_literal s =
     (if take 4 s = ''null'' then Some (JNull, drop 4 s)
      else if take 4 s = ''true'' then Some (JBool True, drop 4 s)
      else if take 5 s = ''false'' then Some (JBool False, drop 5 s)
      else None)"

subsection \<open>Strings\<close>

definition utf8 :: "nat \<Rightarrow> string" where
  "utf8 n = map char_of
     (if n < 0x80 then [n]
      else if n < 0x800 then [0xC0 + n div 64, 0x80 + n mod 64]
      else if n < 0x10000 then [0xE0 + n div 4096, 0x80 + n div 64 mod 64, 0x80 + n mod 64]
      else [0xF0 + n div 262144, 0x80 + n div 4096 mod 64, 0x80 + n div 64 mod 64, 0x80 + n mod 64])"

definition hex4 :: "string \<Rightarrow> (nat \<times> string) option" where
  "hex4 s =
     (case s of
        a # b # c # d # r \<Rightarrow>
          (case (hex_val a, hex_val b, hex_val c, hex_val d) of
             (Some w, Some x, Some y, Some z) \<Rightarrow> Some (((w * 16 + x) * 16 + y) * 16 + z, r)
           | _ \<Rightarrow> None)
      | _ \<Rightarrow> None)"

definition low_half :: "string \<Rightarrow> (nat \<times> string) option" where
  "low_half s =
     (if take 2 s = [CHR 0x5C, CHR ''u''] then
        (case hex4 (drop 2 s) of
           Some (u, r) \<Rightarrow> if 0xDC00 \<le> u \<and> u < 0xE000 then Some (u, r) else None
         | None \<Rightarrow> None)
      else None)"

text \<open>The text after a backslash; a surrogate without its other half reads as U+FFFD.\<close>

definition parse_escape :: "string \<Rightarrow> (string \<times> string) option" where
  "parse_escape s =
     (case s of
        [] \<Rightarrow> None
      | c # r \<Rightarrow>
          if c \<in> {CHR 0x22, CHR 0x5C, CHR ''/''} then Some ([c], r)
          else if c = CHR ''b'' then Some ([CHR 0x08], r)
          else if c = CHR ''f'' then Some ([CHR 0x0C], r)
          else if c = CHR ''n'' then Some ([CHR 0x0A], r)
          else if c = CHR ''r'' then Some ([CHR 0x0D], r)
          else if c = CHR ''t'' then Some ([CHR 0x09], r)
          else if c = CHR ''u'' then
            (case hex4 r of
               None \<Rightarrow> None
             | Some (u, r1) \<Rightarrow>
                 if 0xD800 \<le> u \<and> u < 0xE000 then
                   (case (if u < 0xDC00 then low_half r1 else None) of
                      Some (u2, r2) \<Rightarrow>
                        Some (utf8 (0x10000 + (u - 0xD800) * 0x400 + (u2 - 0xDC00)), r2)
                    | None \<Rightarrow> Some (utf8 0xFFFD, r1))
                 else Some (utf8 u, r1))
          else None)"

lemma hex4_length: "hex4 s = Some (u, r) \<Longrightarrow> length r < length s"
  by (auto simp: hex4_def split: list.splits option.splits)

lemma low_half_length: "low_half s = Some (u, r) \<Longrightarrow> length r < length s"
  by (auto simp: low_half_def split: if_splits option.splits dest!: hex4_length)

lemma parse_escape_length: "parse_escape s = Some (out, r) \<Longrightarrow> length r < length s"
  by (auto simp: parse_escape_def split: list.splits if_splits option.splits
      dest!: hex4_length low_half_length)

text \<open>The rest of a string literal after its opening quote.\<close>

function parse_string :: "string \<Rightarrow> (string \<times> string) option" where
  "parse_string s =
     (case s of
        [] \<Rightarrow> None
      | c # cs \<Rightarrow>
          if c = CHR 0x22 then Some ([], cs)
          else if (of_char c :: nat) < 32 then None
          else if c = CHR 0x5C then
            (case parse_escape cs of
               None \<Rightarrow> None
             | Some (out, r) \<Rightarrow> map_option (\<lambda>(t, r'). (out @ t, r')) (parse_string r))
          else if (of_char c :: nat) < 128 then
            map_option (\<lambda>(t, r). (c # t, r)) (parse_string cs)
          else let n = rune_size (map of_char s) in
            map_option (\<lambda>(t, r). ((if n = 1 then utf8 0xFFFD else take n s) @ t, r))
              (parse_string (drop n s)))"
  by pat_completeness auto
termination
  by (relation "measure length")
    (auto simp: rune_size_pos dest!: parse_escape_length)

declare parse_string.simps [simp del]

subsection \<open>Values\<close>

text \<open>The fuel bounds the number of nested calls; of two in a row at least one reads a character. \<^verbatim>\<open>d\<close> is
  the number of objects and arrays that may still be opened (Go's limit is 10000).\<close>

fun parse_value :: "nat \<Rightarrow> nat \<Rightarrow> string \<Rightarrow> (json \<times> string) option"
  and parse_members :: "nat \<Rightarrow> nat \<Rightarrow> string \<Rightarrow> ((string \<times> json) list \<times> string) option"
  and parse_elems :: "nat \<Rightarrow> nat \<Rightarrow> string \<Rightarrow> (json list \<times> string) option" where
  "parse_value 0 d s = None"
| "parse_value (Suc f) d s =
     (case skip_ws s of
        [] \<Rightarrow> None
      | c # cs \<Rightarrow>
          if c = CHR ''{'' then
            (if d = 0 then None
             else case expect (CHR ''}'') cs of
               Some r \<Rightarrow> Some (JObj [], r)
             | None \<Rightarrow> map_option (\<lambda>(ms, r). (JObj ms, r)) (parse_members f (d - 1) cs))
          else if c = CHR ''['' then
            (if d = 0 then None
             else case expect (CHR '']'') cs of
               Some r \<Rightarrow> Some (JArr [], r)
             | None \<Rightarrow> map_option (\<lambda>(vs, r). (JArr vs, r)) (parse_elems f (d - 1) cs))
          else if c = CHR 0x22 then map_option (\<lambda>(t, r). (JStr t, r)) (parse_string cs)
          else if c = CHR ''-'' \<or> is_digit c then parse_number (c # cs)
          else parse_literal (c # cs))"
| "parse_members 0 d s = None"
| "parse_members (Suc f) d s = do {
     s1 \<leftarrow> expect (CHR 0x22) s;
     (k, s2) \<leftarrow> parse_string s1;
     s3 \<leftarrow> expect (CHR '':'') s2;
     (v, s4) \<leftarrow> parse_value f d s3;
     (case expect (CHR ''}'') s4 of
        Some r \<Rightarrow> Some ([(k, v)], r)
      | None \<Rightarrow> do {
          s5 \<leftarrow> expect (CHR '','') s4;
          (ms, r) \<leftarrow> parse_members f d s5;
          Some ((k, v) # ms, r)
        })
   }"
| "parse_elems 0 d s = None"
| "parse_elems (Suc f) d s = do {
     (v, s1) \<leftarrow> parse_value f d s;
     (case expect (CHR '']'') s1 of
        Some r \<Rightarrow> Some ([v], r)
      | None \<Rightarrow> do {
          s2 \<leftarrow> expect (CHR '','') s1;
          (vs, r) \<leftarrow> parse_elems f d s2;
          Some (v # vs, r)
        })
   }"

declare parse_value.simps [simp del] parse_members.simps [simp del] parse_elems.simps [simp del]

definition maxNestingDepth :: nat where "maxNestingDepth = 10000"

definition parse_json :: "string \<Rightarrow> json option" where
  "parse_json s =
     (case parse_value (Suc (2 * length s)) maxNestingDepth s of
        Some (j, r) \<Rightarrow> if skip_ws r = [] then Some j else None
      | None \<Rightarrow> None)"

subsection \<open>Writing\<close>

text \<open>\<^verbatim>\<open>nl n\<close> is what stands before an item at nesting level \<^verbatim>\<open>n\<close>, \<^verbatim>\<open>col\<close> what follows a colon.\<close>

definition quote :: "string \<Rightarrow> string" where
  "quote s = CHR 0x22 # s @ [CHR 0x22]"

fun print_value :: "(nat \<Rightarrow> string) \<Rightarrow> string \<Rightarrow> nat \<Rightarrow> json \<Rightarrow> string"
  and print_members :: "(nat \<Rightarrow> string) \<Rightarrow> string \<Rightarrow> nat \<Rightarrow> (string \<times> json) list \<Rightarrow> string"
  and print_elems :: "(nat \<Rightarrow> string) \<Rightarrow> string \<Rightarrow> nat \<Rightarrow> json list \<Rightarrow> string" where
  "print_value nl col n JNull = ''null''"
| "print_value nl col n (JBool b) = (if b then ''true'' else ''false'')"
| "print_value nl col n (JNum s) = s"
| "print_value nl col n (JStr s) = quote s"
| "print_value nl col n (JArr vs) =
     (if vs = [] then ''[]'' else CHR ''['' # print_elems nl col (n + 1) vs @ nl n @ '']'')"
| "print_value nl col n (JObj ms) =
     (if ms = [] then ''{}'' else CHR ''{'' # print_members nl col (n + 1) ms @ nl n @ ''}'')"
| "print_members nl col n [] = []"
| "print_members nl col n ((k, v) # ms) =
     nl n @ quote k @ CHR '':'' # col @ print_value nl col n v @
     (if ms = [] then [] else CHR '','' # print_members nl col n ms)"
| "print_elems nl col n [] = []"
| "print_elems nl col n (v # vs) =
     nl n @ print_value nl col n v @ (if vs = [] then [] else CHR '','' # print_elems nl col n vs)"

definition indented :: "nat \<Rightarrow> string" where
  "indented n = CHR 0x0A # replicate (2 * n) (CHR '' '')"

definition MarshalIndent :: "json \<Rightarrow> string" where
  "MarshalIndent j = print_value indented '' '' 0 j"

definition Encode :: "json \<Rightarrow> string" where
  "Encode j = print_value (\<lambda>_. []) [] 0 j @ [CHR 0x0A]"

subsection \<open>Reading back what was written\<close>

definition plain :: "string \<Rightarrow> bool" where
  "plain s = list_all (\<lambda>c. 32 \<le> (of_char c :: nat) \<and> (of_char c :: nat) < 128 \<and>
     c \<noteq> CHR 0x22 \<and> c \<noteq> CHR 0x5C) s"

text \<open>The values that are written as they are: plain strings, numbers in JSON syntax, and no more
  nested objects and arrays than the reader follows.\<close>

fun writable :: "nat \<Rightarrow> json \<Rightarrow> bool" where
  "writable d JNull = True"
| "writable d (JBool b) = True"
| "writable d (JNum s) = (valid_number s \<and> list_all number_char s)"
| "writable d (JStr s) = plain s"
| "writable d (JArr vs) = (0 < d \<and> list_all (writable (d - 1)) vs)"
| "writable d (JObj ms) = (0 < d \<and> list_all (\<lambda>(k, v). plain k \<and> writable (d - 1) v) ms)"

definition ends_token :: "string \<Rightarrow> bool" where
  "ends_token s = (case s of [] \<Rightarrow> True | c # _ \<Rightarrow> \<not> number_char c)"

abbreviation blank :: "string \<Rightarrow> bool" where
  "blank w \<equiv> list_all json_space w"

definition reads_back :: "(nat \<Rightarrow> string) \<Rightarrow> string \<Rightarrow> nat \<Rightarrow> json \<Rightarrow> bool" where
  "reads_back nl col d j \<longleftrightarrow>
     (\<forall>f n w rest. blank w \<and> ends_token rest \<and>
        2 * length (w @ print_value nl col n j @ rest) < f \<longrightarrow>
        parse_value f d (w @ print_value nl col n j @ rest) = Some (j, rest))"

lemma reads_backD:
  "reads_back nl col d j \<Longrightarrow> blank w \<Longrightarrow> ends_token rest \<Longrightarrow>
   2 * length (w @ print_value nl col n j @ rest) < f \<Longrightarrow>
   parse_value f d (w @ print_value nl col n j @ rest) = Some (j, rest)"
  unfolding reads_back_def by blast

lemma skip_ws_blank: "blank w \<Longrightarrow> \<not> json_space c \<Longrightarrow> skip_ws (w @ c # s) = c # s"
  by (induction w) (auto simp: skip_ws_def)

lemma expect_blank: "blank w \<Longrightarrow> \<not> json_space c \<Longrightarrow> expect d (w @ c # s) = (if c = d then Some s else None)"
  by (simp add: expect_def skip_ws_blank)

lemmas expect_now = expect_blank [where w = "[]", simplified]

lemma parse_string_plain: "plain s \<Longrightarrow> parse_string (s @ CHR 0x22 # rest) = Some (s, rest)"
proof (induction s)
  case Nil
  then show ?case by (simp add: parse_string.simps)
next
  case (Cons c cs)
  then show ?case by (subst parse_string.simps) (simp add: plain_def)
qed

lemma parse_quote:
  "plain s \<Longrightarrow> tl (quote s @ rest) = s @ CHR 0x22 # rest"
  by (simp add: quote_def)

lemma number_span:
  "list_all number_char t \<Longrightarrow> ends_token rest \<Longrightarrow>
   takeWhile number_char (t @ rest) = t \<and> dropWhile number_char (t @ rest) = rest"
  by (induction t) (auto simp: ends_token_def split: list.splits)

lemma parse_number_token:
  "valid_number t \<Longrightarrow> list_all number_char t \<Longrightarrow> ends_token rest \<Longrightarrow>
   parse_number (t @ rest) = Some (JNum t, rest)"
  by (simp add: parse_number_def number_span)

lemma valid_number_start:
  "valid_number s \<Longrightarrow> \<exists>c r. s = c # r \<and> (c = CHR ''-'' \<or> is_digit c)"
  by (cases s) (auto simp: valid_number_def split: if_splits)

lemma digit_not_special: "is_digit c \<Longrightarrow> \<not> json_space c \<and> c \<notin> {CHR ''{'', CHR ''['', CHR 0x22}"
  by (auto simp: is_digit_def digit_val_def json_space_def Let_def split: if_splits)

lemma json_space_specials [simp]:
  "\<not> json_space (CHR ''{'')" "\<not> json_space (CHR ''['')" "\<not> json_space (CHR ''}'')"
  "\<not> json_space (CHR '']'')" "\<not> json_space (CHR '','')" "\<not> json_space (CHR '':'')"
  "\<not> json_space (CHR 0x22)" "\<not> json_space (CHR ''-'')" "\<not> json_space (CHR ''n'')"
  "\<not> json_space (CHR ''t'')" "\<not> json_space (CHR ''f'')"
  by (simp_all add: json_space_def)

lemma number_char_specials [simp]:
  "\<not> number_char (CHR ''}'')" "\<not> number_char (CHR '']'')" "\<not> number_char (CHR '','')"
  "\<not> is_digit (CHR ''n'')" "\<not> is_digit (CHR ''t'')" "\<not> is_digit (CHR ''f'')"
  by (simp_all add: number_char_def is_digit_def digit_val_def)

lemma blank_ends_token: "blank w \<Longrightarrow> \<not> number_char c \<Longrightarrow> ends_token (w @ c # s)"
  by (cases w) (auto simp: ends_token_def json_space_def number_char_def is_digit_def digit_val_def)

text \<open>The first character of a written value is neither blank nor a closing bracket.\<close>

lemma print_value_start:
  "writable d j \<Longrightarrow> \<exists>c r. print_value nl col n j = c # r \<and> \<not> json_space c \<and>
     c \<noteq> CHR ''}'' \<and> c \<noteq> CHR '']''"
proof (cases j)
  case (JNum s)
  assume "writable d j"
  then obtain c r where "s = c # r" "c = CHR ''-'' \<or> is_digit c"
    using JNum valid_number_start [of s] by auto
  then show ?thesis using JNum digit_not_special [of c]
    by (auto simp: is_digit_def digit_val_def)
qed (auto simp: quote_def)

lemma parse_null: "parse_literal (CHR ''n'' # CHR ''u'' # CHR ''l'' # CHR ''l'' # s) = Some (JNull, s)"
  by (simp add: parse_literal_def)

lemma atoms_read_back:
  "reads_back nl col d JNull" "reads_back nl col d (JBool b)"
  "plain s \<Longrightarrow> reads_back nl col d (JStr s)"
  "valid_number t \<Longrightarrow> list_all number_char t \<Longrightarrow> reads_back nl col d (JNum t)"
proof -
  have step: "m < f \<Longrightarrow> \<exists>g. f = Suc g" for m f :: nat by (cases f) auto
  show "reads_back nl col d JNull"
    unfolding reads_back_def
    by (auto dest!: step simp: parse_value.simps skip_ws_blank parse_null)
  show "reads_back nl col d (JBool b)"
    unfolding reads_back_def
    by (auto dest!: step simp: parse_value.simps skip_ws_blank parse_literal_def)
  show "reads_back nl col d (JStr s)" if "plain s"
    unfolding reads_back_def using that
    by (auto dest!: step simp: parse_value.simps skip_ws_blank quote_def parse_string_plain)
  show "reads_back nl col d (JNum t)" if t: "valid_number t" "list_all number_char t"
  proof -
    obtain c r where c: "t = c # r" "c = CHR ''-'' \<or> is_digit c"
      using valid_number_start [OF t(1)] by auto
    then have "\<not> json_space c" "c \<notin> {CHR ''{'', CHR ''['', CHR 0x22}"
      using digit_not_special [of c] by auto
    note start = this
    show ?thesis
      unfolding reads_back_def
    proof (intro allI impI, elim conjE)
      fix f n w rest
      assume w: "blank w" "ends_token rest"
        and f: "2 * length (w @ print_value nl col n (JNum t) @ rest) < f"
      have "parse_number (c # r @ rest) = Some (JNum t, rest)"
        using parse_number_token [OF t w(2)] c by simp
      then show "parse_value f d (w @ print_value nl col n (JNum t) @ rest) = Some (JNum t, rest)"
        using step [OF f] w c start by (auto simp: parse_value.simps skip_ws_blank)
    qed
  qed
qed

locale json_layout =
  fixes nl :: "nat \<Rightarrow> string" and col :: string
  assumes blank_nl: "blank (nl n)" and blank_col: "blank col"
begin

lemma members_read_back:
  assumes "ms \<noteq> []" and "\<forall>(k, v) \<in> set ms. plain k \<and> reads_back nl col d v"
    and "blank w" and "2 * length (print_members nl col n ms @ w @ CHR ''}'' # rest) < f"
  shows "parse_members f d (print_members nl col n ms @ w @ CHR ''}'' # rest) = Some (ms, rest)"
  using assms
proof (induction ms arbitrary: f)
  case Nil
  then show ?case by simp
next
  case (Cons m ms)
  obtain k v where m: "m = (k, v)" by fastforce
  obtain g where f: "f = Suc g" using Cons.prems(4) by (cases f) auto
  let ?tail = "if ms = [] then w @ CHR ''}'' # rest
    else CHR '','' # print_members nl col n ms @ w @ CHR ''}'' # rest"
  have s: "print_members nl col n (m # ms) @ w @ CHR ''}'' # rest =
      nl n @ CHR 0x22 # k @ CHR 0x22 # CHR '':'' # col @ print_value nl col n v @ ?tail"
    by (simp add: m quote_def)
  have tail: "ends_token ?tail"
    using Cons.prems(3) by (simp add: blank_ends_token) (simp add: ends_token_def)
  have kv: "plain k" "reads_back nl col d v" using Cons.prems(2) m by auto
  have "parse_value g d (col @ print_value nl col n v @ ?tail) = Some (v, ?tail)"
    by (rule reads_backD [OF kv(2) blank_col tail])
      (use Cons.prems(4) f in \<open>auto simp: m quote_def split: if_splits\<close>)
  note first = this
  show ?case
  proof (cases "ms = []")
    case True
    then show ?thesis
      using first kv(1) Cons.prems(3) blank_nl [of n]
      unfolding s f parse_members.simps
      by (simp add: expect_blank expect_now parse_string_plain m)
  next
    case False
    have "parse_members g d (print_members nl col n ms @ w @ CHR ''}'' # rest) = Some (ms, rest)"
      by (rule Cons.IH) (use False Cons.prems f in \<open>auto simp: m\<close>)
    then show ?thesis
      using first kv(1) Cons.prems(3) blank_nl [of n] False
      unfolding s f parse_members.simps
      by (simp add: expect_blank expect_now parse_string_plain m)
  qed
qed

lemma elems_read_back:
  assumes "vs \<noteq> []" and "\<forall>v \<in> set vs. reads_back nl col d v"
    and "blank w" and "Suc (2 * length (print_elems nl col n vs @ w @ CHR '']'' # rest)) < f"
  shows "parse_elems f d (print_elems nl col n vs @ w @ CHR '']'' # rest) = Some (vs, rest)"
  using assms
proof (induction vs arbitrary: f)
  case Nil
  then show ?case by simp
next
  case (Cons v vs)
  obtain g where f: "f = Suc g" using Cons.prems(4) by (cases f) auto
  let ?tail = "if vs = [] then w @ CHR '']'' # rest
    else CHR '','' # print_elems nl col n vs @ w @ CHR '']'' # rest"
  have s: "print_elems nl col n (v # vs) @ w @ CHR '']'' # rest =
      nl n @ print_value nl col n v @ ?tail" by simp
  have tail: "ends_token ?tail"
    using Cons.prems(3) by (simp add: blank_ends_token) (simp add: ends_token_def)
  have "parse_value g d (nl n @ print_value nl col n v @ ?tail) = Some (v, ?tail)"
    by (rule reads_backD [OF _ blank_nl tail]) (use Cons.prems(2,4) f in \<open>auto split: if_splits\<close>)
  note first = this
  show ?case
  proof (cases "vs = []")
    case True
    then show ?thesis
      using first Cons.prems(3) unfolding s f parse_elems.simps by (simp add: expect_blank)
  next
    case False
    have "parse_elems g d (print_elems nl col n vs @ w @ CHR '']'' # rest) = Some (vs, rest)"
      by (rule Cons.IH) (use False Cons.prems f in auto)
    then show ?thesis
      using first False unfolding s f parse_elems.simps by (simp add: expect_now)
  qed
qed

lemma value_reads_back: "writable d j \<Longrightarrow> reads_back nl col d j"
proof (induction j arbitrary: d)
  case (JArr vs)
  show ?case
    unfolding reads_back_def
  proof (intro allI impI, elim conjE)
    fix f n w rest
    assume w: "blank w" and f: "2 * length (w @ print_value nl col n (JArr vs) @ rest) < f"
    obtain g e where g: "f = Suc g" "d = Suc e" using f JArr.prems by (cases f; cases d) auto
    show "parse_value f d (w @ print_value nl col n (JArr vs) @ rest) = Some (JArr vs, rest)"
    proof (cases vs)
      case Nil
      then show ?thesis using w g by (simp add: parse_value.simps skip_ws_blank expect_now)
    next
      case (Cons v us)
      obtain c r where c: "print_value nl col (n + 1) v = c # r" "\<not> json_space c" "c \<noteq> CHR '']''"
        using print_value_start [of e v nl col "n + 1"] JArr.prems Cons g by auto
      have "parse_elems g e (print_elems nl col (n + 1) vs @ nl n @ CHR '']'' # rest) = Some (vs, rest)"
        by (rule elems_read_back)
          (use JArr Cons f g blank_nl in \<open>auto simp: list_all_iff\<close>)
      moreover have "expect (CHR '']'') (print_elems nl col (n + 1) vs @ nl n @ CHR '']'' # rest) = None"
        using c Cons blank_nl [of "n + 1"] by (simp add: expect_blank)
      ultimately show ?thesis
        using w g Cons by (simp add: parse_value.simps skip_ws_blank)
    qed
  qed
next
  case (JObj ms)
  show ?case
    unfolding reads_back_def
  proof (intro allI impI, elim conjE)
    fix f n w rest
    assume w: "blank w" and f: "2 * length (w @ print_value nl col n (JObj ms) @ rest) < f"
    obtain g e where g: "f = Suc g" "d = Suc e" using f JObj.prems by (cases f; cases d) auto
    show "parse_value f d (w @ print_value nl col n (JObj ms) @ rest) = Some (JObj ms, rest)"
    proof (cases ms)
      case Nil
      then show ?thesis using w g by (simp add: parse_value.simps skip_ws_blank expect_now)
    next
      case (Cons m ns)
      obtain k v where m: "m = (k, v)" by fastforce
      have "\<forall>(k, v) \<in> set ms. plain k \<and> reads_back nl col e v"
        using JObj g by (fastforce simp: list_all_iff)
      then have "parse_members g e (print_members nl col (n + 1) ms @ nl n @ CHR ''}'' # rest) =
          Some (ms, rest)"
        by (rule members_read_back [rotated])
          (use Cons f g blank_nl in auto)
      moreover have "expect (CHR ''}'') (print_members nl col (n + 1) ms @ nl n @ CHR ''}'' # rest) = None"
        using Cons m blank_nl [of "n + 1"] by (simp add: quote_def expect_blank)
      ultimately show ?thesis
        using w g Cons by (simp add: parse_value.simps skip_ws_blank)
    qed
  qed
qed (simp_all add: atoms_read_back)

lemma parse_json_print:
  assumes "writable maxNestingDepth j" and "blank trail"
  shows "parse_json (print_value nl col n j @ trail) = Some j"
proof -
  have "ends_token trail"
    using assms(2) by (cases trail) (auto simp: ends_token_def json_space_def number_char_def
        is_digit_def digit_val_def)
  from reads_backD [OF value_reads_back [OF assms(1)] list.pred_inject(1) this]
  have "parse_value (Suc (2 * length (print_value nl col n j @ trail))) maxNestingDepth
      (print_value nl col n j @ trail) = Some (j, trail)" by simp
  moreover have "skip_ws trail = []"
    using assms(2) by (simp add: skip_ws_def list_all_iff)
  ultimately show ?thesis by (simp add: parse_json_def)
qed

end

interpretation indent_layout: json_layout indented "'' ''"
  by unfold_locales (auto simp: indented_def json_space_def list_all_iff)

interpretation compact_layout: json_layout "\<lambda>_. []" "[]"
  by unfold_locales auto

lemma parse_json_MarshalIndent: "writable maxNestingDepth j \<Longrightarrow> parse_json (MarshalIndent j) = Some j"
  using indent_layout.parse_json_print [of j "[]"] by (simp add: MarshalIndent_def)

lemma parse_json_Encode: "writable maxNestingDepth j \<Longrightarrow> parse_json (Encode j) = Some j"
  using compact_layout.parse_json_print [of j "[CHR 0x0A]"]
  by (simp add: Encode_def json_space_def)

text \<open>Decimal numbers are JSON numbers.\<close>

lemma FormatUint_is_digit: "list_all is_digit (FormatUint n)"
  using FormatUint_digits by (auto simp: list_all_iff is_digit_def)

lemma FormatUint_hd: "hd (FormatUint n) = CHR ''0'' \<Longrightarrow> n = 0"
proof (induction n rule: FormatUint.induct)
  case (1 n)
  show ?case
  proof (cases "n < 10")
    case True
    then have "digit_val (hd (FormatUint n)) = Some n" by (simp add: FormatUint.simps [of n])
    with "1.prems" show ?thesis by (simp add: digit_val_def)
  next
    case False
    then have "hd (FormatUint n) = hd (FormatUint (n div 10))"
      by (simp add: FormatUint.simps [of n])
    with 1 False show ?thesis by auto
  qed
qed

lemma writable_FormatUint [simp]: "writable d (JNum (FormatUint n))"
proof -
  have digits: "list_all is_digit (FormatUint n)" by (rule FormatUint_is_digit)
  then have "takeWhile is_digit (FormatUint n) = FormatUint n"
    "dropWhile is_digit (FormatUint n) = []"
    by (simp_all add: list_all_iff)
  moreover have "hd (FormatUint n) \<noteq> CHR ''-''"
    using digits FormatUint_nonempty [of n]
    by (cases "FormatUint n") (auto simp: is_digit_def digit_val_def)
  moreover have "hd (FormatUint n) = CHR ''0'' \<Longrightarrow> FormatUint n = ''0''"
    using FormatUint_hd [of n] by (auto simp: FormatUint.simps [of 0] digit_char_def)
  ultimately have "valid_number (FormatUint n)"
    using FormatUint_nonempty [of n]
    by (cases "FormatUint n") (auto simp: valid_number_def valid_fraction_def)
  moreover have "list_all number_char (FormatUint n)"
    using digits by (auto simp: list_all_iff number_char_def)
  ultimately show ?thesis by simp
qed

lemma plain_FormatUint [simp]: "plain (FormatUint n)"
proof -
  have "32 \<le> (of_char c :: nat) \<and> (of_char c :: nat) < 128 \<and> c \<noteq> CHR 0x22 \<and> c \<noteq> CHR 0x5C"
    if "is_digit c" for c
    using that by (auto simp: is_digit_def digit_val_def Let_def split: if_splits)
  then show ?thesis using FormatUint_is_digit [of n] by (simp add: plain_def list_all_iff)
qed

subsection \<open>The fuel of the parser\<close>

text \<open>What a parser leaves is shorter than what it was given.\<close>

lemma skip_ws_length: "length (skip_ws s) \<le> length s"
  by (simp add: skip_ws_def length_dropWhile_le)

lemma expect_length: "expect c s = Some r \<Longrightarrow> length r < length s"
  using skip_ws_length [of s] by (auto simp: expect_def split: list.splits if_splits)

lemma parse_string_length: "parse_string s = Some (t, r) \<Longrightarrow> length r < length s"
proof (induction "length s" arbitrary: s t r rule: less_induct)
  case less
  then obtain c cs where s: "s = c # cs" by (cases s) (simp_all add: parse_string.simps)
  let ?n = "rune_size (map of_char s)"
  have "length (drop ?n s) < length s" using rune_size_pos [of "map of_char s"] s by simp
  note IH = less(1) [OF this] less(1) [of cs] less(1)
  have step: "parse_string s = (case s of [] \<Rightarrow> None | c # cs \<Rightarrow>
          if c = CHR 0x22 then Some ([], cs)
          else if (of_char c :: nat) < 32 then None
          else if c = CHR 0x5C then
            (case parse_escape cs of
               None \<Rightarrow> None
             | Some (out, r) \<Rightarrow> map_option (\<lambda>(t, r'). (out @ t, r')) (parse_string r))
          else if (of_char c :: nat) < 128 then
            map_option (\<lambda>(t, r). (c # t, r)) (parse_string cs)
          else map_option (\<lambda>(t, r). ((if ?n = 1 then utf8 0xFFFD else take ?n s) @ t, r))
              (parse_string (drop ?n s)))"
    by (subst parse_string.simps) (simp add: Let_def s)
  consider "r = cs" | out r1 t1 where "parse_escape cs = Some (out, r1)" "parse_string r1 = Some (t1, r)"
    | t1 where "parse_string cs = Some (t1, r)" | t1 where "parse_string (drop ?n s) = Some (t1, r)"
    using less(2) unfolding step by (auto simp: s split: if_splits option.splits)
  then show ?case
  proof cases
    case 2
    have "length r1 < length s" using parse_escape_length [OF 2(1)] s by simp
    then show ?thesis using less(1) [OF _ 2(2)] by simp
  next
    case 3
    then show ?thesis using less(1) [OF _ 3] s by fastforce
  next
    case 4
    then show ?thesis using IH(1) [OF 4] by simp
  qed (simp add: s)
qed

lemma parse_number_length: "parse_number s = Some (j, r) \<Longrightarrow> length r < length s"
proof -
  assume "parse_number s = Some (j, r)"
  then have v: "valid_number (takeWhile number_char s)" and r: "r = dropWhile number_char s"
    by (auto simp: parse_number_def Let_def split: if_splits)
  have "takeWhile number_char s \<noteq> []" using v by (auto simp: valid_number_def)
  moreover have "length (takeWhile number_char s) + length r = length s"
    using r by (metis length_append takeWhile_dropWhile_id)
  ultimately show ?thesis by (cases "takeWhile number_char s") simp_all
qed

lemma parse_literal_length: "parse_literal s = Some (j, r) \<Longrightarrow> length r < length s"
  by (cases s) (auto simp: parse_literal_def split: if_splits)

lemma parse_length:
  "parse_value f d s = Some (j, r) \<Longrightarrow> length r < length s"
  "parse_members f d s = Some (ms, r) \<Longrightarrow> length r < length s"
  "parse_elems f d s = Some (vs, r) \<Longrightarrow> length r < length s"
proof (induction f arbitrary: d s j r ms vs)
  case (Suc f)
  { case 1
    obtain c cs where s: "skip_ws s = c # cs"
      using 1 by (cases "skip_ws s") (simp_all add: parse_value.simps)
    then have "Suc (length cs) \<le> length s" using skip_ws_length [of s] by simp
    then show ?case
      using 1 unfolding parse_value.simps s
      by (auto simp: s split: if_splits option.splits dest!: expect_length parse_string_length
          parse_number_length parse_literal_length Suc.IH(2,3)) }
  { case 2
    then obtain s1 k s2 s3 v s4 where parts: "expect (CHR 0x22) s = Some s1" "parse_string s1 = Some (k, s2)"
      "expect (CHR '':'') s2 = Some s3" "parse_value f d s3 = Some (v, s4)"
      and rest: "(case expect (CHR ''}'') s4 of
          Some r \<Rightarrow> Some ([(k, v)], r)
        | None \<Rightarrow> do { s5 \<leftarrow> expect (CHR '','') s4; (ms, r) \<leftarrow> parse_members f d s5; Some ((k, v) # ms, r) }) =
        Some (ms, r)"
      by (auto simp: parse_members.simps bind_eq_Some_conv)
    have "length r < length s4"
      using rest by (auto simp: bind_eq_Some_conv split: option.splits dest!: expect_length Suc.IH(2))
    moreover have "length s4 < length s"
      using parts by (auto dest!: expect_length parse_string_length Suc.IH(1))
    ultimately show ?case by simp }
  { case 3
    then obtain v s1 where parts: "parse_value f d s = Some (v, s1)"
      and rest: "(case expect (CHR '']'') s1 of
          Some r \<Rightarrow> Some ([v], r)
        | None \<Rightarrow> do { s2 \<leftarrow> expect (CHR '','') s1; (vs, r) \<leftarrow> parse_elems f d s2; Some (v # vs, r) }) =
        Some (vs, r)"
      by (auto simp: parse_elems.simps bind_eq_Some_conv)
    have "length r < length s1"
      using rest by (auto simp: bind_eq_Some_conv split: option.splits dest!: expect_length Suc.IH(3))
    then show ?case using Suc.IH(1) [OF parts] by simp }
qed (simp_all add: parse_value.simps parse_members.simps parse_elems.simps)

lemma bind_same: "(\<And>y. x = Some y \<Longrightarrow> F y = G y) \<Longrightarrow> Option.bind x F = Option.bind x G"
  by (cases x) simp_all

text \<open>The fuel is enough for every text, well formed or not: more of it changes nothing.\<close>

lemma parse_fuel:
  "2 * length s < f \<Longrightarrow> f \<le> f' \<Longrightarrow> parse_value f' d s = parse_value f d s"
  "2 * length s < f \<Longrightarrow> f \<le> f' \<Longrightarrow> parse_members f' d s = parse_members f d s"
  "Suc (2 * length s) < f \<Longrightarrow> f \<le> f' \<Longrightarrow> parse_elems f' d s = parse_elems f d s"
proof (induction f arbitrary: f' d s)
  case (Suc f)
  { case 1
    then obtain g where g: "f' = Suc g" "f \<le> g" by (cases f') simp_all
    show ?case
    proof (cases "skip_ws s")
      case Nil
      then show ?thesis by (simp add: parse_value.simps g)
    next
      case (Cons c cs)
      then have "Suc (length cs) \<le> length s" using skip_ws_length [of s] by simp
      then have "2 * length cs < f" "Suc (2 * length cs) < f" using 1(1) by simp_all
      then have same: "parse_members g (d - 1) cs = parse_members f (d - 1) cs"
        "parse_elems g (d - 1) cs = parse_elems f (d - 1) cs"
        using Suc.IH(2,3) g(2) by blast+
      then show ?thesis unfolding g parse_value.simps Cons by (simp only: list.case same)
    qed }
  { case 2
    then obtain g where g: "f' = Suc g" "f \<le> g" by (cases f') simp_all
    have val: "parse_value g d s3 = parse_value f d s3" and len: "length s3 < length s"
      if "expect (CHR 0x22) s = Some s1" "parse_string s1 = Some (k, s2)" "expect (CHR '':'') s2 = Some s3"
      for s1 k s2 s3
    proof -
      show "length s3 < length s" using that by (auto dest!: expect_length parse_string_length)
      then show "parse_value g d s3 = parse_value f d s3" using Suc.IH(1) [of s3 g d] g(2) 2(1) by simp
    qed
    have members: "parse_members g d s5 = parse_members f d s5"
      if "parse_value f d s3 = Some (v, s4)" "expect (CHR '','') s4 = Some s5" "length s3 < length s" for v s3 s4 s5
    proof -
      have "length s5 < length s" using that by (auto dest!: expect_length parse_length(1))
      then show ?thesis using Suc.IH(2) [of s5 g d] g(2) 2(1) by simp
    qed
    show ?case
      unfolding g parse_members.simps
      by (intro bind_same) (auto simp: val members [OF _ _ len] intro!: bind_same split: option.split) }
  { case 3
    then obtain g where g: "f' = Suc g" "f \<le> g" by (cases f') simp_all
    have same: "parse_value g d s = parse_value f d s" using Suc.IH(1) [of s g d] g(2) 3(1) by simp
    have "parse_elems g d s2 = parse_elems f d s2"
      if "parse_value f d s = Some (v, s1)" "expect (CHR '','') s1 = Some s2" for v s1 s2
    proof -
      have "length s2 < length s" using that by (auto dest!: expect_length parse_length(1))
      then show ?thesis using Suc.IH(3) [of s2 g d] g(2) 3(1) by simp
    qed
    then show ?case
      unfolding g parse_elems.simps same by (auto intro!: bind_same split: option.split) }
qed simp_all

lemma parse_json_fuel:
  assumes "2 * length s < f"
  shows "parse_json s = (case parse_value f maxNestingDepth s of
      Some (j, r) \<Rightarrow> if skip_ws r = [] then Some j else None | None \<Rightarrow> None)"
  using assms parse_fuel(1) [of s "Suc (2 * length s)" f maxNestingDepth] by (simp add: parse_json_def)

end
