(* ===== verification/Base64.thy ===== *)
theory Base64
  imports Json
begin

text \<open>
  Go's \<^verbatim>\<open>encoding/base64\<close>: the standard alphabet with padding, which \<^verbatim>\<open>encoding/json\<close> uses for byte
  slices (the decoder skips line ends and ignores the unused low bits of the last digit), and the
  unpadded URL alphabet of the derived passwords.
\<close>

definition std_alphabet :: string where
  "std_alphabet = ''ABCDEFGHIJKLMNOPQRSTUVWXYZabcdefghijklmnopqrstuvwxyz0123456789+/''"

definition url_alphabet :: string where
  "url_alphabet = ''ABCDEFGHIJKLMNOPQRSTUVWXYZabcdefghijklmnopqrstuvwxyz0123456789-_''"

fun base64 :: "string \<Rightarrow> bool \<Rightarrow> nat list \<Rightarrow> string" where
  "base64 al pad [] = []"
| "base64 al pad [a] =
     [al ! (a div 4), al ! (a mod 4 * 16)] @ (if pad then ''=='' else [])"
| "base64 al pad [a, b] =
     [al ! (a div 4), al ! (a mod 4 * 16 + b div 16), al ! (b mod 16 * 4)] @
     (if pad then ''='' else [])"
| "base64 al pad (a # b # c # bs) =
     [al ! (a div 4), al ! (a mod 4 * 16 + b div 16), al ! (b mod 16 * 4 + c div 64), al ! (c mod 64)] @
     base64 al pad bs"

definition StdEncode :: "bytes \<Rightarrow> string" where
  "StdEncode bs = base64 std_alphabet True (map unat bs)"

definition RawURLEncode :: "bytes \<Rightarrow> string" where
  "RawURLEncode bs = base64 url_alphabet False (map unat bs)"

definition std_val :: "char \<Rightarrow> nat option" where
  "std_val c = (let n = of_char c :: nat in
     if 65 \<le> n \<and> n \<le> 90 then Some (n - 65)
     else if 97 \<le> n \<and> n \<le> 122 then Some (n - 71)
     else if 48 \<le> n \<and> n \<le> 57 then Some (n + 4)
     else if n = 43 then Some 62
     else if n = 47 then Some 63 else None)"

fun base64_values :: "string \<Rightarrow> nat list option" where
  "base64_values [] = Some []"
| "base64_values (p # q # r # s # cs) =
     (case (std_val p, std_val q, std_val r, std_val s) of
        (Some w, Some x, Some y, Some z) \<Rightarrow>
          map_option (\<lambda>bs. (w * 4 + x div 16) # (x mod 16 * 16 + y div 4) # (y mod 4 * 64 + z) # bs)
            (base64_values cs)
      | (Some w, Some x, Some y, None) \<Rightarrow>
          (if s = CHR ''='' \<and> cs = [] then Some [w * 4 + x div 16, x mod 16 * 16 + y div 4] else None)
      | (Some w, Some x, None, None) \<Rightarrow>
          (if r = CHR ''='' \<and> s = CHR ''='' \<and> cs = [] then Some [w * 4 + x div 16] else None)
      | _ \<Rightarrow> None)"
| "base64_values _ = None"

definition StdDecode :: "string \<Rightarrow> bytes option" where
  "StdDecode s = map_option (map of_nat)
     (base64_values (filter (\<lambda>c. (of_char c :: nat) \<notin> {10, 13}) s))"

lemma length_alphabets: "length std_alphabet = 64" "length url_alphabet = 64"
  by (simp_all add: std_alphabet_def url_alphabet_def)

lemma std_alphabet_vals: "map std_val std_alphabet = map Some [0..<64]"
  by (simp add: std_alphabet_def std_val_def upt_rec)

lemma std_val_nth [simp]:
  assumes "i < 64"
  shows "std_val (std_alphabet ! i) = Some i"
proof -
  have "map std_val std_alphabet ! i = map Some [0..<64] ! i" by (simp only: std_alphabet_vals)
  then show ?thesis using assms by (simp add: length_alphabets)
qed

lemma unat_bytes_less: "\<forall>a \<in> set (map unat bs). a < 256" for bs :: bytes
proof -
  have "unat b < 256" for b :: u8 using unsigned_less [of b, where ?'a = nat] by simp
  then show ?thesis by auto
qed

lemma std_val_pad [simp]: "std_val (CHR ''='') = None"
  by (simp add: std_val_def)

lemma base64_values_base64:
  "\<forall>a \<in> set bs. a < 256 \<Longrightarrow> base64_values (base64 std_alphabet True bs) = Some bs"
proof (induction "std_alphabet" "True" bs rule: base64.induct)
  case (2 a)
  then have "a div 4 < 64" "a mod 4 * 16 < 64" by auto
  then show ?case by simp
next
  case (3 a b)
  then have "a div 4 < 64" "a mod 4 * 16 + b div 16 < 64" "b mod 16 * 4 < 64" by auto
  moreover from this have "(a mod 4 * 16 + b div 16) div 16 = a mod 4"
    "(a mod 4 * 16 + b div 16) mod 16 = b div 16" using 3 by auto
  ultimately show ?case by simp
next
  case (4 a b c bs)
  then have "a div 4 < 64" "a mod 4 * 16 + b div 16 < 64" "b mod 16 * 4 + c div 64 < 64"
    "c mod 64 < 64" by auto
  moreover have "(a mod 4 * 16 + b div 16) div 16 = a mod 4"
    "(a mod 4 * 16 + b div 16) mod 16 = b div 16" "(b mod 16 * 4 + c div 64) div 4 = b mod 16"
    "(b mod 16 * 4 + c div 64) mod 4 = c div 64" using 4 by auto
  ultimately show ?case using 4 by simp
qed simp

lemma base64_chars: "list_all (\<lambda>c. c \<in> set al \<or> c = CHR ''='') (base64 al pad bs)"
  if "length al = 64" "\<forall>a \<in> set bs. a < 256"
  using that
proof (induction al pad bs rule: base64.induct)
  case (2 al pad a)
  then have "a div 4 < length al" "a mod 4 * 16 < length al" by auto
  then show ?case by simp
next
  case (3 al pad a b)
  then have "a div 4 < length al" "a mod 4 * 16 + b div 16 < length al" "b mod 16 * 4 < length al"
    by auto
  then show ?case by simp
next
  case (4 al pad a b c bs)
  then have "a div 4 < length al" "a mod 4 * 16 + b div 16 < length al"
    "b mod 16 * 4 + c div 64 < length al" "c mod 64 < length al" by auto
  then show ?case using 4 by simp
qed simp

lemma std_alphabet_plain:
  "list_all (\<lambda>c. 32 \<le> (of_char c :: nat) \<and> (of_char c :: nat) < 128 \<and>
     c \<noteq> CHR 0x22 \<and> c \<noteq> CHR 0x5C) (std_alphabet @ ''='')"
  unfolding std_alphabet_def by simp

lemma plain_StdEncode: "plain (StdEncode bs)"
proof -
  have "list_all (\<lambda>c. c \<in> set std_alphabet \<or> c = CHR ''='') (StdEncode bs)"
    unfolding StdEncode_def by (rule base64_chars [OF length_alphabets(1) unat_bytes_less])
  then have "set (StdEncode bs) \<subseteq> set (std_alphabet @ ''='')"
    by (simp only: list_all_iff set_append list.set) blast
  then show ?thesis
    using std_alphabet_plain unfolding plain_def list_all_iff by blast
qed

lemma StdDecode_StdEncode: "StdDecode (StdEncode bs) = Some bs"
proof -
  have "(of_char c :: nat) \<notin> {10, 13}" if "c \<in> set (StdEncode bs)" for c
  proof -
    have "32 \<le> (of_char c :: nat)"
      using plain_StdEncode [of bs] that unfolding plain_def list_all_iff by blast
    then show ?thesis by auto
  qed
  then have "filter (\<lambda>c. (of_char c :: nat) \<notin> {10, 13}) (StdEncode bs) = StdEncode bs"
    by (rule filter_True [OF ballI])
  moreover have "base64_values (StdEncode bs) = Some (map unat bs)"
    unfolding StdEncode_def by (rule base64_values_base64 [OF unat_bytes_less])
  ultimately show ?thesis
    unfolding StdDecode_def by (simp add: comp_def)
qed

end
