(* ===== verification/RankingPersist.thy ===== *)
theory RankingPersist
  imports RankingStore Base64 "HOL-Library.List_Lexorder" "HOL-Library.Char_ord"
begin

text \<open>
  The contents of the file behind the leaderboard store of \<^verbatim>\<open>src/ranking/store.go\<close>: the text \<^verbatim>\<open>save\<close>
  writes, and what \<^verbatim>\<open>json.Unmarshal\<close> makes of a text (reading and writing the file itself is the next
  theory). A decoded file may hold \<^verbatim>\<open>null\<close> entries, which Go stores as nil pointers. An empty blob is
  written as Go writes a nil slice, \<^verbatim>\<open>null\<close>.
\<close>

subsection \<open>Building a map in a loop\<close>

definition build_map :: "('k \<times> 'v) list \<Rightarrow> 'k \<rightharpoonup> 'v" where
  "build_map kvs = fold (\<lambda>(k, v) m. m(k \<mapsto> v)) kvs Map.empty"

lemma fold_upd: "fold (\<lambda>(k, v) m. m(k \<mapsto> v)) kvs m = m ++ map_of (rev kvs)"
  by (induction kvs arbitrary: m) (auto simp: map_add_assoc [symmetric])

lemma map_of_rev: "distinct (map fst kvs) \<Longrightarrow> map_of (rev kvs) = map_of kvs"
proof (rule ext)
  fix k
  assume d: "distinct (map fst kvs)"
  then have "distinct (map fst (rev kvs))" by (simp add: rev_map [symmetric])
  with d show "map_of (rev kvs) k = map_of kvs k"
    by (metis map_of_eq_Some_iff not_Some_eq set_rev)
qed

lemma build_map_of: "distinct (map fst kvs) \<Longrightarrow> build_map kvs = map_of kvs"
  by (simp add: build_map_def fold_upd map_of_rev)

text \<open>Renaming the keys of a map one to one, in any order.\<close>

lemma build_map_rename:
  assumes "visits_all ord" and "finite (dom m)" and "inj_on f (dom m)"
  shows "build_map (map (\<lambda>(k, v). (f k, g v)) (range_map m (ord (dom m)))) y = Some w \<longleftrightarrow>
    (\<exists>k v. m k = Some v \<and> f k = y \<and> g v = w)"
proof -
  let ?xs = "range_map m (ord (dom m))" and ?h = "\<lambda>(k, v). (f k, g v)"
  have set: "set ?xs = {(k, v). m k = Some v}" by (rule range_map_visits_all(1) [OF assms(1,2)])
  have fsts: "map fst (map ?h ?xs) = map f (map fst ?xs)" by auto
  have "set (map fst ?xs) = dom m" using set by force
  then have "distinct (map fst (map ?h ?xs))"
    unfolding fsts using range_map_visits_all(3) [OF assms(1,2)] assms(3)
    by (auto simp: distinct_map intro!: comp_inj_on)
  then have "build_map (map ?h ?xs) y = Some w \<longleftrightarrow> (y, w) \<in> set (map ?h ?xs)"
    by (simp only: build_map_of map_of_eq_Some_iff)
  also have "\<dots> \<longleftrightarrow> (\<exists>k v. m k = Some v \<and> f k = y \<and> g v = w)"
    using set by (auto simp: image_iff)
  finally show ?thesis .
qed

lemma map_eqI: "(\<And>k v. m k = Some v \<longleftrightarrow> n k = Some v) \<Longrightarrow> m = n"
  by (rule ext) (metis not_None_eq)

subsection \<open>The JSON of a store\<close>

record persisted_state =
  p_Scores :: "string \<rightharpoonup> string \<rightharpoonup> entry option"
  p_CommonData :: "string \<rightharpoonup> bytes"

abbreviation uint_json :: "nat \<Rightarrow> json" where
  "uint_json n \<equiv> JNum (FormatUint n)"

definition blob_json :: "bytes \<Rightarrow> json" where
  "blob_json b = (if b = [] then JNull else JStr (StdEncode b))"

definition entry_json :: "entry option \<Rightarrow> json" where
  "entry_json p = (case p of None \<Rightarrow> JNull | Some e \<Rightarrow> JObj
     ([(''pid'', uint_json (unat (e_PID e))), (''uniqueId'', uint_json (unat (e_UniqueID e))),
       (''category'', uint_json (unat (e_Category e))), (''score'', uint_json (unat (e_Score e))),
       (''orderBy'', uint_json (unat (e_OrderBy e)))] @
      (if e_Groups e = [] then [] else [(''groups'', JStr (StdEncode (e_Groups e)))]) @
      [(''param'', uint_json (unat (e_Param e))), (''updateTime'', uint_json (unat (e_UpdateTime e)))]))"

text \<open>\<^verbatim>\<open>MarshalIndent\<close> writes the keys of a map in ascending order.\<close>

definition map_json :: "('v \<Rightarrow> json) \<Rightarrow> (string \<rightharpoonup> 'v) \<Rightarrow> json" where
  "map_json f m = JObj (map (\<lambda>(k, v). (k, f v)) (range_map m (sorted_list_of_set (dom m))))"

definition state_json :: "persisted_state \<Rightarrow> json" where
  "state_json p = JObj
     [(''scores'', map_json (map_json entry_json) (p_Scores p)),
      (''commonData'', map_json blob_json (p_CommonData p))]"

definition persisted :: "ranking_env \<Rightarrow> ranking_store \<Rightarrow> persisted_state" where
  "persisted E st =
     \<lparr>p_Scores = build_map (map (\<lambda>(category, entries).
         (FormatUint (unat category),
          build_map (map (\<lambda>(pid, e). (FormatUint (unat pid), Some e))
            (range_map entries (entryOrder E (dom entries))))))
         (range_map (scores st) (categoryOrder E (dom (scores st))))),
      p_CommonData = build_map (map (\<lambda>(uniqueID, blob). (FormatUint (unat uniqueID), blob))
         (range_map (commonData st) (entryOrder E (dom (commonData st)))))\<rparr>"

definition contents_of :: "ranking_env \<Rightarrow> ranking_store \<Rightarrow> string" where
  "contents_of E st = MarshalIndent (state_json (persisted E st))"

subsection \<open>json.Unmarshal into the persisted state\<close>

text \<open>Field names are compared up to case, where the long s and the Kelvin sign count as letters.\<close>

fun fold_name :: "string \<Rightarrow> string" where
  "fold_name [] = []"
| "fold_name (c # cs) =
     (if c = CHR 0xC5 \<and> take 1 cs = [CHR 0xBF] then CHR ''s'' # fold_name (drop 1 cs)
      else if c = CHR 0xE2 \<and> take 2 cs = [CHR 0x84, CHR 0xAA] then CHR ''k'' # fold_name (drop 2 cs)
      else to_lower_char c # fold_name cs)"

declare fold_name.simps [simp del]

fun fold_fields :: "('f \<Rightarrow> 's \<Rightarrow> 's option) \<Rightarrow> 'f list \<Rightarrow> 's \<Rightarrow> 's option" where
  "fold_fields f [] s = Some s"
| "fold_fields f (x # xs) s = Option.bind (f x s) (fold_fields f xs)"

definition decode_uint :: "nat \<Rightarrow> json \<Rightarrow> 'w::len word \<Rightarrow> 'w word option" where
  "decode_uint bits j current =
     (case j of
        JNull \<Rightarrow> Some current
      | JNum s \<Rightarrow> map_option of_nat (ParseUint s bits)
      | _ \<Rightarrow> None)"

definition decode_blob :: "json \<Rightarrow> bytes option" where
  "decode_blob j =
     (case j of
        JNull \<Rightarrow> Some []
      | JStr s \<Rightarrow> StdDecode s
      | JArr vs \<Rightarrow> fold_fields (\<lambda>v bs. map_option (\<lambda>b. bs @ [b]) (decode_uint 8 v 0)) vs []
      | _ \<Rightarrow> None)"

definition entry_field :: "string \<times> json \<Rightarrow> entry \<Rightarrow> entry option" where
  "entry_field = (\<lambda>(k, v) e. let f = fold_name k in
     if f = ''pid'' then map_option (\<lambda>x. e\<lparr>e_PID := x\<rparr>) (decode_uint 64 v (e_PID e))
     else if f = ''uniqueid'' then map_option (\<lambda>x. e\<lparr>e_UniqueID := x\<rparr>) (decode_uint 64 v (e_UniqueID e))
     else if f = ''category'' then map_option (\<lambda>x. e\<lparr>e_Category := x\<rparr>) (decode_uint 32 v (e_Category e))
     else if f = ''score'' then map_option (\<lambda>x. e\<lparr>e_Score := x\<rparr>) (decode_uint 32 v (e_Score e))
     else if f = ''orderby'' then map_option (\<lambda>x. e\<lparr>e_OrderBy := x\<rparr>) (decode_uint 8 v (e_OrderBy e))
     else if f = ''groups'' then map_option (\<lambda>x. e\<lparr>e_Groups := x\<rparr>) (decode_blob v)
     else if f = ''param'' then map_option (\<lambda>x. e\<lparr>e_Param := x\<rparr>) (decode_uint 64 v (e_Param e))
     else if f = ''updatetime'' then
       map_option (\<lambda>x. e\<lparr>e_UpdateTime := x\<rparr>) (decode_uint 64 v (e_UpdateTime e))
     else Some e)"

definition zero_entry :: entry where
  "zero_entry = \<lparr>e_PID = 0, e_UniqueID = 0, e_Category = 0, e_Score = 0, e_OrderBy = 0,
     e_Groups = [], e_Param = 0, e_UpdateTime = 0\<rparr>"

definition decode_entry :: "json \<Rightarrow> entry option option" where
  "decode_entry j =
     (case j of
        JNull \<Rightarrow> Some None
      | JObj ms \<Rightarrow> map_option Some (fold_fields entry_field ms zero_entry)
      | _ \<Rightarrow> None)"

definition decode_map :: "(json \<Rightarrow> 'v option) \<Rightarrow> json \<Rightarrow> (string \<rightharpoonup> 'v) \<Rightarrow> (string \<rightharpoonup> 'v) option" where
  "decode_map dec j m =
     (case j of
        JNull \<Rightarrow> Some Map.empty
      | JObj ms \<Rightarrow> fold_fields (\<lambda>(k, v) m. map_option (\<lambda>x. m(k \<mapsto> x)) (dec v)) ms m
      | _ \<Rightarrow> None)"

definition state_field :: "string \<times> json \<Rightarrow> persisted_state \<Rightarrow> persisted_state option" where
  "state_field = (\<lambda>(k, v) p. let f = fold_name k in
     if f = ''scores'' then
       map_option (\<lambda>x. p\<lparr>p_Scores := x\<rparr>)
         (decode_map (\<lambda>j. decode_map decode_entry j Map.empty) v (p_Scores p))
     else if f = ''commondata'' then
       map_option (\<lambda>x. p\<lparr>p_CommonData := x\<rparr>) (decode_map decode_blob v (p_CommonData p))
     else Some p)"

definition decode_state :: "json \<Rightarrow> persisted_state option" where
  "decode_state j =
     (let zero = \<lparr>p_Scores = Map.empty, p_CommonData = Map.empty\<rparr> in
      case j of
        JNull \<Rightarrow> Some zero
      | JObj ms \<Rightarrow> fold_fields state_field ms zero
      | _ \<Rightarrow> None)"

definition Unmarshal :: "string \<Rightarrow> persisted_state option" where
  "Unmarshal s = Option.bind (parse_json s) decode_state"

subsection \<open>What was written is read back\<close>

lemma fold_names [simp]:
  "fold_name ''pid'' = ''pid''" "fold_name ''uniqueId'' = ''uniqueid''"
  "fold_name ''category'' = ''category''" "fold_name ''score'' = ''score''"
  "fold_name ''orderBy'' = ''orderby''" "fold_name ''groups'' = ''groups''"
  "fold_name ''param'' = ''param''" "fold_name ''updateTime'' = ''updatetime''"
  "fold_name ''scores'' = ''scores''" "fold_name ''commonData'' = ''commondata''"
  by code_simp+

lemma plain_names [simp]:
  "plain ''pid''" "plain ''uniqueId''" "plain ''category''" "plain ''score''" "plain ''orderBy''"
  "plain ''groups''" "plain ''param''" "plain ''updateTime''" "plain ''scores''" "plain ''commonData''"
  by (simp_all add: plain_def)

lemma decode_uint_json [simp]:
  "decode_uint LENGTH('w) (uint_json (unat x)) c = Some x" for x :: "'w::len word"
proof -
  have "unat x < 2 ^ LENGTH('w)" by (rule unsigned_less)
  then show ?thesis by (simp add: decode_uint_def ParseUint_FormatUint)
qed

lemmas decode_uint_widths [simp] =
  decode_uint_json [where 'w = 64, simplified] decode_uint_json [where 'w = 32, simplified]
  decode_uint_json [where 'w = 8, simplified]

lemma decode_blob_json [simp]: "decode_blob (blob_json b) = Some b"
  by (simp add: decode_blob_def blob_json_def StdDecode_StdEncode)

lemma decode_entry_json [simp]: "decode_entry (entry_json (Some e)) = Some (Some e)"
  by (simp add: decode_entry_def entry_json_def entry_field_def Let_def zero_entry_def
      decode_blob_def StdDecode_StdEncode)

lemma decode_entry_not_nil: "p \<noteq> None \<Longrightarrow> decode_entry (entry_json p) = Some p"
  by (cases p) simp_all

lemma fold_fields_map:
  "\<forall>(k, v) \<in> set kvs. dec (f v) = Some v \<Longrightarrow>
   fold_fields (\<lambda>(k, v) m. map_option (\<lambda>x. m(k \<mapsto> x)) (dec v)) (map (\<lambda>(k, v). (k, f v)) kvs) m =
   Some (fold (\<lambda>(k, v) m. m(k \<mapsto> v)) kvs m)"
  by (induction kvs arbitrary: m) auto

lemma build_map_range:
  assumes "visits_all ord" and "finite (dom m)"
  shows "build_map (range_map m (ord (dom m))) = m"
proof (rule map_eqI)
  show "build_map (range_map m (ord (dom m))) k = Some v \<longleftrightarrow> m k = Some v" for k v
    using build_map_rename [OF assms, of "\<lambda>k. k" "\<lambda>v. v" k v] by simp
qed

lemma decode_map_json:
  assumes "finite (dom m)" and "\<And>k v. m k = Some v \<Longrightarrow> dec (f v) = Some v"
  shows "decode_map dec (map_json f m) Map.empty = Some m"
proof -
  have "\<forall>(k, v) \<in> set (range_map m (sorted_list_of_set (dom m))). dec (f v) = Some v"
    using assms(2) by (auto simp: set_range_map)
  from fold_fields_map [where dec = dec and f = f, OF this] show ?thesis
    using build_map_range [OF visits_all_sorted assms(1)]
    by (simp add: decode_map_def map_json_def build_map_def)
qed

definition persisted_ok :: "persisted_state \<Rightarrow> bool" where
  "persisted_ok p \<longleftrightarrow> finite (dom (p_Scores p)) \<and> finite (dom (p_CommonData p)) \<and>
     (\<forall>k es. p_Scores p k = Some es \<longrightarrow> finite (dom es) \<and> (\<forall>q e. es q = Some e \<longrightarrow> e \<noteq> None))"

lemma decode_state_json:
  assumes "persisted_ok p"
  shows "decode_state (state_json p) = Some p"
proof -
  have "decode_map (\<lambda>j. decode_map decode_entry j Map.empty)
      (map_json (map_json entry_json) (p_Scores p)) Map.empty = Some (p_Scores p)"
  proof (rule decode_map_json)
    show "decode_map decode_entry (map_json entry_json es) Map.empty = Some es"
      if "p_Scores p k = Some es" for k es
      using assms that unfolding persisted_ok_def
      by (intro decode_map_json) (blast intro: decode_entry_not_nil)+
  qed (use assms in \<open>simp add: persisted_ok_def\<close>)
  moreover have "decode_map decode_blob (map_json blob_json (p_CommonData p)) Map.empty =
      Some (p_CommonData p)"
    by (rule decode_map_json) (use assms in \<open>auto simp: persisted_ok_def\<close>)
  ultimately show ?thesis
    by (simp add: decode_state_def state_json_def state_field_def Let_def)
qed

definition plain_keys :: "(string \<rightharpoonup> 'v) \<Rightarrow> bool" where
  "plain_keys m \<longleftrightarrow> (\<forall>k \<in> dom m. plain k)"

lemma writable_map_json:
  "0 < d \<Longrightarrow> plain_keys m \<Longrightarrow> (\<And>k v. m k = Some v \<Longrightarrow> writable (d - 1) (f v)) \<Longrightarrow>
   writable d (map_json f m)"
  by (auto simp: map_json_def list_all_iff set_range_map plain_keys_def)

lemma writable_entry: "0 < d \<Longrightarrow> writable d (entry_json p)"
  using writable_FormatUint [where d = "d - 1"]
  by (simp add: entry_json_def plain_StdEncode split: option.splits)

lemma writable_blob: "writable d (blob_json b)"
  by (simp add: blob_json_def plain_StdEncode)

lemma writable_state:
  assumes "plain_keys (p_Scores p)" and "plain_keys (p_CommonData p)"
    and "\<And>k es. p_Scores p k = Some es \<Longrightarrow> plain_keys es" and "4 \<le> d"
  shows "writable d (state_json p)"
proof -
  have "writable (d - 1) (map_json (map_json entry_json) (p_Scores p))"
    by (rule writable_map_json) (use assms in \<open>auto intro!: writable_map_json writable_entry\<close>)
  moreover have "writable (d - 1) (map_json blob_json (p_CommonData p))"
    by (rule writable_map_json) (use assms in \<open>auto intro: writable_blob\<close>)
  ultimately show ?thesis using assms(4) by (simp add: state_json_def)
qed

text \<open>The keys of a saved store are decimal numbers.\<close>

abbreviation decimal :: "'w::len word \<Rightarrow> string" where
  "decimal x \<equiv> FormatUint (unat x)"

lemma inj_decimal: "inj (decimal :: 'w::len word \<Rightarrow> string)"
  by (rule injI) (metis FormatUint_inject word_unat_eq_iff)

definition env_orders :: "ranking_env \<Rightarrow> bool" where
  "env_orders E \<longleftrightarrow> visits_all (entryOrder E) \<and> visits_all (categoryOrder E) \<and> visits_all (keyOrder E)"

end
