(* ===== verification/RankingFile.thy ===== *)
theory RankingFile
  imports RankingPersist
begin

text \<open>
  Reading and writing the file of the leaderboard store (\<^verbatim>\<open>load\<close>, \<^verbatim>\<open>save\<close> and \<^verbatim>\<open>NewStore\<close> of
  \<^verbatim>\<open>src/ranking/store.go\<close>). A file system is a map from paths to contents; what its operations answer
  is the record \<^verbatim>\<open>io\<close>. The steps of a save are an inductive relation, so that a crash is any state it
  reaches.
\<close>

subsection \<open>fmt.Sscanf with the verb d\<close>

text \<open>A newline is not a space here: it makes the scan fail.\<close>

function skip_space :: "string \<Rightarrow> string option" where
  "skip_space s =
     (if s \<noteq> [] \<and> hd s = CHR 0x0A then None
      else if space_length s = 0 then Some s
      else skip_space (drop (space_length s) s))"
  by pat_completeness auto
termination
proof (relation "measure length")
  fix s
  assume "space_length s \<noteq> 0"
  then have "s \<noteq> []" by auto
  with \<open>space_length s \<noteq> 0\<close> show "(drop (space_length s) s, s) \<in> measure length" by simp
qed simp

declare skip_space.simps [simp del]

definition Sscanf_d :: "nat \<Rightarrow> string \<Rightarrow> nat option" where
  "Sscanf_d bits s =
     (case skip_space s of
        None \<Rightarrow> None
      | Some r \<Rightarrow>
          (case ParseUint (takeWhile is_digit r) 64 of
             None \<Rightarrow> None
           | Some n \<Rightarrow> if n < 2 ^ bits then Some n else None))"

lemma Sscanf_d_FormatUint:
  assumes "n < 2 ^ bits" and "bits \<le> 64"
  shows "Sscanf_d bits (FormatUint n) = Some n"
proof -
  obtain c cs where c: "FormatUint n = c # cs"
    using FormatUint_nonempty [of n] by (meson neq_Nil_conv)
  have digits: "list_all is_digit (FormatUint n)" by (rule FormatUint_is_digit)
  then have "48 \<le> (of_char c :: nat) \<and> (of_char c :: nat) \<le> 57"
    using c by (auto simp: is_digit_def digit_val_def Let_def split: if_splits)
  then have "space_length (FormatUint n) = 0 \<and> c \<noteq> CHR 0x0A"
    using c by (auto simp: space_length_def Let_def)
  then have "skip_space (FormatUint n) = Some (FormatUint n)"
    using c by (simp add: skip_space.simps)
  moreover have "takeWhile is_digit (FormatUint n) = FormatUint n"
    using digits by (simp add: list_all_iff takeWhile_eq_all_conv)
  moreover have "n < 2 ^ 64"
    using assms less_le_trans [of n "2 ^ bits" "2 ^ 64"] power_increasing [of bits 64 "2 :: nat"] by simp
  ultimately show ?thesis using assms
    by (simp only: Sscanf_d_def option.case ParseUint_FormatUint if_True)
qed

subsection \<open>load\<close>

definition load_entries :: "(string \<times> entry option) list \<Rightarrow> u64 \<rightharpoonup> entry option" where
  "load_entries entries =
     fold (\<lambda>(pidKey, e) m. case Sscanf_d 64 pidKey of None \<Rightarrow> m | Some pid \<Rightarrow> m(of_nat pid \<mapsto> e))
       entries Map.empty"

definition load_scores ::
  "ranking_env \<Rightarrow> (string \<rightharpoonup> string \<rightharpoonup> entry option) \<Rightarrow> u32 \<rightharpoonup> u64 \<rightharpoonup> entry option" where
  "load_scores E p =
     fold (\<lambda>(categoryKey, entries) m. case Sscanf_d 32 categoryKey of
         None \<Rightarrow> m
       | Some category \<Rightarrow>
           m(of_nat category \<mapsto> load_entries (range_map entries (keyOrder E (dom entries)))))
       (range_map p (keyOrder E (dom p))) Map.empty"

definition load_common :: "ranking_env \<Rightarrow> (string \<rightharpoonup> bytes) \<Rightarrow> u64 \<rightharpoonup> bytes" where
  "load_common E p =
     fold (\<lambda>(uniqueIDKey, blob) m. case Sscanf_d 64 uniqueIDKey of
         None \<Rightarrow> m | Some uniqueID \<Rightarrow> m(of_nat uniqueID \<mapsto> blob))
       (range_map p (keyOrder E (dom p))) Map.empty"

type_synonym files = "string \<rightharpoonup> string"

text \<open>What the operating system answers: an error text, and for a failed write the number of bytes it
  left in the file (none at all if the file could not be opened).\<close>

record io =
  read_error :: "string option"
  mkdir_error :: "string option"
  write_error :: "(nat option \<times> string) option"
  rename_error :: "string option"

datatype load_result = Loaded ranking_store | LoadedNil | ReadFailed string | ParseFailed

definition load :: "ranking_env \<Rightarrow> io \<Rightarrow> files \<Rightarrow> string \<Rightarrow> load_result" where
  "load E F fs path =
     (case read_error F of
        Some e \<Rightarrow> ReadFailed (''failed to read '' @ path @ '': '' @ e)
      | None \<Rightarrow>
          (case fs path of
             None \<Rightarrow> Loaded NewRankingStore
           | Some contents \<Rightarrow>
               (case Unmarshal contents of
                  None \<Rightarrow> ParseFailed
                | Some p \<Rightarrow>
                    (let sc = load_scores E (p_Scores p) in
                     if \<exists>m \<in> ran sc. None \<in> ran m then LoadedNil
                     else Loaded \<lparr>scores = (\<lambda>c. map_option (\<lambda>m q. Option.bind (m q) id) (sc c)),
                                  commonData = load_common E (p_CommonData p)\<rparr>))))"

definition ranking_path :: "string \<Rightarrow> string" where
  "ranking_path dataDir = Join dataDir ''ranking.json''"

definition NewStore_ranking :: "ranking_env \<Rightarrow> io \<Rightarrow> files \<Rightarrow> string \<Rightarrow> load_result" where
  "NewStore_ranking E F fs dataDir = load E F fs (ranking_path dataDir)"

subsection \<open>save\<close>

definition save ::
  "ranking_env \<Rightarrow> io \<Rightarrow> string \<Rightarrow> ranking_store \<Rightarrow> files \<Rightarrow> files \<times> string option" where
  "save E F path st fs =
     (let contents = contents_of E st; temporary = path @ ''.tmp'' in
      case mkdir_error F of
        Some e \<Rightarrow> (fs, Some (''failed to create '' @ Dir path @ '': '' @ e))
      | None \<Rightarrow>
          (case write_error F of
             Some (None, e) \<Rightarrow> (fs, Some (''failed to write '' @ temporary @ '': '' @ e))
           | Some (Some n, e) \<Rightarrow>
               (fs(temporary \<mapsto> take n contents), Some (''failed to write '' @ temporary @ '': '' @ e))
           | None \<Rightarrow>
               (case rename_error F of
                  Some e \<Rightarrow> (fs(temporary \<mapsto> contents),
                             Some (''failed to replace '' @ path @ '': '' @ e))
                | None \<Rightarrow> (fs(temporary := None, path \<mapsto> contents), None))))"

text \<open>The same save step by step; the process may stop after any step.\<close>

datatype save_pc = Started | Writing nat | Written | Renamed

inductive save_step ::
  "string \<Rightarrow> string \<Rightarrow> save_pc \<times> files \<Rightarrow> save_pc \<times> files \<Rightarrow> bool"
  for path contents where
  truncated: "save_step path contents (Started, fs) (Writing 0, fs(path @ ''.tmp'' \<mapsto> []))"
| wrote: "n < length contents \<Longrightarrow>
    save_step path contents (Writing n, fs)
      (Writing (Suc n), fs(path @ ''.tmp'' \<mapsto> take (Suc n) contents))"
| complete: "save_step path contents (Writing (length contents), fs) (Written, fs)"
| renamed: "save_step path contents (Written, fs)
      (Renamed, fs(path @ ''.tmp'' := None, path := fs (path @ ''.tmp'')))"

inductive_cases save_stepE: "save_step path contents (pc, fs) (pc', fs')"

text \<open>The file under the store's name is the old one until the rename and the complete new one after it.\<close>

definition save_inv :: "string \<Rightarrow> string \<Rightarrow> files \<Rightarrow> save_pc \<times> files \<Rightarrow> bool" where
  "save_inv path contents fs0 = (\<lambda>(pc, fs).
     (\<forall>k. k \<noteq> path \<and> k \<noteq> path @ ''.tmp'' \<longrightarrow> fs k = fs0 k) \<and>
     (case pc of
        Started \<Rightarrow> fs = fs0
      | Writing n \<Rightarrow> fs path = fs0 path \<and> fs (path @ ''.tmp'') = Some (take n contents)
      | Written \<Rightarrow> fs path = fs0 path \<and> fs (path @ ''.tmp'') = Some contents
      | Renamed \<Rightarrow> fs path = Some contents))"

lemma temporary_differs [simp]: "path @ ''.tmp'' \<noteq> path" "path \<noteq> path @ ''.tmp''"
  by simp_all

interpretation saving: invariant_system "\<lambda>s. s = (Started, fs0)" "save_step path contents"
  "save_inv path contents fs0"
proof
  show "save_inv path contents fs0 s" if "s = (Started, fs0)" for s
    using that by (simp add: save_inv_def)
  show "save_inv path contents fs0 t"
    if "save_step path contents s t" "save_inv path contents fs0 s" for s t
    using that by (induction rule: save_step.induct) (auto simp: save_inv_def)
qed

lemma crash_old_or_new:
  "(save_step path contents)\<^sup>*\<^sup>* (Started, fs0) (pc, fs) \<Longrightarrow>
   fs path = fs0 path \<or> fs path = Some contents"
  using saving.inv_reachable [OF refl, of path contents fs0 "(pc, fs)"]
  by (auto simp: save_inv_def split: save_pc.splits)

subsection \<open>What was saved is loaded\<close>

lemma fold_known:
  "\<forall>(k, v) \<in> set kvs. \<exists>n. sc k = Some n \<Longrightarrow>
   fold (\<lambda>(k, v) r. case sc k of None \<Rightarrow> r | Some n \<Rightarrow> r(of_nat n \<mapsto> g v)) kvs r0 =
   fold (\<lambda>(k, v) r. r(k \<mapsto> v)) (map (\<lambda>(k, v). (of_nat (the (sc k)), g v)) kvs) r0"
  by (induction kvs arbitrary: r0) (auto split: option.splits)

lemma Sscanf_decimal: "LENGTH('w::len) \<le> 64 \<Longrightarrow> Sscanf_d LENGTH('w) (decimal (x :: 'w word)) = Some (unat x)"
  by (rule Sscanf_d_FormatUint) (rule unsigned_less)

text \<open>Writing a map under decimal keys and reading it back in any orders.\<close>

lemma reload:
  fixes m :: "'w::len word \<rightharpoonup> 'v"
  assumes "visits_all ord" and "visits_all kord" and "finite (dom m)" and "LENGTH('w) \<le> 64"
    and P: "P = build_map (map (\<lambda>(k, v). (decimal k, h v)) (range_map m (ord (dom m))))"
  shows "fold (\<lambda>(key, v) r. case Sscanf_d LENGTH('w) key of
        None \<Rightarrow> r | Some n \<Rightarrow> r(of_nat n \<mapsto> g v)) (range_map P (kord (dom P))) Map.empty =
    (\<lambda>k. map_option (\<lambda>v. g (h v)) (m k))"
proof -
  let ?f = "\<lambda>key. of_nat (the (Sscanf_d LENGTH('w) key)) :: 'w word"
  have PSome: "P key = Some w \<longleftrightarrow> (\<exists>k v. m k = Some v \<and> decimal k = key \<and> h v = w)" for key w
    unfolding P by (rule build_map_rename [OF assms(1,3)]) (metis inj_decimal inj_on_subset top_greatest)
  have scan: "Sscanf_d LENGTH('w) (decimal k) = Some (unat k)" for k :: "'w word"
    using assms(4) by (rule Sscanf_decimal)
  have f: "?f (decimal k) = k" for k by (simp add: scan)
  have dom: "dom P = decimal ` dom m"
    using PSome by (auto simp: dom_def image_iff)
  then have fin: "finite (dom P)" using assms(3) by simp
  have inj: "inj_on ?f (dom P)" unfolding dom by (rule inj_onI) (auto simp: f)
  have "\<forall>(k, v) \<in> set (range_map P (kord (dom P))). \<exists>n. Sscanf_d LENGTH('w) k = Some n"
    using PSome scan by (fastforce simp: set_range_map)
  from fold_known [OF this, of g Map.empty]
  have "fold (\<lambda>(key, v) r. case Sscanf_d LENGTH('w) key of
        None \<Rightarrow> r | Some n \<Rightarrow> r(of_nat n \<mapsto> g v)) (range_map P (kord (dom P))) Map.empty =
      build_map (map (\<lambda>(k, v). (?f k, g v)) (range_map P (kord (dom P))))"
    by (simp only: build_map_def)
  also have "\<dots> = (\<lambda>k. map_option (\<lambda>v. g (h v)) (m k))"
  proof (rule map_eqI)
    fix k w
    have "build_map (map (\<lambda>(k, v). (?f k, g v)) (range_map P (kord (dom P)))) k = Some w \<longleftrightarrow>
        (\<exists>key v. P key = Some v \<and> ?f key = k \<and> g v = w)"
      by (rule build_map_rename [OF assms(2) fin inj])
    also have "\<dots> \<longleftrightarrow> (\<exists>v. m k = Some v \<and> g (h v) = w)"
      using PSome f by metis
    finally show "build_map (map (\<lambda>(k, v). (?f k, g v)) (range_map P (kord (dom P)))) k = Some w \<longleftrightarrow>
        map_option (\<lambda>v. g (h v)) (m k) = Some w" by auto
  qed
  finally show ?thesis .
qed

lemma load_common_persisted:
  assumes "env_orders E" and "env_orders E'" and "ranking_ok st"
  shows "load_common E' (p_CommonData (persisted E st)) = commonData st"
proof -
  have "load_common E' (p_CommonData (persisted E st)) = (\<lambda>k. map_option (\<lambda>v. v) (commonData st k))"
    unfolding load_common_def
    by (rule reload [where 'w = 64, simplified])
      (use assms in \<open>auto simp: env_orders_def ranking_ok_def persisted_def\<close>)
  then show ?thesis by (simp add: option.map_ident)
qed

definition persisted_entries :: "ranking_env \<Rightarrow> (u64 \<rightharpoonup> entry) \<Rightarrow> string \<rightharpoonup> entry option" where
  "persisted_entries E entries = build_map (map (\<lambda>(pid, e). (decimal pid, Some e))
     (range_map entries (entryOrder E (dom entries))))"

lemma load_entries_persisted:
  assumes "env_orders E" and "env_orders E'" and "finite (dom entries)"
  shows "load_entries (range_map (persisted_entries E entries)
      (keyOrder E' (dom (persisted_entries E entries)))) = (\<lambda>q. map_option Some (entries q))"
  unfolding load_entries_def
  by (rule reload [where 'w = 64, simplified])
    (use assms in \<open>auto simp: env_orders_def persisted_entries_def\<close>)

lemma load_scores_persisted:
  assumes "env_orders E" and "env_orders E'" and "ranking_ok st"
  shows "load_scores E' (p_Scores (persisted E st)) =
    (\<lambda>c. map_option (\<lambda>entries q. map_option Some (entries q)) (scores st c))"
proof -
  have "load_scores E' (p_Scores (persisted E st)) =
      (\<lambda>c. map_option (\<lambda>entries. load_entries (range_map (persisted_entries E entries)
         (keyOrder E' (dom (persisted_entries E entries))))) (scores st c))"
    unfolding load_scores_def
    by (rule reload [where 'w = 32, simplified])
      (use assms in \<open>auto simp: env_orders_def ranking_ok_def persisted_def persisted_entries_def\<close>)
  also have "\<dots> = (\<lambda>c. map_option (\<lambda>entries q. map_option Some (entries q)) (scores st c))"
  proof (rule ext)
    fix c
    show "map_option (\<lambda>entries. load_entries (range_map (persisted_entries E entries)
         (keyOrder E' (dom (persisted_entries E entries))))) (scores st c) =
      map_option (\<lambda>entries q. map_option Some (entries q)) (scores st c)"
      by (rule map_option_cong [OF refl])
        (use assms in \<open>auto simp: ranking_ok_def intro!: load_entries_persisted\<close>)
  qed
  finally show ?thesis .
qed

lemma persisted_Some:
  assumes "env_orders E" and "ranking_ok st"
  shows "p_Scores (persisted E st) key = Some es \<longleftrightarrow>
      (\<exists>c entries. scores st c = Some entries \<and> decimal c = key \<and> persisted_entries E entries = es)"
    and "p_CommonData (persisted E st) key = Some b \<longleftrightarrow>
      (\<exists>u. commonData st u = Some b \<and> decimal u = key)"
    and "finite (dom entries) \<Longrightarrow> persisted_entries E entries key = Some x \<longleftrightarrow>
      (\<exists>p e. entries p = Some e \<and> decimal p = key \<and> Some e = x)"
proof -
  have inj: "inj_on (decimal :: 'w::len word \<Rightarrow> string) A" for A
    by (rule inj_on_subset [OF inj_decimal]) simp
  show "p_Scores (persisted E st) key = Some es \<longleftrightarrow>
      (\<exists>c entries. scores st c = Some entries \<and> decimal c = key \<and> persisted_entries E entries = es)"
    unfolding persisted_def persisted_entries_def persisted_state.simps
    by (rule build_map_rename) (use assms inj in \<open>auto simp: env_orders_def ranking_ok_def\<close>)
  have "p_CommonData (persisted E st) key = Some b \<longleftrightarrow>
      (\<exists>u v. commonData st u = Some v \<and> decimal u = key \<and> v = b)"
    unfolding persisted_def persisted_state.simps
    by (rule build_map_rename) (use assms inj in \<open>auto simp: env_orders_def ranking_ok_def\<close>)
  then show "p_CommonData (persisted E st) key = Some b \<longleftrightarrow>
      (\<exists>u. commonData st u = Some b \<and> decimal u = key)" by blast
  show "persisted_entries E entries key = Some x \<longleftrightarrow>
      (\<exists>p e. entries p = Some e \<and> decimal p = key \<and> Some e = x)" if "finite (dom entries)"
    unfolding persisted_entries_def
    by (rule build_map_rename) (use assms inj that in \<open>auto simp: env_orders_def\<close>)
qed

lemma finite_dom_renamed:
  assumes "finite (dom m)" and "\<And>key w. n key = Some w \<Longrightarrow> \<exists>k v. m k = Some v \<and> f k = key"
  shows "finite (dom n)"
proof (rule finite_subset)
  show "dom n \<subseteq> f ` dom m" using assms(2) by (force simp: dom_def image_iff)
qed (use assms(1) in simp)

lemma persisted_fine:
  assumes "env_orders E" and "ranking_ok st"
  shows "persisted_ok (persisted E st) \<and> writable maxNestingDepth (state_json (persisted E st))"
proof
  have entries: "finite (dom entries)" if "scores st c = Some entries" for c entries
    using assms(2) that by (auto simp: ranking_ok_def)
  have fin: "finite (dom (persisted_entries E entries))" if "finite (dom entries)" for entries
    by (rule finite_dom_renamed [OF that, where f = decimal]) (use persisted_Some(3) [OF assms that] in blast)
  show "persisted_ok (persisted E st)"
    unfolding persisted_ok_def
  proof (intro conjI allI impI)
    show "finite (dom (p_Scores (persisted E st)))"
      by (rule finite_dom_renamed [where m = "scores st" and f = decimal])
        (use assms persisted_Some(1) [OF assms] in \<open>auto simp: ranking_ok_def\<close>)
    show "finite (dom (p_CommonData (persisted E st)))"
      by (rule finite_dom_renamed [where m = "commonData st" and f = decimal])
        (use assms persisted_Some(2) [OF assms] in \<open>auto simp: ranking_ok_def\<close>)
    fix k es
    assume "p_Scores (persisted E st) k = Some es"
    then obtain c en where "scores st c = Some en" "persisted_entries E en = es"
      using persisted_Some(1) [OF assms] by blast
    note en = entries [OF this(1)] this(2)
    show "finite (dom es)" using fin [OF en(1)] en(2) by simp
    show "e \<noteq> None" if "es q = Some e" for q e
      using persisted_Some(3) [OF assms en(1)] en(2) that by auto
  qed
  show "writable maxNestingDepth (state_json (persisted E st))"
  proof (rule writable_state)
    show "plain_keys (p_Scores (persisted E st))"
      using persisted_Some(1) [OF assms] by (auto simp: plain_keys_def)
    show "plain_keys (p_CommonData (persisted E st))"
      using persisted_Some(2) [OF assms] by (auto simp: plain_keys_def)
    show "plain_keys es" if es: "p_Scores (persisted E st) k = Some es" for k es
    proof -
      obtain c en where "scores st c = Some en" "persisted_entries E en = es"
        using es persisted_Some(1) [OF assms] by blast
      then show ?thesis
        using persisted_Some(3) [OF assms entries] by (auto simp: plain_keys_def)
    qed
  qed (simp add: maxNestingDepth_def)
qed

text \<open>A saved store is loaded unchanged, whatever the orders of the two sides.\<close>

lemma load_contents:
  assumes "env_orders E" and "env_orders E'" and "ranking_ok st" and "read_error F = None"
    and "fs path = Some (contents_of E st)"
  shows "load E' F fs path = Loaded st"
proof -
  have "Unmarshal (contents_of E st) = Some (persisted E st)"
    using persisted_fine [OF assms(1,3)]
    by (simp add: Unmarshal_def contents_of_def parse_json_MarshalIndent decode_state_json)
  moreover have "(\<lambda>q. Option.bind (map_option Some (en q)) id) = en" for en :: "u64 \<rightharpoonup> entry"
  proof (rule ext)
    show "Option.bind (map_option Some (en q)) id = en q" for q by (cases "en q") simp_all
  qed
  ultimately show ?thesis
    using assms(4,5) load_scores_persisted [OF assms(1-3)] load_common_persisted [OF assms(1-3)]
    by (auto simp: load_def Let_def ran_def option.map_comp comp_def option.map_ident)
qed

text \<open>Every outcome of \<^verbatim>\<open>save\<close> is a state the steps reach.\<close>

lemma write_steps:
  "n \<le> length contents \<Longrightarrow>
   (save_step path contents)\<^sup>*\<^sup>* (Started, fs)
     (Writing n, fs(path @ ''.tmp'' \<mapsto> take n contents))"
proof (induction n)
  case 0
  show ?case unfolding take_0 by (rule r_into_rtranclp, rule truncated)
next
  case (Suc n)
  from Suc.prems have "(save_step path contents)\<^sup>*\<^sup>* (Started, fs)
     (Writing n, fs(path @ ''.tmp'' \<mapsto> take n contents))" by (rule Suc.IH [OF Suc_leD])
  also have "save_step path contents (Writing n, fs(path @ ''.tmp'' \<mapsto> take n contents))
     (Writing (Suc n), fs(path @ ''.tmp'' \<mapsto> take (Suc n) contents))"
    using wrote [of n contents path "fs(path @ ''.tmp'' \<mapsto> take n contents)"] Suc.prems by simp
  finally show ?case .
qed

lemma save_by_steps:
  assumes "save E F path st fs = (fs', err)"
  shows "\<exists>pc. (save_step path (contents_of E st))\<^sup>*\<^sup>* (Started, fs) (pc, fs') \<and>
    (err = None \<longrightarrow> pc = Renamed)"
proof -
  let ?c = "contents_of E st" and ?tmp = "path @ ''.tmp''"
  have all: "(save_step path ?c)\<^sup>*\<^sup>* (Started, fs) (Writing (length ?c), fs(?tmp \<mapsto> ?c))"
    using write_steps [of "length ?c" ?c path fs] by simp
  then have done_: "(save_step path ?c)\<^sup>*\<^sup>* (Started, fs) (Written, fs(?tmp \<mapsto> ?c))"
    using complete [of path ?c] by (rule rtranclp.rtrancl_into_rtrancl)
  then have "(save_step path ?c)\<^sup>*\<^sup>* (Started, fs)
      (Renamed, (fs(?tmp \<mapsto> ?c))(?tmp := None, path := (fs(?tmp \<mapsto> ?c)) ?tmp))"
    using renamed [of path ?c] by (rule rtranclp.rtrancl_into_rtrancl)
  then have fin: "(save_step path ?c)\<^sup>*\<^sup>* (Started, fs) (Renamed, fs(?tmp := None, path \<mapsto> ?c))"
    by simp
  have part: "(save_step path ?c)\<^sup>*\<^sup>* (Started, fs)
      (Writing (min n (length ?c)), fs(?tmp \<mapsto> take n ?c))" for n
  proof (cases "n \<le> length ?c")
    case True
    then show ?thesis using write_steps [OF True, of path fs] by (simp only: min_absorb1)
  next
    case False
    then show ?thesis using all by (simp add: min_absorb2)
  qed
  show ?thesis
    using assms all done_ fin part
    by (auto simp: save_def Let_def split: option.splits prod.splits)
qed

end
