(* ===== verification/Accounts.thy ===== *)
theory Accounts
  imports NexCore RankingFile Config
begin

text \<open>
  NEX accounts (\<^verbatim>\<open>src/globals/accounts.go\<close>, \<^verbatim>\<open>src/globals/globals.go\<close>) and the two Ticket Granting
  handlers that look them up (\<^verbatim>\<open>getPID\<close> and \<^verbatim>\<open>getName\<close> of \<^verbatim>\<open>src/nexserver/handlers_misc.go\<close>). HMAC-SHA256
  and \<^verbatim>\<open>strconv.Quote\<close> are fields of the environment: what is proved holds for any functions in their
  place.
\<close>

subsection \<open>State\<close>

record nex_account =
  acc_PID :: u64
  acc_Username :: string
  acc_Password :: string
  acc_RequiresToken :: bool

definition NewAccount :: "u64 \<Rightarrow> string \<Rightarrow> string \<Rightarrow> bool \<Rightarrow> nex_account" where
  "NewAccount pid username password requiresToken =
     \<lparr>acc_PID = pid, acc_Username = username, acc_Password = password,
      acc_RequiresToken = requiresToken\<rparr>"

record account_env =
  HMAC_SHA256 :: "bytes \<Rightarrow> bytes \<Rightarrow> bytes"
  Quote :: "string \<Rightarrow> string"
  rawOrder :: "string set \<Rightarrow> string list"

record accounts =
  Settings :: config
  AuthenticationServerAccount :: nex_account
  SecureServerAccount :: nex_account
  knownAccounts :: "u64 \<rightharpoonup> string"
  guestAccount :: "nex_account option"

definition InitAccounts :: "config \<Rightarrow> accounts" where
  "InitAccounts settings =
     \<lparr>Settings = settings,
      AuthenticationServerAccount =
        NewAccount 1 ''Quazal Authentication'' (KerberosPassword settings) False,
      SecureServerAccount = NewAccount 2 ''Quazal Rendez-Vous'' (KerberosPassword settings) False,
      knownAccounts = Map.empty, guestAccount = None\<rparr>"

definition guestAccountUsername :: string where "guestAccountUsername = ''guest''"

definition guestAccountPassword :: string where "guestAccountPassword = ''MMQea3n!fsik''"

subsection \<open>The accounts file\<close>

text \<open>\<^verbatim>\<open>json.Unmarshal\<close> into a map of strings; \<^verbatim>\<open>null\<close> leaves a value empty.\<close>

definition decode_text :: "json \<Rightarrow> string option" where
  "decode_text j = (case j of JNull \<Rightarrow> Some [] | JStr s \<Rightarrow> Some s | _ \<Rightarrow> None)"

definition Unmarshal_accounts :: "string \<Rightarrow> (string \<rightharpoonup> string) option" where
  "Unmarshal_accounts s =
     Option.bind (parse_json s) (\<lambda>j. decode_map decode_text j Map.empty)"

text \<open>The loop over the decoded map: it stops at a key that is not a number, with what it has read so
  far already stored.\<close>

fun store_accounts ::
  "(string \<times> string) list \<Rightarrow> (u64 \<rightharpoonup> string) \<Rightarrow> (u64 \<rightharpoonup> string) \<times> string option" where
  "store_accounts [] known = (known, None)"
| "store_accounts ((pidString, password) # rest) known =
     (case ParseUint pidString 64 of
        None \<Rightarrow> (known, Some pidString)
      | Some pid \<Rightarrow> store_accounts rest (known(of_nat pid \<mapsto> password)))"

datatype accounts_error = AccountsReadFailed string | AccountsParseFailed | NonNumericPID string

definition LoadAccounts ::
  "account_env \<Rightarrow> io \<Rightarrow> files \<Rightarrow> accounts \<Rightarrow> accounts \<times> accounts_error option" where
  "LoadAccounts A F fs g0 =
     (let g = g0\<lparr>guestAccount := Some (NewAccount 100 guestAccountUsername guestAccountPassword False)\<rparr>;
          file = AccountsFile (Settings g) in
      if file = [] then (g, None)
      else case read_error F of
        Some e \<Rightarrow> (g, Some (AccountsReadFailed e))
      | None \<Rightarrow>
          (case fs file of
             None \<Rightarrow> (g, None)
           | Some contents \<Rightarrow>
               (case Unmarshal_accounts contents of
                  None \<Rightarrow> (g, Some AccountsParseFailed)
                | Some raw \<Rightarrow>
                    (let (known, bad) = store_accounts (range_map raw (rawOrder A (dom raw)))
                           (knownAccounts g)
                     in (g\<lparr>knownAccounts := known\<rparr>, map_option NonNumericPID bad)))))"

subsection \<open>Passwords and lookups\<close>

definition DerivePassword :: "account_env \<Rightarrow> accounts \<Rightarrow> u64 \<Rightarrow> string" where
  "DerivePassword A g pid =
     (case HexDecodeString (AccountSecret (Settings g)) of
        None \<Rightarrow> []
      | Some secret \<Rightarrow> RawURLEncode (HMAC_SHA256 A secret (le_bytes 8 (unat pid))))"

definition PasswordFromPID :: "account_env \<Rightarrow> accounts \<Rightarrow> u64 \<Rightarrow> nex_error + string" where
  "PasswordFromPID A g pid =
     (case knownAccounts g pid of
        Some password \<Rightarrow> Inr password
      | None \<Rightarrow>
          (if \<not> AllowUnknownAccounts (Settings g)
           then Inl (NewError RendezVous_InvalidUsername
                  (''PID '' @ FormatUint (unat pid) @ '' is not a known account''))
           else Inr (DerivePassword A g pid)))"

definition AccountDetailsByPID :: "account_env \<Rightarrow> accounts \<Rightarrow> u64 \<Rightarrow> nex_error + nex_account" where
  "AccountDetailsByPID A g pid =
     (if pid = acc_PID (AuthenticationServerAccount g) then Inr (AuthenticationServerAccount g)
      else if pid = acc_PID (SecureServerAccount g) then Inr (SecureServerAccount g)
      else case (case guestAccount g of Some a \<Rightarrow> if pid = acc_PID a then Some a else None
                                      | None \<Rightarrow> None) of
        Some a \<Rightarrow> Inr a
      | None \<Rightarrow>
          (case PasswordFromPID A g pid of
             Inl nexError \<Rightarrow> Inl nexError
           | Inr password \<Rightarrow> Inr (NewAccount pid (FormatUint (unat pid)) password False)))"

definition AccountDetailsByUsername ::
  "account_env \<Rightarrow> accounts \<Rightarrow> string \<Rightarrow> nex_error + nex_account" where
  "AccountDetailsByUsername A g username =
     (if username = acc_Username (AuthenticationServerAccount g) then Inr (AuthenticationServerAccount g)
      else if username = acc_Username (SecureServerAccount g) then Inr (SecureServerAccount g)
      else case (case guestAccount g of Some a \<Rightarrow> if username = acc_Username a then Some a else None
                                      | None \<Rightarrow> None) of
        Some a \<Rightarrow> Inr a
      | None \<Rightarrow>
          (case ParseUint username 64 of
             None \<Rightarrow> Inl (NewError RendezVous_InvalidUsername
                  (''Username '' @ Quote A username @ '' is not a valid NEX PID''))
           | Some pid \<Rightarrow>
               (case PasswordFromPID A g (of_nat pid) of
                  Inl nexError \<Rightarrow> Inl nexError
                | Inr password \<Rightarrow> Inr (NewAccount (of_nat pid) username password False))))"

subsection \<open>The Ticket Granting handlers\<close>

definition getPID ::
  "account_env \<Rightarrow> accounts \<Rightarrow> u32 \<Rightarrow> string option \<Rightarrow> string \<Rightarrow> nex_error + unit response" where
  "getPID A g callID err strUserName =
     (case err of
        Some e \<Rightarrow> Inl (NewError Core_InvalidArgument e)
      | None \<Rightarrow>
          (case AccountDetailsByUsername A g strUserName of
             Inl nexError \<Rightarrow> Inl nexError
           | Inr account \<Rightarrow>
               Inr (respond ''ticketgranting.ProtocolID'' ''MethodGetPID'' callID [WPID (acc_PID account)])))"

definition getName ::
  "account_env \<Rightarrow> accounts \<Rightarrow> u32 \<Rightarrow> string option \<Rightarrow> u64 \<Rightarrow> nex_error + unit response" where
  "getName A g callID err pid =
     (case err of
        Some e \<Rightarrow> Inl (NewError Core_InvalidArgument e)
      | None \<Rightarrow>
          (case AccountDetailsByPID A g pid of
             Inl nexError \<Rightarrow> Inl nexError
           | Inr account \<Rightarrow>
               Inr (respond ''ticketgranting.ProtocolID'' ''MethodGetName'' callID
                      [WString (acc_Username account)])))"

subsection \<open>Lemmas\<close>

text \<open>The accounts as the program sets them up before the servers start.\<close>

definition accounts_ok :: "accounts \<Rightarrow> bool" where
  "accounts_ok g \<longleftrightarrow>
     (\<exists>password. AuthenticationServerAccount g = NewAccount 1 ''Quazal Authentication'' password False \<and>
        SecureServerAccount g = NewAccount 2 ''Quazal Rendez-Vous'' password False) \<and>
     guestAccount g = Some (NewAccount 100 guestAccountUsername guestAccountPassword False)"

lemma LoadAccounts_ok: "accounts_ok (fst (LoadAccounts A F fs (InitAccounts settings)))"
  by (auto simp: accounts_ok_def LoadAccounts_def InitAccounts_def Let_def
      split: option.splits prod.splits)

lemma FormatUint_not_name:
  "\<exists>c \<in> set name. digit_val c = None \<Longrightarrow> FormatUint n \<noteq> name"
  using FormatUint_digits by fastforce

lemma special_names:
  "FormatUint n \<noteq> ''Quazal Authentication''" "FormatUint n \<noteq> ''Quazal Rendez-Vous''"
  "FormatUint n \<noteq> guestAccountUsername"
  by (rule FormatUint_not_name, simp add: digit_val_def guestAccountUsername_def)+

lemma AccountDetailsByUsername_decimal:
  assumes "accounts_ok g"
  shows "AccountDetailsByUsername A g (FormatUint (unat pid)) =
    (case PasswordFromPID A g pid of
       Inl e \<Rightarrow> Inl e
     | Inr password \<Rightarrow> Inr (NewAccount pid (FormatUint (unat pid)) password False))"
proof -
  have "unat pid < 2 ^ 64" using unsigned_less [of pid, where ?'a = nat] by simp
  then have "ParseUint (FormatUint (unat pid)) 64 = Some (unat pid)" by (rule ParseUint_FormatUint)
  then show ?thesis
    using assms special_names [of "unat pid"]
    by (auto simp: AccountDetailsByUsername_def accounts_ok_def NewAccount_def split: sum.split)
qed

lemma store_accounts_known:
  "store_accounts kvs known = (known', None) \<Longrightarrow>
   (\<forall>(k, v) \<in> set kvs. ParseUint k 64 \<noteq> None) \<and>
   (\<forall>pid. known' pid = known pid \<or>
      (\<exists>(k, v) \<in> set kvs. map_option of_nat (ParseUint k 64) = Some pid \<and> known' pid = Some v)) \<and>
   (\<forall>(k, v) \<in> set kvs. \<forall>n. ParseUint k 64 = Some n \<longrightarrow> known' (of_nat n) \<noteq> None)"
proof (induction kvs known rule: store_accounts.induct)
  case (1 known)
  then show ?case by simp
next
  case (2 pidString password rest known)
  then obtain n where n: "ParseUint pidString 64 = Some n"
    by (auto split: option.splits)
  have "store_accounts rest (known(of_nat n \<mapsto> password)) = (known', None)"
    using 2(2) n by simp
  from 2(1) [OF n this] have IH: "(\<forall>(k, v) \<in> set rest. ParseUint k 64 \<noteq> None)"
    "\<forall>pid. known' pid = (known(of_nat n \<mapsto> password)) pid \<or>
      (\<exists>(k, v) \<in> set rest. map_option of_nat (ParseUint k 64) = Some pid \<and> known' pid = Some v)"
    "\<forall>(k, v) \<in> set rest. \<forall>n. ParseUint k 64 = Some n \<longrightarrow> known' (of_nat n) \<noteq> None"
    by blast+
  show ?case
  proof (intro conjI allI)
    show "\<forall>(k, v) \<in> set ((pidString, password) # rest). ParseUint k 64 \<noteq> None"
      using IH(1) n by auto
    show "known' pid = known pid \<or> (\<exists>(k, v) \<in> set ((pidString, password) # rest).
        map_option of_nat (ParseUint k 64) = Some pid \<and> known' pid = Some v)" for pid
      using spec [OF IH(2), of pid] n by (auto split: if_splits)
    have "known' (of_nat n) \<noteq> None"
      using spec [OF IH(2), of "of_nat n"] by auto
    then show "\<forall>(k, v) \<in> set ((pidString, password) # rest).
        \<forall>n. ParseUint k 64 = Some n \<longrightarrow> known' (of_nat n) \<noteq> None"
      using IH(3) n by auto
  qed
qed

end
