(* ===== verification/AccountTheorems.thy ===== *)
theory AccountTheorems
  imports Accounts
begin

text \<open>
  The properties of the configuration and of the accounts: what a validated configuration guarantees,
  that names and PIDs translate into each other, which password an account has, and two places where
  the code accepts what it should not.
\<close>

definition example_accounts_env :: account_env where
  "example_accounts_env = \<lparr>HMAC_SHA256 = (\<lambda>key text. key @ text), Quote = (\<lambda>s. s),
     rawOrder = sorted_list_of_set\<rparr>"

definition example_settings :: config where
  "example_settings = \<lparr>AuthenticationServerPort = 26500, SecureServerPort = 26501,
     SecureServerHost = ''127.0.0.1'', AccessKey = ''811aa39f'', KerberosPassword = ''k'', AccountsFile = [],
     AccountSecret = [], AllowUnknownAccounts = True, DataDir = ''data'',
     cfg_AllowPublicMatchmaking = True, LogPackets = False, StructureHeader = ''on'', StatsPort = 26502\<rparr>"

definition example_accounts :: "config \<Rightarrow> accounts" where
  "example_accounts settings =
     fst (LoadAccounts example_accounts_env
       \<lparr>read_error = None, mkdir_error = None, write_error = None, rename_error = None\<rparr> Map.empty
       (InitAccounts settings))"

lemma example_accounts_ok: "accounts_ok (example_accounts settings)"
  unfolding example_accounts_def by (rule LoadAccounts_ok)

text \<open>A configuration that passes the check has two different ports in range, an access key of eight
  characters and a host, and if unknown accounts may log in it has a secret: the configured one, or
  fresh random bytes in hexadecimal, which the password derivation decodes to exactly those bytes.\<close>

theorem validateConfig_sound:
  assumes "validateConfig rand c = Inr c'" and "\<And>bs. rand = Some bs \<Longrightarrow> length bs = 32"
  shows "AuthenticationServerPort c' \<in> {1..65535} \<and> SecureServerPort c' \<in> {1..65535} \<and>
    AuthenticationServerPort c' \<noteq> SecureServerPort c' \<and> length (AccessKey c') = 8 \<and>
    SecureServerHost c' \<noteq> [] \<and>
    (AllowUnknownAccounts c' \<longrightarrow> AccountSecret c' \<noteq> []) \<and>
    c' = c\<lparr>AccountSecret := AccountSecret c'\<rparr> \<and>
    (AccountSecret c' = AccountSecret c \<or>
       (\<exists>bs. rand = Some bs \<and> HexDecodeString (AccountSecret c') = Some bs))"
proof -
  have "secret \<noteq> []" if "rand = Some secret" for secret using assms(2) [OF that] by auto
  then have hex: "HexEncodeToString secret \<noteq> []" if "rand = Some secret" for secret
    using that length_HexEncode [of secret] by (metis length_0_conv mult_is_0 zero_neq_numeral)
  show ?thesis
    using assms(1) hex
    by (auto simp: validateConfig_def split: if_splits option.splits)
qed

theorem validateConfig_sound_witness:
  "\<exists>c'. validateConfig (Some (replicate 32 7)) example_settings = Inr c' \<and>
     HexDecodeString (AccountSecret c') = Some (replicate 32 7)"
proof -
  obtain c' where c': "validateConfig (Some (replicate 32 7)) example_settings = Inr c'"
    by (simp add: validateConfig_def example_settings_def)
  have "length (AccountSecret c') = 64"
    using c' by (auto simp: validateConfig_def example_settings_def)
  then have "AccountSecret c' \<noteq> AccountSecret example_settings"
    by (auto simp: example_settings_def)
  with validateConfig_sound [OF c'] c' show ?thesis by auto
qed

text \<open>C34: GetName and GetPID are inverse: whatever account a PID has, special or not, its name leads back
  to the same account and to that PID.\<close>

theorem names_lead_back:
  assumes "accounts_ok g" and "AccountDetailsByPID A g pid = Inr account"
  shows "AccountDetailsByUsername A g (acc_Username account) = Inr account \<and>
    getName A g callID None pid =
      Inr (respond ''ticketgranting.ProtocolID'' ''MethodGetName'' callID [WString (acc_Username account)]) \<and>
    getPID A g callID None (acc_Username account) =
      Inr (respond ''ticketgranting.ProtocolID'' ''MethodGetPID'' callID [WPID pid])"
proof -
  obtain password where g: "AuthenticationServerAccount g = NewAccount 1 ''Quazal Authentication'' password False"
    "SecureServerAccount g = NewAccount 2 ''Quazal Rendez-Vous'' password False"
    "guestAccount g = Some (NewAccount 100 guestAccountUsername guestAccountPassword False)"
    using assms(1) by (auto simp: accounts_ok_def)
  have "AccountDetailsByUsername A g (acc_Username account) = Inr account \<and> acc_PID account = pid"
  proof (cases "pid \<in> {1, 2, 100}")
    case True
    then show ?thesis using assms(2) g
      by (auto simp: AccountDetailsByPID_def AccountDetailsByUsername_def NewAccount_def
          guestAccountUsername_def)
  next
    case False
    then obtain pw where "PasswordFromPID A g pid = Inr pw"
      "account = NewAccount pid (FormatUint (unat pid)) pw False"
      using assms(2) g by (auto simp: AccountDetailsByPID_def NewAccount_def split: sum.splits)
    then show ?thesis
      using AccountDetailsByUsername_decimal [OF assms(1), of A pid] by (simp add: NewAccount_def)
  qed
  then show ?thesis using assms(2) by (simp add: getName_def getPID_def)
qed

theorem names_lead_back_witness:
  "AccountDetailsByUsername example_accounts_env (example_accounts example_settings) ''guest'' =
   AccountDetailsByPID example_accounts_env (example_accounts example_settings) 100"
proof -
  let ?guest = "NewAccount 100 guestAccountUsername guestAccountPassword False"
  have "AccountDetailsByPID example_accounts_env (example_accounts example_settings) 100 = Inr ?guest"
    by (simp add: AccountDetailsByPID_def example_accounts_def LoadAccounts_def InitAccounts_def
        example_settings_def NewAccount_def Let_def)
  from names_lead_back [OF example_accounts_ok this] this show ?thesis
    by (simp add: NewAccount_def guestAccountUsername_def)
qed

text \<open>The converse fails for the special accounts: the user names 1, 2 and 100 name user accounts that
  have the PID of a special account but the password of an ordinary player.\<close>

theorem numeric_names_of_special_accounts:
  assumes "accounts_ok g" and "AllowUnknownAccounts (Settings g)" and "pid \<in> {1, 2, 100}"
    and "knownAccounts g pid = None"
  shows "AccountDetailsByUsername A g (FormatUint (unat pid)) =
      Inr (NewAccount pid (FormatUint (unat pid)) (DerivePassword A g pid) False) \<and>
    AccountDetailsByPID A g pid \<noteq> AccountDetailsByUsername A g (FormatUint (unat pid))"
proof -
  have name: "AccountDetailsByUsername A g (FormatUint (unat pid)) =
      Inr (NewAccount pid (FormatUint (unat pid)) (DerivePassword A g pid) False)"
    using AccountDetailsByUsername_decimal [OF assms(1), of A pid] assms(2,4)
    by (simp add: PasswordFromPID_def)
  moreover obtain a where "AccountDetailsByPID A g pid = Inr a"
    "acc_Username a \<in> {''Quazal Authentication'', ''Quazal Rendez-Vous'', guestAccountUsername}"
    using assms(1,3) by (auto simp: AccountDetailsByPID_def accounts_ok_def NewAccount_def)
  then have "AccountDetailsByPID A g pid \<noteq>
      Inr (NewAccount pid (FormatUint (unat pid)) (DerivePassword A g pid) False)"
    using special_names [of "unat pid"] by (auto simp only: sum.inject NewAccount_def nex_account.simps)
  ultimately show ?thesis by simp
qed

theorem numeric_names_of_special_accounts_witness:
  "AccountDetailsByPID example_accounts_env (example_accounts example_settings) 2 \<noteq>
   AccountDetailsByUsername example_accounts_env (example_accounts example_settings)
     (FormatUint (unat (2 :: u64)))"
proof -
  have "AllowUnknownAccounts (Settings (example_accounts example_settings))"
    "knownAccounts (example_accounts example_settings) 2 = None"
    by (simp_all add: example_accounts_def LoadAccounts_def InitAccounts_def example_settings_def Let_def)
  from numeric_names_of_special_accounts [OF example_accounts_ok this(1) _ this(2)]
  show ?thesis by blast
qed

text \<open>A secret that is not hexadecimal passes the check at start, and gives every player that is not in
  the accounts file the empty password.\<close>

theorem bad_secret_means_empty_passwords:
  assumes "HexDecodeString (AccountSecret c) = None" and "AllowUnknownAccounts c"
    and "AuthenticationServerPort c \<in> {1..65535}" and "SecureServerPort c \<in> {1..65535}"
    and "AuthenticationServerPort c \<noteq> SecureServerPort c" and "length (AccessKey c) = 8"
    and "SecureServerHost c \<noteq> []"
  shows "validateConfig rand c = Inr c \<and>
    (\<forall>g pid. Settings g = c \<and> knownAccounts g pid = None \<longrightarrow> PasswordFromPID A g pid = Inr [])"
proof -
  have "AccountSecret c \<noteq> []" using assms(1) by auto
  then show ?thesis
    using assms by (auto simp: validateConfig_def PasswordFromPID_def DerivePassword_def)
qed

theorem bad_secret_means_empty_passwords_witness:
  "PasswordFromPID example_accounts_env (InitAccounts (example_settings\<lparr>AccountSecret := ''secret''\<rparr>)) 7 =
   Inr []"
proof -
  let ?c = "example_settings\<lparr>AccountSecret := ''secret''\<rparr>"
  have "HexDecodeString (AccountSecret ?c) = None" by (simp add: hex_val_def)
  from bad_secret_means_empty_passwords [OF this] show ?thesis
    by (simp add: example_settings_def InitAccounts_def)
qed

text \<open>After the accounts file was loaded without an error, every key of the file is a PID and each of
  these players has a password of the file, whatever the settings say about unknown accounts; all
  others are refused, or get the derived password where unknown accounts are allowed.\<close>

theorem loaded_accounts_win:
  assumes "visits_all (rawOrder A)" and "Unmarshal_accounts contents = Some raw" and "finite (dom raw)"
    and "fs (AccountsFile settings) = Some contents" and "AccountsFile settings \<noteq> []"
    and "read_error F = None" and "LoadAccounts A F fs (InitAccounts settings) = (g, None)"
  shows "(\<forall>k \<in> dom raw. \<exists>n. ParseUint k 64 = Some n \<and>
      (\<exists>k' v. raw k' = Some v \<and> map_option of_nat (ParseUint k' 64) = Some (of_nat n :: u64) \<and>
         PasswordFromPID A g (of_nat n) = Inr v)) \<and>
    (\<forall>pid. (\<forall>k \<in> dom raw. map_option of_nat (ParseUint k 64) \<noteq> Some pid) \<longrightarrow>
      PasswordFromPID A g pid =
        (if AllowUnknownAccounts settings then Inr (DerivePassword A g pid)
         else Inl (NewError RendezVous_InvalidUsername
                (''PID '' @ FormatUint (unat pid) @ '' is not a known account''))))"
proof -
  let ?kvs = "range_map raw (rawOrder A (dom raw))"
  obtain known where known: "store_accounts ?kvs Map.empty = (known, None)"
    and g: "knownAccounts g = known" "Settings g = settings"
    using assms(2,4-7) by (auto simp: LoadAccounts_def InitAccounts_def Let_def split: prod.splits)
  have set: "set ?kvs = {(k, v). raw k = Some v}"
    by (rule range_map_visits_all(1) [OF assms(1,3)])
  note sa = store_accounts_known [OF known]
  note sa1 = conjunct1 [OF sa] and sa2 = spec [OF conjunct1 [OF conjunct2 [OF sa]]]
    and sa3 = conjunct2 [OF conjunct2 [OF sa]]
  show ?thesis
  proof (intro conjI ballI allI impI)
    fix k
    assume "k \<in> dom raw"
    then obtain v where kv: "(k, v) \<in> set ?kvs" using set by auto
    obtain n where n: "ParseUint k 64 = Some n" using bspec [OF sa1 kv] by auto
    then have "known (of_nat n) \<noteq> None" using bspec [OF sa3 kv] by auto
    then have "\<exists>x \<in> set ?kvs. case x of (k, v) \<Rightarrow> map_option of_nat (ParseUint k 64) =
        Some (of_nat n :: u64) \<and> known (of_nat n) = Some v"
      using sa2 [of "of_nat n"] by auto
    then obtain x where x: "x \<in> set ?kvs" "case x of (k, v) \<Rightarrow> map_option of_nat (ParseUint k 64) =
        Some (of_nat n :: u64) \<and> known (of_nat n) = Some v" ..
    obtain k' w where "x = (k', w)" by fastforce
    with x have "(k', w) \<in> set ?kvs"
      "map_option of_nat (ParseUint k' 64) = Some (of_nat n :: u64)" "known (of_nat n) = Some w" by auto
    then show "\<exists>n. ParseUint k 64 = Some n \<and>
      (\<exists>k' v. raw k' = Some v \<and> map_option of_nat (ParseUint k' 64) = Some (of_nat n :: u64) \<and>
         PasswordFromPID A g (of_nat n) = Inr v)"
      using n(1) set g(1) by (auto simp: PasswordFromPID_def)
  next
    fix pid :: u64
    assume "\<forall>k \<in> dom raw. map_option of_nat (ParseUint k 64) \<noteq> Some pid"
    then have "known pid = None" using sa2 [of pid] set by blast
    then show "PasswordFromPID A g pid =
        (if AllowUnknownAccounts settings then Inr (DerivePassword A g pid)
         else Inl (NewError RendezVous_InvalidUsername
                (''PID '' @ FormatUint (unat pid) @ '' is not a known account'')))"
      using g by (simp add: PasswordFromPID_def)
  qed
qed

theorem loaded_accounts_win_witness:
  "PasswordFromPID example_accounts_env (fst (LoadAccounts example_accounts_env
      \<lparr>read_error = None, mkdir_error = None, write_error = None, rename_error = None\<rparr>
      [''a'' \<mapsto> Encode (JObj [(''7'', JStr ''pw'')])]
      (InitAccounts (example_settings\<lparr>AccountsFile := ''a''\<rparr>)))) 7 = Inr ''pw''"
proof -
  let ?F = "\<lparr>read_error = None, mkdir_error = None, write_error = None, rename_error = None\<rparr>"
  let ?fs = "[''a'' \<mapsto> Encode (JObj [(''7'', JStr ''pw'')])]"
  let ?c = "example_settings\<lparr>AccountsFile := ''a''\<rparr>"
  have "parse_json (Encode (JObj [(''7'', JStr ''pw'')])) = Some (JObj [(''7'', JStr ''pw'')])"
    by (rule parse_json_Encode) (simp add: maxNestingDepth_def plain_def)
  then have raw: "Unmarshal_accounts (Encode (JObj [(''7'', JStr ''pw'')])) = Some [''7'' \<mapsto> ''pw'']"
    by (simp add: Unmarshal_accounts_def decode_map_def decode_text_def)
  have seven: "ParseUint ''7'' 64 = Some 7" by (simp add: ParseUint_def digit_val_def)
  obtain g where g: "LoadAccounts example_accounts_env ?F ?fs (InitAccounts ?c) = (g, None)"
    using raw seven by (simp add: LoadAccounts_def InitAccounts_def example_accounts_env_def Let_def)
  have vis: "visits_all (rawOrder example_accounts_env)"
    by (simp add: example_accounts_env_def visits_all_sorted)
  have given: "?fs (AccountsFile ?c) = Some (Encode (JObj [(''7'', JStr ''pw'')]))" "AccountsFile ?c \<noteq> []"
    "read_error ?F = None" by simp_all
  from loaded_accounts_win [OF vis raw _ given g] seven g show ?thesis by (auto split: if_splits)
qed

end
