(* ===== verification/RankingQueries.thy ===== *)
theory RankingQueries
  imports RankingStore
begin

text \<open>
  The leaderboard queries of \<^verbatim>\<open>src/ranking/store.go\<close>: the global board, the boards around a player, the
  friends' boards, a player's own entry, the entries of a list of players and the projected rank of a
  score. The lemmas say which entries a query returns and that the rank of a row is a property of the
  whole board and not of the page.
\<close>

subsection \<open>The queries\<close>

definition filterEntries :: "entry list \<Rightarrow> u64 set \<Rightarrow> entry list" where
  "filterEntries entries allowed = filter (\<lambda>e. e_PID e \<in> allowed) entries"

definition friendSet :: "ranking_env \<Rightarrow> u64 \<Rightarrow> u64 set" where
  "friendSet E pid = insert pid (case rankingFriends E of
     None \<Rightarrow> {} | Some friends \<Rightarrow> ucast ` set (friends (ucast pid)))"

definition GetRankingsAndCountByCategoryAndRankingOrderParam ::
  "ranking_env \<Rightarrow> ranking_store \<Rightarrow> u32 \<Rightarrow> order_param \<Rightarrow> rank_data list \<times> u32" where
  "GetRankingsAndCountByCategoryAndRankingOrderParam E st category op =
     (let ordered = rankedEntries E st category; selected = slice ordered op in
      (rankData E st ordered selected (OrderCalculation op), of_nat (length ordered)))"

fun position_of :: "u64 \<Rightarrow> nat \<Rightarrow> entry list \<Rightarrow> nat option" where
  "position_of pid index [] = None"
| "position_of pid index (e # es) =
     (if e_PID e = pid then Some index else position_of pid (index + 1) es)"

text \<open>The window around a position: it starts half a length before it (at 0 at the earliest) and ends
  at the end of the board at the latest.\<close>

definition window :: "nat \<Rightarrow> u8 \<Rightarrow> entry list \<Rightarrow> entry list" where
  "window position len ordered =
     (let n = (if unat len \<le> 0 then 1 else unat len);
          start = position - n div 2;
          stop = (if start + n > length ordered then length ordered else start + n)
      in take (stop - start) (drop start ordered))"

definition GetNearbyRankingsAndCountByCategoryAndRankingOrderParam ::
  "ranking_env \<Rightarrow> ranking_store \<Rightarrow> u64 \<Rightarrow> u32 \<Rightarrow> order_param \<Rightarrow> rank_data list \<times> u32" where
  "GetNearbyRankingsAndCountByCategoryAndRankingOrderParam E st pid category op =
     (let ordered = rankedEntries E st category in
      case position_of pid 0 ordered of
        None \<Rightarrow> ([], of_nat (length ordered))
      | Some position \<Rightarrow>
          (rankData E st ordered (window position (Length op) ordered) (OrderCalculation op),
           of_nat (length ordered)))"

definition GetFriendsRankingsAndCountByCategoryAndRankingOrderParam ::
  "ranking_env \<Rightarrow> ranking_store \<Rightarrow> u64 \<Rightarrow> u32 \<Rightarrow> order_param \<Rightarrow> rank_data list \<times> u32" where
  "GetFriendsRankingsAndCountByCategoryAndRankingOrderParam E st pid category op =
     (let friends = friendSet E pid;
          ordered = filterEntries (rankedEntries E st category) friends;
          selected = slice ordered op
      in (rankData E st ordered selected (OrderCalculation op), of_nat (length ordered)))"

definition GetNearbyFriendsRankingsAndCountByCategoryAndRankingOrderParam ::
  "ranking_env \<Rightarrow> ranking_store \<Rightarrow> u64 \<Rightarrow> u32 \<Rightarrow> order_param \<Rightarrow> rank_data list \<times> u32" where
  "GetNearbyFriendsRankingsAndCountByCategoryAndRankingOrderParam E st pid category op =
     (let friends = friendSet E pid;
          ordered = filterEntries (rankedEntries E st category) friends;
          selected = slice ordered op
      in (rankData E st ordered selected (OrderCalculation op), of_nat (length ordered)))"

definition GetOwnRankingByCategoryAndRankingOrderParam ::
  "ranking_env \<Rightarrow> ranking_store \<Rightarrow> u64 \<Rightarrow> u32 \<Rightarrow> order_param \<Rightarrow> rank_data list \<times> u32" where
  "GetOwnRankingByCategoryAndRankingOrderParam E st pid category op =
     (let ordered = rankedEntries E st category;
          own = (case List.find (\<lambda>e. e_PID e = pid) ordered of None \<Rightarrow> [] | Some e \<Rightarrow> [e])
      in (rankData E st ordered own (OrderCalculation op), of_nat (length ordered)))"

definition RankingsForPIDs ::
  "ranking_env \<Rightarrow> ranking_store \<Rightarrow> u64 list \<Rightarrow> u32 \<Rightarrow> order_param \<Rightarrow> rank_data list \<times> u32" where
  "RankingsForPIDs E st pids category op =
     (let ordered = rankedEntries E st category;
          selected = filterEntries ordered (set pids)
      in (rankData E st ordered selected (OrderCalculation op), of_nat (length ordered)))"

fun order_loop :: "ranking_proto \<Rightarrow> u32 \<Rightarrow> u8 \<Rightarrow> u32 \<Rightarrow> entry list \<Rightarrow> u32" where
  "order_loop P score orderBy order [] = order"
| "order_loop P score orderBy order (e # es) =
     order_loop P score orderBy (if betterThan P (e_Score e) score orderBy then order + 1 else order) es"

definition ApproximateOrder :: "ranking_env \<Rightarrow> ranking_store \<Rightarrow> u32 \<Rightarrow> u32 \<Rightarrow> u32" where
  "ApproximateOrder E st category score =
     (let ordered = rankedEntries E st category
      in order_loop (rankingProto E) score (board_order ordered) 1 ordered)"

subsection \<open>Ranks\<close>

text \<open>The players of a board whose score beats a given one, whatever the order of the entries.\<close>

definition beaten_by :: "ranking_proto \<Rightarrow> ranking_store \<Rightarrow> u32 \<Rightarrow> u8 \<Rightarrow> u32 \<Rightarrow> u64 set" where
  "beaten_by P st c ob score =
     {q. \<exists>e. board st c q = Some e \<and> betterThan P (e_Score e) score ob}"

lemma better_count_card:
  assumes "ranking_ok st" and "visits_all (entryOrder E)"
  shows "better_count P ob score (rankedEntries E st c) = card (beaten_by P st c ob score)"
proof -
  let ?es = "filter (\<lambda>e. betterThan P (e_Score e) score ob) (rankedEntries E st c)"
  have "distinct (map e_PID ?es)"
    using distinct_rankedEntries [OF assms] by (rule distinct_map_filter)
  then have "length ?es = card (set (map e_PID ?es))"
    using distinct_card by (metis length_map)
  also have "set (map e_PID ?es) = beaten_by P st c ob score"
    using set_rankedEntries [OF assms, of c] ranking_ok_board(2) [OF assms(1), of c]
    by (auto simp: beaten_by_def image_iff)
  finally show ?thesis by (simp add: better_count_def)
qed

lemma players_of_board:
  assumes "ranking_ok st"
  shows "e_PID ` {e. board st c (e_PID e) = Some e} = dom (board st c)"
proof (rule Set.set_eqI)
  fix p
  show "p \<in> e_PID ` {e. board st c (e_PID e) = Some e} \<longleftrightarrow> p \<in> dom (board st c)"
    using ranking_ok_board(2) [OF assms, of c p] by (auto simp: image_iff)
qed

lemma length_rankedEntries:
  assumes "ranking_ok st" and "visits_all (entryOrder E)"
  shows "length (rankedEntries E st c) = card (dom (board st c))"
proof -
  have "length (rankedEntries E st c) = card (e_PID ` set (rankedEntries E st c))"
    using distinct_card [OF distinct_rankedEntries [OF assms]] by simp
  also have "e_PID ` set (rankedEntries E st c) = dom (board st c)"
    using players_of_board [OF assms(1)] by (simp add: set_rankedEntries [OF assms])
  finally show ?thesis .
qed

text \<open>The rank of the entry at a position of the board.\<close>

definition rank_at :: "ranking_env \<Rightarrow> ranking_store \<Rightarrow> u32 \<Rightarrow> u8 \<Rightarrow> u8 \<Rightarrow> nat \<Rightarrow> u32" where
  "rank_at E st c ob calculation i =
     (if calculation = OrderCalculation113 (rankingProto E)
      then of_nat (card (beaten_by (rankingProto E) st c ob (e_Score (rankedEntries E st c ! i)))) + 1
      else of_nat i + 1)"

lemma ranks_of_board:
  assumes "ranking_ok st" and "visits_all (entryOrder E)" and "uniform st c ob"
    and "i < length (rankedEntries E st c)"
  shows "ranks_of E (rankedEntries E st c) calculation (e_PID (rankedEntries E st c ! i)) =
    Some (rank_at E st c ob calculation i)"
proof (cases "calculation = OrderCalculation113 (rankingProto E)")
  case True
  have "sorted_wrt (\<lambda>a b. \<not> betterThan (rankingProto E) b a ob)
      (map e_Score ([] @ rankedEntries E st c))"
    using rankedEntries_sorted [OF assms(1-3)]
    by (auto simp: sorted_wrt_map intro: sorted_wrt_mono_rel [rotated] dest: entry_less_score)
  from rank_loop_standard [OF this distinct_rankedEntries [OF assms(1,2)] assms(4)] True
  show ?thesis
    by (simp add: ranks_of_def rank_at_def better_count_card [OF assms(1,2)])
next
  case False
  then show ?thesis
    using rank_loop_ordinal [OF distinct_rankedEntries [OF assms(1,2)] assms(4)]
    by (simp add: ranks_of_def rank_at_def)
qed

text \<open>A page: rows \<^verbatim>\<open>start\<close> to \<^verbatim>\<open>start + k\<close> of the board, each with its rank on the whole board.\<close>

lemma rankData_page:
  assumes "ranking_ok st" and "visits_all (entryOrder E)" and "uniform st c ob"
    and "j < length (take k (drop start (rankedEntries E st c)))"
  shows "rankData E st (rankedEntries E st c) (take k (drop start (rankedEntries E st c))) calc ! j =
    rank_row st (\<lambda>_. Some (rank_at E st c ob calc (start + j))) (rankedEntries E st c ! (start + j))"
proof -
  have less: "start + j < length (rankedEntries E st c)" using assms(4) by auto
  then have "drop start (rankedEntries E st c) ! j = rankedEntries E st c ! (start + j)"
    by (simp add: nth_drop)
  then show ?thesis
    using ranks_of_board [OF assms(1-3) less, of calc] assms(4)
    by (simp add: rankData_def rank_row_def)
qed

lemma rankData_length [simp]: "length (rankData E st ordered selected calc) = length selected"
  by (simp add: rankData_def)

lemma rankData_PIDs [simp]:
  "map rd_PrincipalID (rankData E st ordered selected calc) = map e_PID selected"
  by (simp add: rankData_def rank_row_def)

lemma slice_eq:
  "slice es op = take (if Length op = 0 then length es else unat (Length op))
     (drop (unat (Offset op)) es)"
  by (auto simp: slice_def Let_def unat_gt_0 not_less)

lemma order_loop_count:
  "order_loop P score ob n es = n + of_nat (better_count P ob score es)"
  by (induction P score ob n es rule: order_loop.induct) (auto simp: better_count_def)

text \<open>The projected rank is one more than the number of players with a better score.\<close>

lemma ApproximateOrder_eq:
  assumes "ranking_ok st" and "visits_all (entryOrder E)" and "uniform st c ob"
  shows "ApproximateOrder E st c score = of_nat (card (beaten_by (rankingProto E) st c ob score)) + 1"
proof (cases "rankedEntries E st c = []")
  case True
  then have "dom (board st c) = {}"
    using length_rankedEntries [OF assms(1,2), of c] ranking_ok_board(1) [OF assms(1), of c] by simp
  then have "beaten_by (rankingProto E) st c ob score = {}"
    by (auto simp: beaten_by_def)
  then show ?thesis using True by (simp add: ApproximateOrder_def)
next
  case False
  then show ?thesis
    using board_order_ranked [OF assms False]
    by (simp add: ApproximateOrder_def Let_def order_loop_count better_count_card [OF assms(1,2)])
qed

subsection \<open>Windows and friends\<close>

lemma position_of_Some:
  "position_of pid i es = Some n \<Longrightarrow>
   i \<le> n \<and> n - i < length es \<and> e_PID (es ! (n - i)) = pid"
proof (induction pid i es rule: position_of.induct)
  case (2 pid index e es)
  then show ?case by (cases "e_PID e = pid") (auto simp: Suc_diff_le nth_Cons')
qed simp

lemma position_of_None: "position_of pid i es = None \<longleftrightarrow> pid \<notin> e_PID ` set es"
  by (induction pid i es rule: position_of.induct) auto

lemma window_eq:
  "window p len es =
     take (if len = 0 then 1 else unat len)
       (drop (p - (if len = 0 then 1 else unat len) div 2) es)"
  by (auto simp: window_def Let_def min_def unat_eq_0)

lemma middle_of_window:
  assumes "p < length es" and "0 < n"
  shows "es ! p \<in> set (take n (drop (p - n div 2) es))"
proof -
  let ?s = "p - n div 2"
  have "p - ?s < n" using assms(2) by linarith
  then have "take n (drop ?s es) ! (p - ?s) = es ! p" "p - ?s < length (take n (drop ?s es))"
    using assms(1) by (auto simp: nth_drop)
  then show ?thesis by (metis nth_mem)
qed

lemma window_contains: "p < length es \<Longrightarrow> es ! p \<in> set (window p len es)"
  unfolding window_eq by (rule middle_of_window) (auto simp: unat_gt_0)

end
