(* ===== verification/RankingOps.thy ===== *)
theory RankingOps
  imports RankingQueries RankingFile
begin

text \<open>
  The operations of the leaderboard store that change it (\<^verbatim>\<open>src/ranking/store.go\<close>), each followed by a
  save of the whole store, and the Ranking handlers: those of \<^verbatim>\<open>src/nexserver/handlers_ranking.go\<close> and
  the ones of common-go's ranking protocol that \<^verbatim>\<open>registerRanking\<close> wires to the store. The state is the
  store in memory with the file system; the store's mutex makes each operation atomic.
\<close>

type_synonym ranking_state = "ranking_store \<times> files"

text \<open>What an operation needs besides its arguments: the path of the file, the clock and the answers of
  the operating system.\<close>

record ranking_ctx =
  rk_env :: ranking_env
  rk_io :: io
  rk_path :: string
  rk_now :: u64
  rk_expiry :: u64

definition saved :: "ranking_ctx \<Rightarrow> ranking_store \<Rightarrow> files \<Rightarrow> ranking_state \<times> string option" where
  "saved C st fs = (let (fs', err) = save (rk_env C) (rk_io C) (rk_path C) st fs in ((st, fs'), err))"

subsection \<open>Scores\<close>

definition with_category :: "u32 \<Rightarrow> ranking_store \<Rightarrow> ranking_store" where
  "with_category category st =
     (if scores st category = None then st\<lparr>scores := (scores st)(category \<mapsto> Map.empty)\<rparr> else st)"

definition put_entry :: "entry \<Rightarrow> u64 \<Rightarrow> u32 \<Rightarrow> ranking_store \<Rightarrow> ranking_store" where
  "put_entry e pid category st =
     st\<lparr>scores := (scores st)(category \<mapsto> (board st category)(pid \<mapsto> e))\<rparr>"

definition candidate :: "u64 \<Rightarrow> score_data \<Rightarrow> u64 \<Rightarrow> u64 \<Rightarrow> entry" where
  "candidate pid sd uniqueID time =
     \<lparr>e_PID = pid, e_UniqueID = uniqueID, e_Category = sd_Category sd, e_Score = sd_Score sd,
      e_OrderBy = sd_OrderBy sd, e_Groups = sd_Groups sd, e_Param = sd_Param sd, e_UpdateTime = time\<rparr>"

definition InsertRankingByPIDAndRankingScoreData ::
  "ranking_ctx \<Rightarrow> ranking_state \<Rightarrow> u64 \<Rightarrow> score_data \<Rightarrow> u64 \<Rightarrow> ranking_state \<times> string option" where
  "InsertRankingByPIDAndRankingScoreData C s pid sd uniqueID =
     (let (st, fs) = s; P = rankingProto (rk_env C); category = sd_Category sd;
          st1 = with_category category st;
          new = candidate pid sd uniqueID (rk_now C);
          keep = (case board st1 category pid of
                    None \<Rightarrow> False
                  | Some existing \<Rightarrow> sd_UpdateMode sd = UpdateModeNormal P \<and>
                      \<not> betterThan P (e_Score new) (e_Score existing) (e_OrderBy new))
      in if keep then ((st1, fs), None)
         else saved C (put_entry new pid category st1) fs)"

definition without_player :: "u64 \<Rightarrow> (u64 \<rightharpoonup> entry) \<Rightarrow> (u64 \<rightharpoonup> entry) option" where
  "without_player pid entries =
     (let rest = entries(pid := None) in if dom rest = {} then None else Some rest)"

definition DeleteScore ::
  "ranking_ctx \<Rightarrow> ranking_state \<Rightarrow> u64 \<Rightarrow> u32 \<Rightarrow> ranking_state \<times> string option" where
  "DeleteScore C s pid category =
     (let (st, fs) = s in
      case scores st category of
        None \<Rightarrow> saved C st fs
      | Some entries \<Rightarrow>
          saved C (st\<lparr>scores := (scores st)(category := without_player pid entries)\<rparr>) fs)"

text \<open>The loop over all categories: each turn changes its own category only.\<close>

definition DeleteAllScores ::
  "ranking_ctx \<Rightarrow> ranking_state \<Rightarrow> u64 \<Rightarrow> ranking_state \<times> string option" where
  "DeleteAllScores C s pid =
     (let (st, fs) = s;
          sc = fold (\<lambda>(category, entries) m. m(category := without_player pid entries))
                 (range_map (scores st) (categoryOrder (rk_env C) (dom (scores st)))) (scores st)
      in saved C (st\<lparr>scores := sc\<rparr>) fs)"

subsection \<open>Common data\<close>

definition GetCommonData :: "ranking_state \<Rightarrow> u64 \<Rightarrow> string + bytes" where
  "GetCommonData s uniqueID =
     (case commonData (fst s) uniqueID of
        None \<Rightarrow> Inl (''no common data for unique ID '' @ FormatUint (unat uniqueID))
      | Some blob \<Rightarrow> Inr blob)"

definition UploadCommonData ::
  "ranking_ctx \<Rightarrow> ranking_state \<Rightarrow> u64 \<Rightarrow> u64 \<Rightarrow> bytes \<Rightarrow> ranking_state \<times> string option" where
  "UploadCommonData C s pid uniqueID blob =
     (let (st, fs) = s in
      saved C (st\<lparr>commonData := (commonData st)(uniqueID \<mapsto> blob)\<rparr>) fs)"

definition DeleteCommonData ::
  "ranking_ctx \<Rightarrow> ranking_state \<Rightarrow> u64 \<Rightarrow> ranking_state \<times> string option" where
  "DeleteCommonData C s uniqueID =
     (let (st, fs) = s in
      saved C (st\<lparr>commonData := (commonData st)(uniqueID := None)\<rparr>) fs)"

subsection \<open>Handlers\<close>

text \<open>A cached result has the fields of a result, when it was created and expires, and a maximal length.\<close>

datatype ranking_struct =
    SRankingResult "rank_data list" u32 u64
  | SRankingCachedResult "rank_data list" u32 u64 u64 u64 u8

type_synonym ranking_result = "ranking_state \<times> (nex_error + ranking_struct response)"

abbreviation RKP :: string where "RKP \<equiv> ''rankingprotocol.ProtocolID''"

definition changed ::
  "ranking_state \<times> string option \<Rightarrow> string \<Rightarrow> u32 \<Rightarrow> ranking_result" where
  "changed r name callID =
     (let (s, failure) = r in
      (s, case failure of
            Some e \<Rightarrow> Inl (NewError Ranking_Unknown e)
          | None \<Rightarrow> Inr (respondEmpty RKP name callID)))"

definition deleteScore ::
  "ranking_ctx \<Rightarrow> ranking_state \<Rightarrow> u64 \<Rightarrow> u32 \<Rightarrow> string option \<Rightarrow> u32 \<Rightarrow> u64 \<Rightarrow> ranking_result" where
  "deleteScore C s pid callID err category uniqueID =
     (case err of
        Some e \<Rightarrow> (s, Inl (NewError Ranking_InvalidArgument e))
      | None \<Rightarrow> changed (DeleteScore C s pid category) ''MethodDeleteScore'' callID)"

definition deleteAllScores ::
  "ranking_ctx \<Rightarrow> ranking_state \<Rightarrow> u64 \<Rightarrow> u32 \<Rightarrow> string option \<Rightarrow> u64 \<Rightarrow> ranking_result" where
  "deleteAllScores C s pid callID err uniqueID =
     (case err of
        Some e \<Rightarrow> (s, Inl (NewError Ranking_InvalidArgument e))
      | None \<Rightarrow> changed (DeleteAllScores C s pid) ''MethodDeleteAllScores'' callID)"

definition deleteCommonData ::
  "ranking_ctx \<Rightarrow> ranking_state \<Rightarrow> u64 \<Rightarrow> u32 \<Rightarrow> string option \<Rightarrow> u64 \<Rightarrow> ranking_result" where
  "deleteCommonData C s pid callID err uniqueID =
     (case err of
        Some e \<Rightarrow> (s, Inl (NewError Ranking_InvalidArgument e))
      | None \<Rightarrow> changed (DeleteCommonData C s uniqueID) ''MethodDeleteCommonData'' callID)"

text \<open>2000-01-01T00:00:00.000Z, the time of every result.\<close>

definition SinceTime :: u64 where "SinceTime = 0x1F40420000"

definition getRankingByPIDList ::
  "ranking_ctx \<Rightarrow> ranking_state \<Rightarrow> u32 \<Rightarrow> string option \<Rightarrow> u64 list \<Rightarrow> u32 \<Rightarrow> order_param \<Rightarrow>
   ranking_result" where
  "getRankingByPIDList C s callID err principalIDList category op =
     (case err of
        Some e \<Rightarrow> (s, Inl (NewError Ranking_InvalidArgument e))
      | None \<Rightarrow>
          (let (rows, totalCount) = RankingsForPIDs (rk_env C) (fst s) principalIDList category op in
           (s, Inr (respond RKP ''MethodGetRankingByPIDList'' callID
                  [WStruct (SRankingResult rows totalCount SinceTime)]))))"

definition getApproxOrder ::
  "ranking_ctx \<Rightarrow> ranking_state \<Rightarrow> u32 \<Rightarrow> string option \<Rightarrow> u32 \<Rightarrow> u32 \<Rightarrow> ranking_result" where
  "getApproxOrder C s callID err category score =
     (case err of
        Some e \<Rightarrow> (s, Inl (NewError Ranking_InvalidArgument e))
      | None \<Rightarrow>
          (s, Inr (respond RKP ''MethodGetApproxOrder'' callID
                 [WU32 (ApproximateOrder (rk_env C) (fst s) category score)])))"

text \<open>The handlers of common-go that answer from the store.\<close>

abbreviation change_error :: string where "change_error \<equiv> ''change_error''"

definition uploadScore ::
  "ranking_ctx \<Rightarrow> ranking_state \<Rightarrow> u64 \<Rightarrow> u32 \<Rightarrow> string option \<Rightarrow> score_data \<Rightarrow> u64 \<Rightarrow> ranking_result" where
  "uploadScore C s pid callID err sd uniqueID =
     (if err \<noteq> None then (s, Inl (NewError Ranking_InvalidArgument change_error))
      else let (s', failure) = InsertRankingByPIDAndRankingScoreData C s pid sd uniqueID in
        (s', if failure \<noteq> None then Inl (NewError Ranking_Unknown change_error)
             else Inr (respondEmpty RKP ''MethodUploadScore'' callID)))"

definition uploadCommonData ::
  "ranking_ctx \<Rightarrow> ranking_state \<Rightarrow> u64 \<Rightarrow> u32 \<Rightarrow> string option \<Rightarrow> bytes \<Rightarrow> u64 \<Rightarrow> ranking_result" where
  "uploadCommonData C s pid callID err blob uniqueID =
     (if err \<noteq> None then (s, Inl (NewError Ranking_InvalidArgument change_error))
      else let (s', failure) = UploadCommonData C s pid uniqueID blob in
        (s', if failure \<noteq> None then Inl (NewError Ranking_Unknown change_error)
             else Inr (respondEmpty RKP ''MethodUploadCommonData'' callID)))"

definition getCommonData ::
  "ranking_state \<Rightarrow> u32 \<Rightarrow> string option \<Rightarrow> u64 \<Rightarrow> ranking_result" where
  "getCommonData s callID err uniqueID =
     (if err \<noteq> None then (s, Inl (NewError Ranking_InvalidArgument change_error))
      else case GetCommonData s uniqueID of
        Inl e \<Rightarrow> (s, Inl (NewError Ranking_NotFound change_error))
      | Inr blob \<Rightarrow> (s, Inr (respond RKP ''MethodGetCommonData'' callID [WBuffer blob])))"

datatype ranking_mode =
    RankingModeRange
  | RankingModeNear
  | RankingModeFriendRange
  | RankingModeFriendNear
  | RankingModeUser
  | UnknownRankingMode

fun rankings_of_mode ::
  "ranking_ctx \<Rightarrow> ranking_store \<Rightarrow> ranking_mode \<Rightarrow> u64 \<Rightarrow> u32 \<Rightarrow> order_param \<Rightarrow>
   (rank_data list \<times> u32) option" where
  "rankings_of_mode C st RankingModeRange pid c op =
     Some (GetRankingsAndCountByCategoryAndRankingOrderParam (rk_env C) st c op)"
| "rankings_of_mode C st RankingModeNear pid c op =
     Some (GetNearbyRankingsAndCountByCategoryAndRankingOrderParam (rk_env C) st pid c op)"
| "rankings_of_mode C st RankingModeFriendRange pid c op =
     Some (GetFriendsRankingsAndCountByCategoryAndRankingOrderParam (rk_env C) st pid c op)"
| "rankings_of_mode C st RankingModeFriendNear pid c op =
     Some (GetNearbyFriendsRankingsAndCountByCategoryAndRankingOrderParam (rk_env C) st pid c op)"
| "rankings_of_mode C st RankingModeUser pid c op =
     Some (GetOwnRankingByCategoryAndRankingOrderParam (rk_env C) st pid c op)"
| "rankings_of_mode C st UnknownRankingMode pid c op = None"

fun_cases rankings_of_modeE: "rankings_of_mode C st mode pid c op = Some r"

definition getRanking ::
  "ranking_ctx \<Rightarrow> ranking_state \<Rightarrow> u64 \<Rightarrow> u32 \<Rightarrow> string option \<Rightarrow> ranking_mode \<Rightarrow> u32 \<Rightarrow> order_param \<Rightarrow>
   u64 \<Rightarrow> ranking_result" where
  "getRanking C s pid callID err mode category op principalID =
     (if err \<noteq> None then (s, Inl (NewError Ranking_InvalidArgument change_error))
      else let callerPID = (if principalID = 0 then pid else principalID) in
        case rankings_of_mode C (fst s) mode callerPID category op of
          None \<Rightarrow> (s, Inl (NewError Ranking_InvalidArgument ''Unknown RankingMode''))
        | Some (rows, totalCount) \<Rightarrow>
            (s, if totalCount = 0 \<or> rows = [] then Inl (NewError Ranking_NotFound change_error)
                else Inr (respond RKP ''MethodGetRanking'' callID
                       [WStruct (SRankingResult rows totalCount SinceTime)])))"

text \<open>The cached queries are answered afresh; \<^verbatim>\<open>rk_expiry\<close> is the clock five minutes later, and one request
  takes one reading of it.\<close>

definition cached_result :: "ranking_ctx \<Rightarrow> rank_data list \<Rightarrow> u32 \<Rightarrow> ranking_struct" where
  "cached_result C rows totalCount =
     SRankingCachedResult rows totalCount SinceTime (rk_now C) (rk_expiry C) 10"

definition getCachedTopXRanking ::
  "ranking_ctx \<Rightarrow> ranking_state \<Rightarrow> u32 \<Rightarrow> string option \<Rightarrow> u32 \<Rightarrow> order_param \<Rightarrow> ranking_result" where
  "getCachedTopXRanking C s callID err category op =
     (if err \<noteq> None then (s, Inl (NewError Ranking_InvalidArgument change_error))
      else let (rows, totalCount) = GetRankingsAndCountByCategoryAndRankingOrderParam (rk_env C) (fst s) category op in
        (s, if totalCount = 0 \<or> rows = [] then Inl (NewError Ranking_NotFound change_error)
            else Inr (respond RKP ''MethodGetCachedTopXRanking'' callID [WStruct (cached_result C rows totalCount)])))"

text \<open>The first category without a row ends the loop.\<close>

fun cached_results ::
  "ranking_ctx \<Rightarrow> ranking_store \<Rightarrow> (u32 \<times> order_param) list \<Rightarrow> nex_error + ranking_struct list" where
  "cached_results C st [] = Inr []"
| "cached_results C st ((category, op) # rest) =
     (let (rows, totalCount) = GetRankingsAndCountByCategoryAndRankingOrderParam (rk_env C) st category op in
      if totalCount = 0 \<or> rows = [] then Inl (NewError Ranking_NotFound change_error)
      else map_sum id (\<lambda>rs. cached_result C rows totalCount # rs) (cached_results C st rest))"

lemma cached_results_Inr:
  "cached_results C st qs = Inr rs \<longleftrightarrow>
   (\<forall>(c, op) \<in> set qs. case GetRankingsAndCountByCategoryAndRankingOrderParam (rk_env C) st c op of
      (rows, n) \<Rightarrow> n \<noteq> 0 \<and> rows \<noteq> []) \<and>
   rs = map (\<lambda>(c, op). case GetRankingsAndCountByCategoryAndRankingOrderParam (rk_env C) st c op of
      (rows, n) \<Rightarrow> cached_result C rows n) qs"
proof (induction C st qs arbitrary: rs rule: cached_results.induct)
  case (2 C st c op rest)
  obtain rows n where q: "GetRankingsAndCountByCategoryAndRankingOrderParam (rk_env C) st c op = (rows, n)"
    by fastforce
  show ?case
  proof (cases "n = 0 \<or> rows = []")
    case False
    note IH = 2 [OF q [symmetric] refl this]
    show ?thesis
    proof (cases "cached_results C st rest")
      case (Inl e)
      then show ?thesis using False q IH by auto
    next
      case (Inr b)
      then show ?thesis using False q IH [of b] by auto
    qed
  qed (auto simp: q)
qed auto

definition getCachedTopXRankings ::
  "ranking_ctx \<Rightarrow> ranking_state \<Rightarrow> u32 \<Rightarrow> string option \<Rightarrow> u32 list \<Rightarrow> order_param list \<Rightarrow> ranking_result" where
  "getCachedTopXRankings C s callID err categories ops =
     (if err \<noteq> None \<or> length categories \<noteq> length ops
      then (s, Inl (NewError Ranking_InvalidArgument change_error))
      else (s, map_sum id (\<lambda>rs. respond RKP ''MethodGetCachedTopXRankings'' callID [WList (map WStruct rs)])
                 (cached_results C (fst s) (zip categories ops))))"

subsection \<open>Requests\<close>

datatype ranking_request =
    UploadScore score_data u64
  | DeleteScoreRequest u32 u64
  | DeleteAllScoresRequest u64
  | UploadCommonDataRequest bytes u64
  | DeleteCommonDataRequest u64
  | GetCommonDataRequest u64
  | GetRanking ranking_mode u32 order_param u64
  | GetRankingByPIDList "u64 list" u32 order_param
  | GetApproxOrder u32 u32
  | GetCachedTopXRanking u32 order_param
  | GetCachedTopXRankings "u32 list" "order_param list"

fun handle_ranking ::
  "ranking_ctx \<Rightarrow> ranking_state \<Rightarrow> u64 \<Rightarrow> u32 \<Rightarrow> string option \<Rightarrow> ranking_request \<Rightarrow> ranking_result" where
  "handle_ranking C s pid callID err (UploadScore sd u) = uploadScore C s pid callID err sd u"
| "handle_ranking C s pid callID err (DeleteScoreRequest c u) = deleteScore C s pid callID err c u"
| "handle_ranking C s pid callID err (DeleteAllScoresRequest u) = deleteAllScores C s pid callID err u"
| "handle_ranking C s pid callID err (UploadCommonDataRequest b u) =
     uploadCommonData C s pid callID err b u"
| "handle_ranking C s pid callID err (DeleteCommonDataRequest u) = deleteCommonData C s pid callID err u"
| "handle_ranking C s pid callID err (GetCommonDataRequest u) = getCommonData s callID err u"
| "handle_ranking C s pid callID err (GetRanking m c op p) = getRanking C s pid callID err m c op p"
| "handle_ranking C s pid callID err (GetRankingByPIDList ps c op) =
     getRankingByPIDList C s callID err ps c op"
| "handle_ranking C s pid callID err (GetApproxOrder c score) = getApproxOrder C s callID err c score"
| "handle_ranking C s pid callID err (GetCachedTopXRanking c op) = getCachedTopXRanking C s callID err c op"
| "handle_ranking C s pid callID err (GetCachedTopXRankings cs ops) = getCachedTopXRankings C s callID err cs ops"

end
