(* ===== verification/RankingSystem.thy ===== *)
theory RankingSystem
  imports RankingOps
begin

text \<open>
  The leaderboard server as a state machine: requests, restarts and crashes in the middle of a save.
  One lemma says what any request does to the store (nothing, or a save of a new well-formed store);
  the invariants of the machine and the durability of acknowledged changes follow from it.
\<close>

subsection \<open>Well-formed stores\<close>

lemma NewRankingStore_ok: "ranking_ok NewRankingStore"
  by (simp add: ranking_ok_def NewRankingStore_def)

lemma with_category_ok: "ranking_ok st \<Longrightarrow> ranking_ok (with_category c st)"
  by (auto simp: ranking_ok_def with_category_def)

lemma board_with_category [simp]: "board (with_category c st) = board st"
  by (rule ext) (auto simp: board_def with_category_def)

lemma with_category_same: "board st c p = Some e \<Longrightarrow> with_category c st = st"
  by (auto simp: board_def with_category_def split: option.splits)

lemma put_entry_ok:
  "ranking_ok st \<Longrightarrow> e_PID e = pid \<Longrightarrow> e_Category e = c \<Longrightarrow> ranking_ok (put_entry e pid c st)"
  by (cases "scores st c") (auto simp: ranking_ok_def put_entry_def board_def split: if_splits)

lemma board_put_entry:
  "board (put_entry e pid c st) k = (if k = c then (board st c)(pid \<mapsto> e) else board st k)"
  by (simp add: board_def put_entry_def)

lemma without_player_Some:
  "without_player pid es = Some es' \<Longrightarrow> es' = es(pid := None)"
  by (auto simp: without_player_def Let_def split: if_splits)

lemma without_player_ok:
  "ranking_ok st \<Longrightarrow> scores st c = Some es \<Longrightarrow>
   ranking_ok (st\<lparr>scores := (scores st)(c := without_player pid es)\<rparr>)"
  by (auto simp: ranking_ok_def dest!: without_player_Some split: if_splits)

lemma fold_map_upd:
  "distinct (map fst kvs) \<Longrightarrow>
   fold (\<lambda>(k, v) m. m(k := g v)) kvs m =
   (\<lambda>k. case map_of kvs k of None \<Rightarrow> m k | Some v \<Rightarrow> g v)"
proof (induction kvs arbitrary: m)
  case (Cons kv kvs)
  obtain k v where kv: "kv = (k, v)" by fastforce
  have "map_of kvs k = None" using Cons.prems kv by (simp add: map_of_eq_None_iff)
  with Cons kv show ?case by (auto split: option.splits)
qed simp

definition all_without :: "u64 \<Rightarrow> ranking_store \<Rightarrow> u32 \<rightharpoonup> u64 \<rightharpoonup> entry" where
  "all_without pid st = (\<lambda>c. Option.bind (scores st c) (without_player pid))"

lemma DeleteAllScores_eq:
  assumes "env_orders (rk_env C)" and "finite (dom (scores st))"
  shows "DeleteAllScores C (st, fs) pid = saved C (st\<lparr>scores := all_without pid st\<rparr>) fs"
proof -
  let ?xs = "range_map (scores st) (categoryOrder (rk_env C) (dom (scores st)))"
  have ord: "visits_all (categoryOrder (rk_env C))" using assms(1) by (simp add: env_orders_def)
  note range = range_map_visits_all [OF ord assms(2)]
  have "map_of ?xs c = scores st c" for c
  proof (cases "scores st c")
    case None
    then show ?thesis using range(1) by (auto simp: map_of_eq_None_iff)
  next
    case (Some es)
    then have "(c, es) \<in> set ?xs" using range(1) by blast
    then show ?thesis using Some range(3) by (simp only: map_of_eq_Some_iff)
  qed
  then have "fold (\<lambda>(category, entries) m. m(category := without_player pid entries)) ?xs (scores st) =
      all_without pid st"
    unfolding fold_map_upd [OF range(3)]
    by (auto simp: all_without_def split: option.splits)
  then show ?thesis by (simp add: DeleteAllScores_def)
qed

lemma all_without_ok: "ranking_ok st \<Longrightarrow> ranking_ok (st\<lparr>scores := all_without pid st\<rparr>)"
proof -
  assume ok: "ranking_ok st"
  have "dom (all_without pid st) \<subseteq> dom (scores st)"
    by (auto simp: all_without_def bind_eq_Some_conv)
  then have "finite (dom (all_without pid st))"
    using ok finite_subset unfolding ranking_ok_def by blast
  then show ?thesis
    using ok by (auto simp: ranking_ok_def all_without_def bind_eq_Some_conv
        dest!: without_player_Some split: if_splits)
qed

lemma common_data_ok:
  "ranking_ok st \<Longrightarrow> ranking_ok (st\<lparr>commonData := (commonData st)(u := b)\<rparr>)"
  by (cases b) (auto simp: ranking_ok_def)

subsection \<open>The effect of a request\<close>

lemma saved_fst: "fst (saved C st fs) = (st, fst (save (rk_env C) (rk_io C) (rk_path C) st fs))"
  by (simp add: saved_def split: prod.splits)

text \<open>A request leaves the state alone, or saves a well-formed store; a response that is not an error
  means that the save went through.\<close>

definition effect :: "ranking_ctx \<Rightarrow> ranking_state \<Rightarrow> ranking_result \<Rightarrow> bool" where
  "effect C s r \<longleftrightarrow> fst r = s \<or>
     (\<exists>st. ranking_ok st \<and> fst r = fst (saved C st (snd s)) \<and>
        (\<forall>resp. snd r = Inr resp \<longrightarrow> snd (saved C st (snd s)) = None))"

lemma effect_same [simp]: "effect C s (s, x)"
  by (simp add: effect_def)

lemma effect_changed:
  "ranking_ok st \<Longrightarrow> effect C s (changed (saved C st (snd s)) name callID)"
  unfolding effect_def
  by (rule disjI2) (auto simp: changed_def split: prod.splits option.splits)

lemma uploadScore_effect:
  assumes "ranking_ok (fst s)"
  shows "effect C s (uploadScore C s pid callID err sd u)"
proof -
  obtain st fs where s: "s = (st, fs)" by fastforce
  let ?new = "candidate pid sd u (rk_now C)"
  let ?st = "put_entry ?new pid (sd_Category sd) (with_category (sd_Category sd) st)"
  have ok: "ranking_ok ?st"
    using assms s by (auto intro!: put_entry_ok with_category_ok simp: candidate_def)
  have "InsertRankingByPIDAndRankingScoreData C s pid sd u = (s, None) \<or>
      InsertRankingByPIDAndRankingScoreData C s pid sd u = saved C ?st fs"
    by (auto simp: InsertRankingByPIDAndRankingScoreData_def s Let_def
        with_category_same split: option.splits)
  then show ?thesis
  proof
    assume "InsertRankingByPIDAndRankingScoreData C s pid sd u = (s, None)"
    then show ?thesis by (simp add: uploadScore_def)
  next
    assume "InsertRankingByPIDAndRankingScoreData C s pid sd u = saved C ?st fs"
    then show ?thesis
      unfolding effect_def uploadScore_def using ok s
      by (auto split: prod.splits)
  qed
qed

lemma uploadCommonData_effect:
  assumes "ranking_ok (fst s)"
  shows "effect C s (uploadCommonData C s pid callID err b u)"
proof -
  obtain st fs where s: "s = (st, fs)" by fastforce
  have "ranking_ok (st\<lparr>commonData := (commonData st)(u \<mapsto> b)\<rparr>)"
    using assms s by (simp add: common_data_ok)
  then show ?thesis
    unfolding effect_def uploadCommonData_def UploadCommonData_def using s
    by (auto split: prod.splits)
qed

lemma handle_ranking_effect:
  assumes "env_orders (rk_env C)" and "ranking_ok (fst s)"
  shows "effect C s (handle_ranking C s pid callID err rq)"
proof -
  obtain st fs where s: "s = (st, fs)" by fastforce
  have ok: "ranking_ok st" "finite (dom (scores st))" using assms(2) s by (auto simp: ranking_ok_def)
  have sav: "effect C s (changed (saved C st' fs) name callID)" if "ranking_ok st'" for st' name
    using effect_changed [OF that, of C s name callID] s by simp
  show ?thesis
  proof (cases rq)
    case (UploadScore sd u)
    then show ?thesis using uploadScore_effect [OF assms(2)] by simp
  next
    case (DeleteScoreRequest c u)
    then show ?thesis using sav ok without_player_ok [OF ok(1)]
      by (auto simp: deleteScore_def DeleteScore_def s split: option.splits)
  next
    case (DeleteAllScoresRequest u)
    then show ?thesis using sav all_without_ok [OF ok(1)] DeleteAllScores_eq [OF assms(1) ok(2)]
      by (auto simp: deleteAllScores_def s split: option.splits)
  next
    case (UploadCommonDataRequest b u)
    then show ?thesis using uploadCommonData_effect [OF assms(2)] by simp
  next
    case (DeleteCommonDataRequest u)
    then show ?thesis using sav common_data_ok [OF ok(1)]
      by (auto simp: deleteCommonData_def DeleteCommonData_def s split: option.splits)
  next
    case (GetCommonDataRequest u)
    then show ?thesis by (auto simp: getCommonData_def split: sum.splits)
  next
    case (GetRanking m c op p)
    then show ?thesis by (auto simp: getRanking_def Let_def split: option.splits prod.splits)
  next
    case (GetRankingByPIDList ps c op)
    then show ?thesis
      by (auto simp: getRankingByPIDList_def split: option.splits prod.splits)
  next
    case (GetApproxOrder c score)
    then show ?thesis by (auto simp: getApproxOrder_def split: option.splits)
  next
    case (GetCachedTopXRanking c op)
    then show ?thesis by (auto simp: getCachedTopXRanking_def Let_def split: prod.splits)
  next
    case (GetCachedTopXRankings cs ops)
    then show ?thesis by (auto simp: getCachedTopXRankings_def)
  qed
qed

subsection \<open>The machine\<close>

inductive ranking_step :: "ranking_env \<Rightarrow> string \<Rightarrow> ranking_state \<Rightarrow> ranking_state \<Rightarrow> bool"
  for E path where
  request: "rk_env C = E \<Longrightarrow> rk_path C = path \<Longrightarrow>
    ranking_step E path s (fst (handle_ranking C s pid callID err rq))"
| restart: "load E F fs path = Loaded st \<Longrightarrow> ranking_step E path (st0, fs) (st, fs)"
| crash: "rk_env C = E \<Longrightarrow> rk_path C = path \<Longrightarrow>
    st1 = fst (fst (handle_ranking C (st0, fs) pid callID err rq)) \<Longrightarrow>
    (save_step path (contents_of E st1))\<^sup>*\<^sup>* (Started, fs) (pc, fs') \<Longrightarrow>
    load E F fs' path = Loaded st \<Longrightarrow> ranking_step E path (st0, fs) (st, fs')"

definition ranking_inv :: "ranking_env \<Rightarrow> string \<Rightarrow> ranking_state \<Rightarrow> bool" where
  "ranking_inv E path s \<longleftrightarrow> ranking_ok (fst s) \<and>
     (\<forall>contents. snd s path = Some contents \<longrightarrow> (\<exists>st. ranking_ok st \<and> contents = contents_of E st))"

lemma load_ok:
  assumes "env_orders E" and "load E F fs path = Loaded st"
    and "\<forall>contents. fs path = Some contents \<longrightarrow> (\<exists>st. ranking_ok st \<and> contents = contents_of E st)"
  shows "ranking_ok st"
proof (cases "fs path")
  case None
  then show ?thesis using assms(2) NewRankingStore_ok by (auto simp: load_def split: option.splits)
next
  case (Some contents)
  then obtain st' where st': "ranking_ok st'" "contents = contents_of E st'" using assms(3) by auto
  have "read_error F = None" using assms(2) by (auto simp: load_def split: option.splits)
  then have "load E F fs path = Loaded st'"
    using load_contents [OF assms(1,1) st'(1)] Some st'(2) by simp
  then show ?thesis using assms(2) st'(1) by simp
qed

lemma saved_file:
  "snd (fst (saved C st fs)) (rk_path C) = fs (rk_path C) \<or>
   snd (fst (saved C st fs)) (rk_path C) = Some (contents_of (rk_env C) st)"
proof -
  obtain fs' err where r: "save (rk_env C) (rk_io C) (rk_path C) st fs = (fs', err)" by fastforce
  then obtain pc where "(save_step (rk_path C) (contents_of (rk_env C) st))\<^sup>*\<^sup>* (Started, fs) (pc, fs')"
    using save_by_steps by blast
  from crash_old_or_new [OF this] show ?thesis using r by (simp add: saved_def)
qed

lemma saved_success:
  "snd (saved C st fs) = None \<Longrightarrow>
   snd (fst (saved C st fs)) (rk_path C) = Some (contents_of (rk_env C) st)"
  by (auto simp: saved_def save_def Let_def split: option.splits prod.splits)

lemma request_inv:
  assumes "env_orders (rk_env C)" and "ranking_inv (rk_env C) (rk_path C) s"
  shows "ranking_inv (rk_env C) (rk_path C) (fst (handle_ranking C s pid callID err rq))"
proof -
  have "effect C s (handle_ranking C s pid callID err rq)"
    using assms by (intro handle_ranking_effect) (auto simp: ranking_inv_def)
  then consider "fst (handle_ranking C s pid callID err rq) = s"
    | st where "ranking_ok st"
      "fst (handle_ranking C s pid callID err rq) = fst (saved C st (snd s))"
    unfolding effect_def by blast
  then show ?thesis
  proof cases
    case 1
    then show ?thesis using assms(2) by simp
  next
    case (2 st)
    have "ranking_inv (rk_env C) (rk_path C) (fst (saved C st (snd s)))"
      using saved_file [of C st "snd s"] saved_fst [of C st "snd s"] 2(1) assms(2)
      by (auto simp: ranking_inv_def)
    then show ?thesis using 2(2) by simp
  qed
qed

lemma ranking_step_inv:
  assumes "ranking_step E path s t" and "env_orders E" and "ranking_inv E path s"
  shows "ranking_inv E path t"
  using assms
proof (induction rule: ranking_step.induct)
  case (request C s pid callID err rq)
  then show ?case using request_inv [of C s pid callID err rq] by simp
next
  case (restart F fs st st0)
  then show ?case using load_ok [of E F fs path st] by (auto simp: ranking_inv_def)
next
  case (crash C st1 st0 fs pid callID err rq pc fs' F st)
  have "ranking_inv (rk_env C) (rk_path C) (fst (handle_ranking C (st0, fs) pid callID err rq))"
    using crash by (intro request_inv) auto
  then have "ranking_ok st1" using crash by (simp add: ranking_inv_def)
  then have "\<forall>contents. fs' path = Some contents \<longrightarrow> (\<exists>st. ranking_ok st \<and> contents = contents_of E st)"
    using crash_old_or_new [OF crash(4)] crash.prems by (auto simp: ranking_inv_def)
  then show ?case using load_ok [OF crash.prems(1) crash(5)] by (simp add: ranking_inv_def)
qed

text \<open>A step under iteration orders as Go promises them.\<close>

definition ranking_run :: "ranking_env \<Rightarrow> string \<Rightarrow> ranking_state \<Rightarrow> ranking_state \<Rightarrow> bool" where
  "ranking_run E path s t \<longleftrightarrow> env_orders E \<and> ranking_step E path s t"

interpretation ranking_machine: invariant_system
  "\<lambda>s. s = (NewRankingStore, fs0) \<and> fs0 path = None" "ranking_run E path" "ranking_inv E path"
  by unfold_locales
    (auto simp: ranking_inv_def NewRankingStore_ok ranking_run_def dest: ranking_step_inv)

subsection \<open>What uploads leave on a board\<close>

lemma Insert_board:
  "board (fst (fst (InsertRankingByPIDAndRankingScoreData C (st, fs) pid sd u))) c =
    (if c = sd_Category sd \<and>
       (case board st c pid of
          None \<Rightarrow> True
        | Some e \<Rightarrow> sd_UpdateMode sd = UpdateModeNormal (rankingProto (rk_env C)) \<longrightarrow>
            betterThan (rankingProto (rk_env C)) (sd_Score sd) (e_Score e) (sd_OrderBy sd))
     then (board st c)(pid \<mapsto> candidate pid sd u (rk_now C)) else board st c)"
  by (auto simp: InsertRankingByPIDAndRankingScoreData_def Let_def saved_fst board_put_entry
      candidate_def split: option.splits)

type_synonym upload = "u64 \<times> score_data \<times> u64 \<times> io \<times> u64"

definition apply_upload :: "ranking_ctx \<Rightarrow> ranking_state \<Rightarrow> upload \<Rightarrow> ranking_state" where
  "apply_upload C s = (\<lambda>(pid, sd, u, F, time).
     fst (InsertRankingByPIDAndRankingScoreData (C\<lparr>rk_io := F, rk_now := time\<rparr>) s pid sd u))"

definition run_uploads :: "ranking_ctx \<Rightarrow> ranking_state \<Rightarrow> upload list \<Rightarrow> ranking_state" where
  "run_uploads C = foldl (apply_upload C)"

definition scores_of :: "u64 \<Rightarrow> upload list \<Rightarrow> u32 list" where
  "scores_of p us = map (\<lambda>(q, sd, _). sd_Score sd) (filter (\<lambda>(q, sd, _). q = p) us)"

lemma scores_of_snoc:
  "scores_of p (us @ [(q, sd, u, F, time)]) =
   (if q = p then scores_of p us @ [sd_Score sd] else scores_of p us)"
  by (simp add: scores_of_def)

text \<open>The best score of a list under a comparator: one of them that none of them beats.\<close>

definition best_of :: "('a \<Rightarrow> 'a \<Rightarrow> bool) \<Rightarrow> 'a list \<Rightarrow> 'a \<Rightarrow> bool" where
  "best_of lt xs x \<longleftrightarrow> x \<in> set xs \<and> (\<forall>y \<in> set xs. \<not> lt y x)"

context strict_weak_order
begin

lemma best_of_snoc: "best_of lt xs x \<Longrightarrow> best_of lt (xs @ [y]) (if lt y x then y else x)"
  using irreflexive by (auto simp: best_of_def dest: transitive)

lemma best_of_single: "best_of lt [x] x"
  using irreflexive by (simp add: best_of_def)

end

text \<open>After uploads that keep the better score, the board holds the best score of every player.\<close>

definition plain_upload :: "ranking_ctx \<Rightarrow> u32 \<Rightarrow> u8 \<Rightarrow> upload \<Rightarrow> bool" where
  "plain_upload C c ob = (\<lambda>(pid, sd, u, F, time). sd_Category sd = c \<and> sd_OrderBy sd = ob \<and>
     sd_UpdateMode sd = UpdateModeNormal (rankingProto (rk_env C)))"

definition board_best :: "ranking_ctx \<Rightarrow> u32 \<Rightarrow> u8 \<Rightarrow> ranking_store \<Rightarrow> upload list \<Rightarrow> bool" where
  "board_best C c ob st us \<longleftrightarrow> (\<forall>p. case board st c p of
       None \<Rightarrow> scores_of p us = []
     | Some e \<Rightarrow> best_of (\<lambda>x y. betterThan (rankingProto (rk_env C)) x y ob) (scores_of p us) (e_Score e))"

lemma board_best_step:
  assumes "plain_upload C c ob (pid, sd, u, F, time)" and "board_best C c ob (fst s) us"
  shows "board_best C c ob (fst (apply_upload C s (pid, sd, u, F, time))) (us @ [(pid, sd, u, F, time)])"
proof -
  obtain st fs where s: "s = (st, fs)" by fastforce
  let ?lt = "\<lambda>x y. betterThan (rankingProto (rk_env C)) x y ob"
  let ?st = "fst (apply_upload C s (pid, sd, u, F, time))"
  have board: "board ?st c = (if (case board st c pid of None \<Rightarrow> True
        | Some e \<Rightarrow> ?lt (sd_Score sd) (e_Score e))
      then (board st c)(pid \<mapsto> candidate pid sd u time) else board st c)"
    using assms(1)
    by (simp add: apply_upload_def s Insert_board plain_upload_def cong: option.case_cong)
  show ?thesis
    unfolding board_best_def
  proof (rule allI)
    fix p
    have old: "case board st c p of None \<Rightarrow> scores_of p us = []
        | Some e \<Rightarrow> best_of ?lt (scores_of p us) (e_Score e)"
      using assms(2) s by (simp add: board_best_def)
    show "case board ?st c p of None \<Rightarrow> scores_of p (us @ [(pid, sd, u, F, time)]) = []
        | Some e \<Rightarrow> best_of ?lt (scores_of p (us @ [(pid, sd, u, F, time)])) (e_Score e)"
    proof (cases "p = pid")
      case False
      then have "scores_of p (us @ [(pid, sd, u, F, time)]) = scores_of p us"
        "board ?st c p = board st c p" using board by (simp_all add: scores_of_snoc)
      then show ?thesis using old by (simp only:)
    next
      case True
      show ?thesis
      proof (cases "board st c pid")
        case None
        then show ?thesis
          using True old board better.best_of_single
          by (simp add: scores_of_snoc candidate_def)
      next
        case (Some e)
        then have "best_of ?lt (scores_of pid us @ [sd_Score sd])
            (if ?lt (sd_Score sd) (e_Score e) then sd_Score sd else e_Score e)"
          using old True by (intro better.best_of_snoc) simp
        then show ?thesis
          using Some True board by (simp add: scores_of_snoc candidate_def split: if_splits)
      qed
    qed
  qed
qed

lemma board_best_run:
  assumes "\<forall>x \<in> set us. plain_upload C c ob x" and "board (fst s) c = Map.empty"
  shows "board_best C c ob (fst (run_uploads C s us)) us"
  using assms(1)
proof (induction us rule: rev_induct)
  case Nil
  then show ?case using assms(2) by (simp add: board_best_def run_uploads_def scores_of_def)
next
  case (snoc x us)
  obtain pid sd u F time where x: "x = (pid, sd, u, F, time)" by (cases x)
  have "board_best C c ob (fst (run_uploads C s us)) us" using snoc by simp
  from board_best_step [OF _ this] show ?case
    using snoc.prems x by (simp add: run_uploads_def)
qed

end
