(* ===== verification/RankingTheorems.thy ===== *)
theory RankingTheorems
  imports RankingSystem Config
begin

text \<open>
  The properties of the leaderboard server: its invariant, what boards, pages, windows, friends' boards
  and projected ranks say, and what survives failed saves, crashes and restarts. The examples are a
  category with two lap times.
\<close>

subsection \<open>Examples\<close>

definition example_io :: io where
  "example_io = \<lparr>read_error = None, mkdir_error = None, write_error = None, rename_error = None\<rparr>"

definition example_ranking_env :: ranking_env where
  "example_ranking_env =
     \<lparr>rankingProto = \<lparr>OrderByDescending = 1, UpdateModeNormal = 0, OrderCalculation113 = 0\<rparr>,
      entryOrder = sorted_list_of_set, categoryOrder = sorted_list_of_set,
      keyOrder = sorted_list_of_set, rankingFriends = Some GetUserFriendPIDs\<rparr>"

definition example_ctx :: ranking_ctx where
  "example_ctx = \<lparr>rk_env = example_ranking_env, rk_io = example_io, rk_path = ''r'', rk_now = 9,
     rk_expiry = 309\<rparr>"

definition lap :: "u32 \<Rightarrow> score_data" where
  "lap s = \<lparr>sd_Category = 3, sd_Score = s, sd_OrderBy = 0, sd_UpdateMode = 0, sd_Groups = [], sd_Param = 0\<rparr>"

definition example_entry :: "u64 \<Rightarrow> u32 \<Rightarrow> entry" where
  "example_entry p s = \<lparr>e_PID = p, e_UniqueID = 0, e_Category = 3, e_Score = s, e_OrderBy = 0,
     e_Groups = [], e_Param = 0, e_UpdateTime = 9\<rparr>"

definition example_ranking :: ranking_store where
  "example_ranking = \<lparr>scores = [3 \<mapsto> [7 \<mapsto> example_entry 7 50, 8 \<mapsto> example_entry 8 40]],
     commonData = Map.empty\<rparr>"

definition example_op :: order_param where
  "example_op = \<lparr>OrderCalculation = 0, Offset = 0, Length = 0\<rparr>"

lemma example_orders: "env_orders example_ranking_env"
  by (simp add: env_orders_def example_ranking_env_def visits_all_sorted)

lemma example_ranking_ok: "ranking_ok example_ranking"
  by (auto simp: ranking_ok_def example_ranking_def example_entry_def split: if_splits)

lemma example_uniform: "uniform example_ranking 3 0"
  by (auto simp: uniform_def example_ranking_def example_entry_def board_def split: if_splits)

subsection \<open>The invariant\<close>

text \<open>C33: whatever requests, restarts and crashes in the middle of a save happen, every entry of every
  board is stored under its own category and its own player, and boards are finite.\<close>

theorem reachable_boards_well_formed:
  assumes "fs0 path = None" and "(ranking_run E path)\<^sup>*\<^sup>* (NewRankingStore, fs0) (st, fs)"
    and "scores st c = Some entries"
  shows "finite (dom entries) \<and> (\<forall>p e. entries p = Some e \<longrightarrow> e_PID e = p \<and> e_Category e = c)"
  using ranking_machine.inv_reachable [OF _ assms(2)] assms(1,3)
  by (auto simp: ranking_inv_def ranking_ok_def)

lemma example_upload:
  "fst (fst (handle_ranking example_ctx (NewRankingStore, Map.empty) 7 0 None (UploadScore (lap 50) 0))) =
   \<lparr>scores = [3 \<mapsto> [7 \<mapsto> example_entry 7 50]], commonData = Map.empty\<rparr>"
  by (simp add: uploadScore_def InsertRankingByPIDAndRankingScoreData_def Let_def NewRankingStore_def
      lap_def candidate_def saved_def with_category_def put_entry_def board_def example_ctx_def
      example_entry_def split: prod.splits)

theorem reachable_boards_well_formed_witness:
  "\<exists>st fs. (ranking_run example_ranking_env ''r'')\<^sup>*\<^sup>* (NewRankingStore, Map.empty) (st, fs) \<and>
     scores st 3 = Some [7 \<mapsto> example_entry 7 50] \<and> finite (dom [7 :: u64 \<mapsto> example_entry 7 50])"
proof -
  let ?r = "handle_ranking example_ctx (NewRankingStore, Map.empty) 7 0 None (UploadScore (lap 50) 0)"
  obtain st fs where s: "fst ?r = (st, fs)" by fastforce
  have "ranking_step example_ranking_env ''r'' (NewRankingStore, Map.empty) (fst ?r)"
    by (rule request) (simp_all add: example_ctx_def)
  then have run: "(ranking_run example_ranking_env ''r'')\<^sup>*\<^sup>* (NewRankingStore, Map.empty) (st, fs)"
    using example_orders s by (simp add: ranking_run_def r_into_rtranclp)
  moreover have "scores st 3 = Some [7 \<mapsto> example_entry 7 50]"
    using example_upload s by simp
  ultimately show ?thesis
    using reachable_boards_well_formed [OF _ run] by fastforce
qed

subsection \<open>Scores\<close>

text \<open>C18: after any uploads to a fresh category that keep the better score and agree on the ordering, the
  board holds for every player the best score that player uploaded, and nothing for the others.\<close>

theorem best_score_kept:
  assumes "board (fst s) c = Map.empty"
    and "\<forall>(pid, sd, u, F, time) \<in> set us. sd_Category sd = c \<and> sd_OrderBy sd = ob \<and>
      sd_UpdateMode sd = UpdateModeNormal (rankingProto (rk_env C))"
  shows "case board (fst (run_uploads C s us)) c p of
      None \<Rightarrow> scores_of p us = []
    | Some e \<Rightarrow> e_Score e \<in> set (scores_of p us) \<and>
        (\<forall>x \<in> set (scores_of p us). \<not> betterThan (rankingProto (rk_env C)) x (e_Score e) ob)"
proof -
  have "\<forall>x \<in> set us. plain_upload C c ob x" using assms(2) by (auto simp: plain_upload_def)
  from board_best_run [OF this assms(1)] show ?thesis
    unfolding board_best_def best_of_def by (rule spec)
qed

theorem best_score_kept_witness:
  "board (fst (run_uploads example_ctx (NewRankingStore, Map.empty)
     [(7, lap 50, 0, example_io, 1), (7, lap 60, 0, example_io, 2)])) 3 7 \<noteq> None"
proof -
  let ?us = "[(7, lap 50, 0, example_io, 1), (7, lap 60, 0, example_io, 2)]"
  let ?s = "(NewRankingStore, Map.empty) :: ranking_state"
  have fresh: "board (fst ?s) 3 = Map.empty" by (simp add: NewRankingStore_def board_def)
  have same: "\<forall>(pid, sd, u, F, time) \<in> set ?us. sd_Category sd = 3 \<and> sd_OrderBy sd = 0 \<and>
      sd_UpdateMode sd = UpdateModeNormal (rankingProto (rk_env example_ctx))"
    by (simp add: lap_def example_ctx_def example_ranking_env_def)
  have "scores_of 7 ?us \<noteq> []" by (simp add: scores_of_def)
  then show ?thesis
    using best_score_kept [OF fresh same, of 7]
    by (cases "board (fst (run_uploads example_ctx ?s ?us)) 3 7") (simp_all only: option.case, simp)
qed

text \<open>Deleting a player's scores removes the player from every board, drops the boards that are then
  empty, and changes nothing else.\<close>

theorem DeleteAllScores_exact:
  assumes "env_orders (rk_env C)" and "ranking_ok st"
  shows "let st' = fst (fst (DeleteAllScores C (st, fs) pid)) in
    (\<forall>c. board st' c = (board st c)(pid := None)) \<and>
    (\<forall>c. (case scores st' c of None \<Rightarrow> True | Some entries \<Rightarrow> dom entries \<noteq> {})) \<and>
    commonData st' = commonData st"
proof -
  have fin: "finite (dom (scores st))" using assms(2) by (simp add: ranking_ok_def)
  let ?st = "st\<lparr>scores := all_without pid st\<rparr>"
  have "fst (fst (DeleteAllScores C (st, fs) pid)) = ?st"
    by (simp add: DeleteAllScores_eq [OF assms(1) fin] saved_fst)
  moreover have "board ?st c = (board st c)(pid := None)" for c
    by (cases "scores st c")
      (auto simp: board_def all_without_def without_player_def Let_def simp del: dom_fun_upd)
  moreover have "case scores ?st c of None \<Rightarrow> True | Some entries \<Rightarrow> dom entries \<noteq> {}" for c
    by (cases "scores st c")
      (auto simp: all_without_def without_player_def Let_def simp del: dom_fun_upd)
  ultimately show ?thesis by (simp add: Let_def)
qed

theorem DeleteAllScores_exact_witness:
  "board (fst (fst (DeleteAllScores example_ctx (example_ranking, Map.empty) 7))) 3 =
   [8 \<mapsto> example_entry 8 40]"
proof -
  have "env_orders (rk_env example_ctx)" using example_orders by (simp add: example_ctx_def)
  from DeleteAllScores_exact [OF this example_ranking_ok, of Map.empty 7] show ?thesis
    by (simp add: Let_def board_def example_ranking_def fun_upd_twist)
qed

subsection \<open>Boards and ranks\<close>

text \<open>C27: a page of the global board is the cut, at the offset and length asked for, of one list of all
  entries of the category in which nobody is below a worse score; the rank of a row is, for standard
  ranking, one more than the number of players on the whole board with a better score, and its
  position on the whole board otherwise. The count is the number of players of the category.\<close>

theorem leaderboard_page:
  assumes "env_orders E" and "ranking_ok st" and "uniform st c ob"
    and "GetRankingsAndCountByCategoryAndRankingOrderParam E st c op = (rows, cnt)"
  shows "\<exists>ordered. set ordered = {e. board st c (e_PID e) = Some e} \<and> distinct (map e_PID ordered) \<and>
    sorted_wrt (\<lambda>a b. \<not> betterThan (rankingProto E) (e_Score b) (e_Score a) ob) ordered \<and>
    cnt = of_nat (card (dom (board st c))) \<and>
    map rd_PrincipalID rows = map e_PID (take (if Length op = 0 then length ordered else unat (Length op))
      (drop (unat (Offset op)) ordered)) \<and>
    (\<forall>j < length rows. rd_Score (rows ! j) = e_Score (ordered ! (unat (Offset op) + j)) \<and>
       rd_Order (rows ! j) =
         (if OrderCalculation op = OrderCalculation113 (rankingProto E)
          then of_nat (card (beaten_by (rankingProto E) st c ob (rd_Score (rows ! j)))) + 1
          else of_nat (unat (Offset op) + j) + 1))"
proof -
  let ?ordered = "rankedEntries E st c" and ?o = "unat (Offset op)"
  let ?k = "if Length op = 0 then length ?ordered else unat (Length op)"
  have vis: "visits_all (entryOrder E)" using assms(1) by (simp add: env_orders_def)
  have rows: "rows = rankData E st ?ordered (take ?k (drop ?o ?ordered)) (OrderCalculation op)"
    and cnt: "cnt = of_nat (length ?ordered)"
    using assms(4) by (simp_all add: GetRankingsAndCountByCategoryAndRankingOrderParam_def Let_def slice_eq)
  have sorted: "sorted_wrt (\<lambda>a b. \<not> betterThan (rankingProto E) (e_Score b) (e_Score a) ob) ?ordered"
    using rankedEntries_sorted [OF assms(2) vis assms(3)]
    by (rule sorted_wrt_mono_rel [rotated]) (rule entry_less_score)
  have row: "rows ! j = rank_row st (\<lambda>_. Some (rank_at E st c ob (OrderCalculation op) (?o + j)))
      (?ordered ! (?o + j))" if "j < length rows" for j
    using rankData_page [OF assms(2) vis assms(3)] that by (simp add: rows)
  show ?thesis
    using set_rankedEntries [OF assms(2) vis, of c] distinct_rankedEntries [OF assms(2) vis, of c]
      length_rankedEntries [OF assms(2) vis, of c] sorted cnt
    by (intro exI [of _ ?ordered] conjI allI impI) (simp_all add: row, simp_all add: rows rank_row_def rank_at_def)
qed

theorem leaderboard_page_witness:
  "\<exists>rows. fst (GetRankingsAndCountByCategoryAndRankingOrderParam example_ranking_env example_ranking 3
      example_op) = rows \<and> length rows = 2"
proof -
  obtain rows cnt where r: "GetRankingsAndCountByCategoryAndRankingOrderParam example_ranking_env
      example_ranking 3 example_op = (rows, cnt)" by fastforce
  from leaderboard_page [OF example_orders example_ranking_ok example_uniform r]
  obtain ordered where ordered: "set ordered = {e. board example_ranking 3 (e_PID e) = Some e}"
    "distinct (map e_PID ordered)" "map rd_PrincipalID rows = map e_PID ordered"
    by (auto simp: example_op_def)
  have "{e. board example_ranking 3 (e_PID e) = Some e} = {example_entry 7 50, example_entry 8 40}"
    by (auto simp: example_ranking_def board_def example_entry_def split: if_splits)
  then have "length (map e_PID ordered) = card (e_PID ` {example_entry 7 50, example_entry 8 40})"
    using ordered(1) distinct_card [OF ordered(2)] by simp
  then have "length rows = 2"
    using arg_cong [OF ordered(3), of length] by (simp add: example_entry_def)
  then show ?thesis using r by simp
qed

text \<open>The board around a player who is on it always shows that player with its own score and its rank
  on the whole board, in at most as many rows as asked for; a player who is not on the board gets no
  row.\<close>

theorem nearby_shows_caller:
  assumes "env_orders E" and "ranking_ok st" and "uniform st c ob"
    and "GetNearbyRankingsAndCountByCategoryAndRankingOrderParam E st pid c op = (rows, cnt)"
  shows "case board st c pid of
      None \<Rightarrow> rows = []
    | Some e \<Rightarrow> length rows \<le> max 1 (unat (Length op)) \<and>
        (\<exists>row \<in> set rows. rd_PrincipalID row = pid \<and> rd_Score row = e_Score e \<and>
           (OrderCalculation op = OrderCalculation113 (rankingProto E) \<longrightarrow>
              rd_Order row = of_nat (card (beaten_by (rankingProto E) st c ob (e_Score e))) + 1))"
proof -
  let ?es = "rankedEntries E st c"
  have vis: "visits_all (entryOrder E)" using assms(1) by (simp add: env_orders_def)
  have pids: "e_PID ` set ?es = dom (board st c)"
    using set_rankedEntries [OF assms(2) vis] players_of_board [OF assms(2)] by simp
  show ?thesis
  proof (cases "board st c pid")
    case None
    then have "pid \<notin> e_PID ` set ?es" using pids by auto
    then have "position_of pid 0 ?es = None" by (simp only: position_of_None not_False_eq_True)
    then show ?thesis using None assms(4)
      by (simp add: GetNearbyRankingsAndCountByCategoryAndRankingOrderParam_def Let_def)
  next
    case (Some e)
    then have "pid \<in> e_PID ` set ?es" using pids by auto
    then obtain n where pos: "position_of pid 0 ?es = Some n"
      using position_of_None [of pid 0 ?es] by (cases "position_of pid 0 ?es") auto
    have n: "n < length ?es" "e_PID (?es ! n) = pid" using position_of_Some [OF pos] by auto
    have "?es ! n \<in> set ?es" using n(1) by (rule nth_mem)
    then have e: "?es ! n = e" using set_rankedEntries [OF assms(2) vis] n(2) Some by simp
    have rows: "rows = rankData E st ?es (window n (Length op) ?es) (OrderCalculation op)"
      using assms(4) pos
      by (simp add: GetNearbyRankingsAndCountByCategoryAndRankingOrderParam_def Let_def)
    let ?row = "rank_row st (ranks_of E ?es (OrderCalculation op)) e"
    have "e \<in> set (window n (Length op) ?es)" using window_contains [OF n(1)] e by metis
    then have mem: "?row \<in> set rows" by (simp add: rows rankData_def)
    have rank: "ranks_of E ?es (OrderCalculation op) pid = Some (rank_at E st c ob (OrderCalculation op) n)"
      using ranks_of_board [OF assms(2) vis assms(3) n(1), of "OrderCalculation op"] n(2) by simp
    have "e_PID e = pid" using n(2) e by simp
    then have "rd_PrincipalID ?row = pid \<and> rd_Score ?row = e_Score e \<and>
        rd_Order ?row = rank_at E st c ob (OrderCalculation op) n"
      by (simp add: rank_row_def rank)
    moreover have "length rows \<le> max 1 (unat (Length op))" by (auto simp: rows window_eq le_max_iff_disj)
    ultimately show ?thesis using Some mem e by (auto simp: rank_at_def)
  qed
qed

theorem nearby_shows_caller_witness:
  "\<exists>row \<in> set (fst (GetNearbyRankingsAndCountByCategoryAndRankingOrderParam example_ranking_env
      example_ranking 7 3 example_op)). rd_Score row = 50"
proof -
  obtain rows cnt where r: "GetNearbyRankingsAndCountByCategoryAndRankingOrderParam example_ranking_env
      example_ranking 7 3 example_op = (rows, cnt)" by fastforce
  have "board example_ranking 3 7 = Some (example_entry 7 50)"
    by (simp add: board_def example_ranking_def)
  with nearby_shows_caller [OF example_orders example_ranking_ok example_uniform r]
  show ?thesis using r by (auto simp: example_entry_def)
qed

text \<open>Both friends' boards show the caller and its friends only, with ranks among them. With the friend
  list this server has, which is empty, they are not empty: they show the caller's own entry, and it
  is always first.\<close>

theorem friends_boards:
  assumes "env_orders E" and "ranking_ok st"
    and "GetFriendsRankingsAndCountByCategoryAndRankingOrderParam E st pid c op = (rows, cnt)"
  shows "rd_PrincipalID ` set rows \<subseteq> friendSet E pid \<and>
    GetNearbyFriendsRankingsAndCountByCategoryAndRankingOrderParam E st pid c op = (rows, cnt) \<and>
    (rankingFriends E = Some GetUserFriendPIDs \<and> Offset op = 0 \<longrightarrow>
       (case board st c pid of
          None \<Rightarrow> rows = [] \<and> cnt = 0
        | Some e \<Rightarrow> cnt = 1 \<and> map rd_PrincipalID rows = [pid] \<and> map rd_Order rows = [1]))"
proof -
  let ?es = "filterEntries (rankedEntries E st c) (friendSet E pid)"
  have vis: "visits_all (entryOrder E)" using assms(1) by (simp add: env_orders_def)
  have rows: "rows = rankData E st ?es (slice ?es op) (OrderCalculation op)"
    and cnt: "cnt = of_nat (length ?es)"
    using assms(3) by (simp_all add: GetFriendsRankingsAndCountByCategoryAndRankingOrderParam_def Let_def)
  have "rd_PrincipalID ` set rows \<subseteq> e_PID ` set ?es"
    using set_take_subset set_drop_subset
    by (fastforce simp: rows rankData_def rank_row_def slice_eq dest!: in_set_takeD in_set_dropD)
  then have "rd_PrincipalID ` set rows \<subseteq> friendSet E pid" by (auto simp: filterEntries_def)
  moreover have "GetNearbyFriendsRankingsAndCountByCategoryAndRankingOrderParam E st pid c op = (rows, cnt)"
    using assms(3) by (simp add: GetNearbyFriendsRankingsAndCountByCategoryAndRankingOrderParam_def
        GetFriendsRankingsAndCountByCategoryAndRankingOrderParam_def)
  moreover have "case board st c pid of
      None \<Rightarrow> rows = [] \<and> cnt = 0
    | Some e \<Rightarrow> cnt = 1 \<and> map rd_PrincipalID rows = [pid] \<and> map rd_Order rows = [1]"
    if alone: "rankingFriends E = Some GetUserFriendPIDs" "Offset op = 0"
  proof -
    have friends: "friendSet E pid = {pid}" using alone(1) by (simp add: friendSet_def GetUserFriendPIDs_def)
    have set: "set ?es = {e. board st c pid = Some e}"
      using set_rankedEntries [OF assms(2) vis, of c] ranking_ok_board(2) [OF assms(2), of c pid]
      by (auto simp: filterEntries_def friends)
    have dist: "distinct ?es"
      using distinct_rankedEntries [OF assms(2) vis, of c]
      by (simp add: filterEntries_def distinct_map)
    show ?thesis
    proof (cases "board st c pid")
      case None
      then have "?es = []" using set by auto
      then show ?thesis using None rows cnt by (simp add: rankData_def slice_def)
    next
      case (Some e)
      then have es: "?es = [e]" using set dist by (cases ?es) (auto simp: subset_singleton_iff)
      have "e_PID e = pid" using ranking_ok_board(2) [OF assms(2) Some] by simp
      moreover have "slice [e] op = [e]" using alone(2) by (auto simp: slice_eq unat_eq_0 unat_gt_0 Suc_le_eq)
      ultimately show ?thesis using Some rows cnt
        by (simp add: es rankData_def rank_row_def ranks_of_def Let_def)
    qed
  qed
  ultimately show ?thesis by blast
qed

theorem friends_boards_witness:
  "\<exists>rows. map rd_PrincipalID rows = [7 :: u64] \<and> map rd_Order rows = [1] \<and>
     GetFriendsRankingsAndCountByCategoryAndRankingOrderParam example_ranking_env example_ranking 7 3
       example_op = (rows, 1)"
proof -
  obtain rows cnt where r: "GetFriendsRankingsAndCountByCategoryAndRankingOrderParam example_ranking_env
      example_ranking 7 3 example_op = (rows, cnt)" by fastforce
  have "rankingFriends example_ranking_env = Some GetUserFriendPIDs" "Offset example_op = 0"
    "board example_ranking 3 7 = Some (example_entry 7 50)"
    by (simp_all add: example_ranking_env_def example_op_def board_def example_ranking_def)
  with friends_boards [OF example_orders example_ranking_ok r] show ?thesis using r by auto
qed

text \<open>The projected rank is kept: a score uploaded by a player who is not yet on a board gets, under
  standard ranking, exactly the rank \<^verbatim>\<open>ApproximateOrder\<close> announced before.\<close>

theorem ApproximateOrder_projects:
  assumes "env_orders (rk_env C)" and "ranking_ok st" and "uniform st (sd_Category sd) (sd_OrderBy sd)"
    and "board st (sd_Category sd) pid = None"
    and "OrderCalculation op = OrderCalculation113 (rankingProto (rk_env C))"
  shows "map rd_Order (fst (GetOwnRankingByCategoryAndRankingOrderParam (rk_env C)
      (fst (fst (InsertRankingByPIDAndRankingScoreData C (st, fs) pid sd u))) pid (sd_Category sd) op)) =
    [ApproximateOrder (rk_env C) st (sd_Category sd) (sd_Score sd)]"
proof -
  let ?E = "rk_env C" and ?c = "sd_Category sd" and ?ob = "sd_OrderBy sd"
  let ?new = "candidate pid sd u (rk_now C)"
  let ?st = "put_entry ?new pid ?c (with_category ?c st)"
  have vis: "visits_all (entryOrder ?E)" using assms(1) by (simp add: env_orders_def)
  have st': "fst (fst (InsertRankingByPIDAndRankingScoreData C (st, fs) pid sd u)) = ?st"
    using assms(4) by (simp add: InsertRankingByPIDAndRankingScoreData_def Let_def saved_fst)
  have ok: "ranking_ok ?st"
    using assms(2) by (auto intro!: put_entry_ok with_category_ok simp: candidate_def)
  have uni: "uniform ?st ?c ?ob"
    using assms(3) by (auto simp: uniform_def board_put_entry candidate_def split: if_splits)
  have "beaten_by (rankingProto ?E) ?st ?c ?ob (sd_Score sd) =
      beaten_by (rankingProto ?E) st ?c ?ob (sd_Score sd)"
    using assms(4) better.irreflexive by (auto simp: beaten_by_def board_put_entry candidate_def)
  then have approx: "ApproximateOrder ?E st ?c (sd_Score sd) =
      of_nat (card (beaten_by (rankingProto ?E) ?st ?c ?ob (sd_Score sd))) + 1"
    by (simp add: ApproximateOrder_eq [OF assms(2) vis assms(3)])
  let ?es = "rankedEntries ?E ?st ?c"
  have new: "?new \<in> set ?es"
    by (simp add: set_rankedEntries [OF ok vis] board_put_entry) (simp add: candidate_def)
  then obtain i where i: "i < length ?es" "?es ! i = ?new" by (metis in_set_conv_nth)
  have "List.find (\<lambda>e. e_PID e = pid) ?es = Some ?new"
  proof (rule find_unique [OF new])
    show "e_PID ?new = pid" by (simp add: candidate_def)
    show "e = ?new" if "e \<in> set ?es" "e_PID e = pid" for e
      using that by (simp add: set_rankedEntries [OF ok vis] board_put_entry)
  qed
  moreover have "ranks_of ?E ?es (OrderCalculation op) pid = Some (rank_at ?E ?st ?c ?ob (OrderCalculation op) i)"
    using ranks_of_board [OF ok vis uni i(1), of "OrderCalculation op"] i(2) by (simp add: candidate_def)
  ultimately show ?thesis
    using i(2) assms(5)
    by (simp add: st' GetOwnRankingByCategoryAndRankingOrderParam_def Let_def rankData_def rank_row_def
        candidate_def rank_at_def approx)
qed

theorem ApproximateOrder_projects_witness:
  "map rd_Order (fst (GetOwnRankingByCategoryAndRankingOrderParam example_ranking_env
      (fst (fst (InsertRankingByPIDAndRankingScoreData example_ctx (example_ranking, Map.empty) 9 (lap 45) 0)))
      9 3 example_op)) = [ApproximateOrder example_ranking_env example_ranking 3 45]"
proof -
  have "env_orders (rk_env example_ctx)" using example_orders by (simp add: example_ctx_def)
  moreover have "uniform example_ranking (sd_Category (lap 45)) (sd_OrderBy (lap 45))"
    using example_uniform by (simp add: lap_def)
  moreover have "board example_ranking (sd_Category (lap 45)) 9 = None"
    "OrderCalculation example_op = OrderCalculation113 (rankingProto (rk_env example_ctx))"
    by (simp_all add: lap_def board_def example_ranking_def example_op_def example_ctx_def
        example_ranking_env_def)
  ultimately show ?thesis
    using ApproximateOrder_projects [of example_ctx example_ranking "lap 45" 9 example_op Map.empty 0]
      example_ranking_ok
    by (simp add: lap_def example_ctx_def)
qed

subsection \<open>The file\<close>

text \<open>C19: a store that was saved without an error is read back unchanged by the next start, in whatever
  orders the two ranges over their maps: every score, every blob and every empty category.\<close>

theorem saved_store_loads_back:
  assumes "env_orders E" and "env_orders E'" and "ranking_ok st" and "read_error F' = None"
    and "save E F (ranking_path dataDir) st fs = (fs', None)"
  shows "NewStore_ranking E' F' fs' dataDir = Loaded st"
proof -
  have "fs' (ranking_path dataDir) = Some (contents_of E st)"
    using assms(5) by (auto simp: save_def Let_def split: option.splits prod.splits)
  then show ?thesis
    unfolding NewStore_ranking_def by (rule load_contents [OF assms(1-4)])
qed

theorem saved_store_loads_back_witness:
  "\<exists>fs'. save example_ranking_env example_io (ranking_path ''data'') example_ranking Map.empty = (fs', None) \<and>
     NewStore_ranking example_ranking_env example_io fs' ''data'' = Loaded example_ranking"
proof -
  obtain fs' where s: "save example_ranking_env example_io (ranking_path ''data'') example_ranking
      Map.empty = (fs', None)"
    by (simp add: save_def example_io_def)
  have "read_error example_io = None" by (simp add: example_io_def)
  from saved_store_loads_back [OF example_orders example_orders example_ranking_ok this s] s
  show ?thesis by blast
qed

text \<open>The next start reads back what is in memory.\<close>

definition durable :: "string \<Rightarrow> ranking_state \<Rightarrow> bool" where
  "durable path s \<longleftrightarrow>
     (\<forall>E F. env_orders E \<and> read_error F = None \<longrightarrow> load E F (snd s) path = Loaded (fst s))"



text \<open>C4: a crash at any point of a save never loses the board: the next start finds either the store
  before the change or the one after it, complete.\<close>

theorem crash_keeps_old_or_new:
  assumes "env_orders E" and "ranking_ok st1" and "durable path (st0, fs)"
    and "(save_step path (contents_of E st1))\<^sup>*\<^sup>* (Started, fs) (pc, fs')" and "read_error F = None"
  shows "load E F fs' path \<in> {Loaded st0, Loaded st1}"
proof -
  consider "fs' path = fs path" | "fs' path = Some (contents_of E st1)"
    using crash_old_or_new [OF assms(4)] by blast
  then show ?thesis
  proof cases
    case 1
    have "load E F fs path = Loaded st0" using assms(1,3,5) by (simp add: durable_def)
    then show ?thesis using 1 assms(5) by (simp add: load_def)
  next
    case 2
    then show ?thesis using load_contents [OF assms(1,1,2,5)] by simp
  qed
qed

theorem crash_keeps_old_or_new_witness:
  "load example_ranking_env example_io [''r.tmp'' \<mapsto> []] ''r'' \<in> {Loaded NewRankingStore, Loaded example_ranking}"
proof -
  have "durable ''r'' (NewRankingStore, Map.empty)" by (simp add: durable_def load_def)
  moreover have "(save_step ''r'' (contents_of example_ranking_env example_ranking))\<^sup>*\<^sup>*
      (Started, Map.empty) (Writing 0, [''r.tmp'' \<mapsto> []])"
    using truncated [of "''r''" _ Map.empty] by (simp add: r_into_rtranclp)
  moreover have "read_error example_io = None" by (simp add: example_io_def)
  ultimately show ?thesis
    using crash_keeps_old_or_new [OF example_orders example_ranking_ok] by blast
qed

text \<open>A save that fails is reported, and the change is served from memory all the same: the new
  player is on the board although its upload was answered with an error.\<close>

theorem failed_save_changes_memory:
  assumes "board st (sd_Category sd) pid = None"
    and "mkdir_error (rk_io C) \<noteq> None \<or> write_error (rk_io C) \<noteq> None \<or> rename_error (rk_io C) \<noteq> None"
  shows "\<exists>s'. uploadScore C (st, fs) pid callID None sd u =
      (s', Inl (NewError Ranking_Unknown change_error)) \<and>
    board (fst s') (sd_Category sd) pid = Some (candidate pid sd u (rk_now C)) \<and>
    snd s' (rk_path C) = fs (rk_path C)"
proof -
  let ?r = "InsertRankingByPIDAndRankingScoreData C (st, fs) pid sd u"
  let ?st = "put_entry (candidate pid sd u (rk_now C)) pid (sd_Category sd) (with_category (sd_Category sd) st)"
  have r: "?r = saved C ?st fs"
    using assms(1) by (simp add: InsertRankingByPIDAndRankingScoreData_def Let_def)
  have "snd (saved C ?st fs) \<noteq> None \<and> snd (fst (saved C ?st fs)) (rk_path C) = fs (rk_path C)"
    using assms(2) by (auto simp: saved_def save_def Let_def split: option.splits prod.splits)
  then show ?thesis
    using Insert_board [of C st fs pid sd u "sd_Category sd"] assms(1)
    by (cases ?r) (auto simp: uploadScore_def r)
qed

theorem failed_save_changes_memory_witness:
  "\<exists>s'. uploadScore (example_ctx\<lparr>rk_io := example_io\<lparr>rename_error := Some ''busy''\<rparr>\<rparr>)
      (NewRankingStore, Map.empty) 7 0 None (lap 50) 0 = (s', Inl (NewError Ranking_Unknown change_error)) \<and>
    board (fst s') 3 7 \<noteq> None"
proof -
  have "board NewRankingStore (sd_Category (lap 50)) 7 = None"
    by (simp add: board_def NewRankingStore_def)
  from failed_save_changes_memory [OF this,
      of "example_ctx\<lparr>rk_io := example_io\<lparr>rename_error := Some ''busy''\<rparr>\<rparr>" Map.empty 0 0]
  show ?thesis by (auto simp: lap_def)
qed

end
