(* ===== verification/Boot.thy ===== *)
theory Boot
  imports Startup AccountTheorems RankingTheorems
begin

text \<open>
  The start of the process: \<^verbatim>\<open>main\<close> of \<^verbatim>\<open>src/main.go\<close> up to the goroutines of the two servers, and how the
  servers are configured (\<^verbatim>\<open>src/nexserver/authentication.go\<close> and \<^verbatim>\<open>secure.go\<close>). The environment, the
  random bytes, the file system and the operating system's answers are arguments; an exit carries its
  reason. The \<^verbatim>\<open>.env\<close> file only changes the environment and is part of that argument.
\<close>

subsection \<open>Configuring the servers\<close>

definition sessionKeyLength :: nat where "sessionKeyLength = 32"

definition kerberosTicketVersion :: nat where "kerberosTicketVersion = 0"

record server_config =
  srv_LibraryVersion :: "nat \<times> nat \<times> nat"
  srv_AccessKey :: string
  srv_SessionKeyLength :: nat
  srv_KerberosTicketVersion :: nat
  srv_EndpointStreamID :: u8
  srv_IsSecureEndPoint :: bool
  srv_ServerAccount :: nex_account
  srv_Port :: int

definition authentication_config :: "config \<Rightarrow> accounts \<Rightarrow> server_config" where
  "authentication_config c g =
     \<lparr>srv_LibraryVersion = NEXVersion, srv_AccessKey = AccessKey c,
      srv_SessionKeyLength = sessionKeyLength, srv_KerberosTicketVersion = kerberosTicketVersion,
      srv_EndpointStreamID = 1, srv_IsSecureEndPoint = False,
      srv_ServerAccount = AuthenticationServerAccount g, srv_Port = AuthenticationServerPort c\<rparr>"

definition secure_config :: "config \<Rightarrow> accounts \<Rightarrow> server_config" where
  "secure_config c g =
     \<lparr>srv_LibraryVersion = NEXVersion, srv_AccessKey = AccessKey c,
      srv_SessionKeyLength = sessionKeyLength, srv_KerberosTicketVersion = kerberosTicketVersion,
      srv_EndpointStreamID = 1, srv_IsSecureEndPoint = True,
      srv_ServerAccount = SecureServerAccount g, srv_Port = SecureServerPort c\<rparr>"

subsection \<open>main\<close>

datatype exit_reason = BadConfig config_error | BadAccounts accounts_error | BadRanking load_result

text \<open>A running process has its settings, its accounts and its leaderboards, which are None where the file
  held null entries.\<close>

datatype process = Exit exit_reason | Running config accounts "ranking_store option"

definition main_boot ::
  "account_env \<Rightarrow> ranking_env \<Rightarrow> io \<Rightarrow> io \<Rightarrow> files \<Rightarrow> bytes option \<Rightarrow> environment \<Rightarrow> process" where
  "main_boot A E FA FR fs rand env =
     (case validateConfig rand (LoadConfig env) of
        Inl err \<Rightarrow> Exit (BadConfig err)
      | Inr settings \<Rightarrow>
          (case LoadAccounts A FA fs (InitAccounts settings) of
             (_, Some err) \<Rightarrow> Exit (BadAccounts err)
           | (g, None) \<Rightarrow>
               (case NewStore_ranking E FR fs (DataDir settings) of
                  Loaded st \<Rightarrow> Running settings g (Some st)
                | LoadedNil \<Rightarrow> Running settings g None
                | r \<Rightarrow> Exit (BadRanking r))))"

lemma main_boot_Running:
  assumes "main_boot A E FA FR fs rand env = Running c g r"
  shows "validateConfig rand (LoadConfig env) = Inr c"
    and "LoadAccounts A FA fs (InitAccounts c) = (g, None)"
    and "r = None \<and> NewStore_ranking E FR fs (DataDir c) = LoadedNil \<or>
      (\<exists>st. r = Some st \<and> NewStore_ranking E FR fs (DataDir c) = Loaded st)"
  using assms by (auto simp: main_boot_def split: sum.splits prod.splits option.splits load_result.splits)

lemma LoadAccounts_Settings:
  "LoadAccounts A F fs g = (g', err) \<Longrightarrow> Settings g' = Settings g"
  by (auto simp: LoadAccounts_def Let_def split: option.splits prod.splits if_splits)

lemma Running_accounts_ok: "main_boot A E FA FR fs rand env = Running c g r \<Longrightarrow> accounts_ok g"
  using main_boot_Running(2) [of A E FA FR fs rand env c g r] LoadAccounts_ok [of A FA fs c] by simp

text \<open>C24: a process that gets past its start has usable settings: two different ports in range, an access
  key of eight characters, a host, a secret if unknown accounts may log in. Its two servers share
  everything a ticket depends on, under the two special accounts; and if the leaderboard file holds
  what was last acknowledged, that is what it serves.\<close>

theorem running_process_is_sound:
  assumes "main_boot A E FA FR fs rand env = Running c g r"
    and "\<And>bs. rand = Some bs \<Longrightarrow> length bs = 32" and "env_orders E" and "read_error FR = None"
    and "a = authentication_config c g" and "s = secure_config c g"
  shows "srv_Port a \<in> {1..65535} \<and> srv_Port s \<in> {1..65535} \<and> srv_Port a \<noteq> srv_Port s \<and>
    length (AccessKey c) = 8 \<and> SecureServerHost c \<noteq> [] \<and>
    (AllowUnknownAccounts c \<longrightarrow> AccountSecret c \<noteq> []) \<and>
    srv_LibraryVersion a = srv_LibraryVersion s \<and> srv_AccessKey a = srv_AccessKey s \<and>
    srv_SessionKeyLength a = srv_SessionKeyLength s \<and>
    srv_KerberosTicketVersion a = srv_KerberosTicketVersion s \<and>
    AccountDetailsByPID A g (acc_PID (srv_ServerAccount a)) = Inr (srv_ServerAccount a) \<and>
    AccountDetailsByPID A g (acc_PID (srv_ServerAccount s)) = Inr (srv_ServerAccount s) \<and>
    (\<forall>st. durable (ranking_path (DataDir c)) (st, fs) \<longrightarrow> r = Some st)"
proof -
  note boot = main_boot_Running [OF assms(1)]
  have "accounts_ok g" using Running_accounts_ok [OF assms(1)] .
  then have "AccountDetailsByPID A g (acc_PID (AuthenticationServerAccount g)) = Inr (AuthenticationServerAccount g)"
    "AccountDetailsByPID A g (acc_PID (SecureServerAccount g)) = Inr (SecureServerAccount g)"
    by (auto simp: AccountDetailsByPID_def accounts_ok_def NewAccount_def)
  moreover have "r = Some st" if "durable (ranking_path (DataDir c)) (st, fs)" for st
  proof -
    have "NewStore_ranking E FR fs (DataDir c) = Loaded st"
      using that assms(3,4) by (simp add: durable_def NewStore_ranking_def)
    then show ?thesis using boot(3) by auto
  qed
  ultimately show ?thesis
    using validateConfig_sound [OF boot(1) assms(2)] unfolding assms(5,6)
    by (simp add: authentication_config_def secure_config_def)
qed

definition default_config :: config where
  "default_config = \<lparr>AuthenticationServerPort = 26500, SecureServerPort = 26501,
     SecureServerHost = ''127.0.0.1'', AccessKey = DefaultAccessKey, KerberosPassword = ''fast-racing-neo'',
     AccountsFile = [], AccountSecret = [], AllowUnknownAccounts = True, DataDir = ''data'',
     cfg_AllowPublicMatchmaking = True, LogPackets = False, StructureHeader = ''on'', StatsPort = 26502\<rparr>"

lemma LoadConfig_default: "LoadConfig (\<lambda>_. []) = default_config"
proof -
  have "ToLower ''on'' = ''on''" by code_simp
  moreover have "TrimSpace [] = []" by code_simp
  ultimately show ?thesis
    by (simp add: LoadConfig_def default_config_def envString_def envInt_def envBool_def)
qed

definition example_process :: process where
  "example_process = main_boot example_accounts_env example_ranking_env example_io example_io Map.empty
     (Some (replicate 32 7)) (\<lambda>_. [])"

lemma example_boot: "\<exists>c g. example_process = Running c g (Some NewRankingStore)"
  by (simp add: example_process_def main_boot_def LoadConfig_default validateConfig_def default_config_def
      DefaultAccessKey_def LoadAccounts_def NewStore_ranking_def load_def example_io_def InitAccounts_def)

theorem running_process_is_sound_witness:
  "\<exists>c g r. example_process = Running c g r \<and> length (AccessKey c) = 8 \<and>
     srv_AccessKey (authentication_config c g) = srv_AccessKey (secure_config c g)"
proof -
  obtain c g r where run: "example_process = Running c g r" using example_boot by blast
  have "read_error example_io = None" by (simp add: example_io_def)
  from running_process_is_sound [OF run [unfolded example_process_def] _ example_orders this refl refl] run
  show ?thesis by auto
qed

end
