(* ===== verification/Stations.thy ===== *)
theory Stations
  imports Endpoint Accounts
begin

text \<open>
  The addresses consoles publish for each other: the Secure Connection handlers of
  \<^verbatim>\<open>src/nexserver/handlers_secure_connection.go\<close> and of common-go, the NAT traversal handlers of
  \<^verbatim>\<open>handlers_misc.go\<close> and common-go, the login check and the redirection URL of
  \<^verbatim>\<open>protocols_authentication.go\<close>. A handler that changes its sender's connection returns it changed;
  \<^verbatim>\<open>handle_station\<close> puts it back at the sender's place in the endpoint. The order in which a
  parameter map is written is the field of \<^verbatim>\<open>station_env\<close>.
\<close>

record station_env =
  paramOrder :: "string set \<Rightarrow> string list"

definition url_of :: "station_env \<Rightarrow> station_url \<Rightarrow> string" where
  "url_of E s = URL (paramOrder E (dom (standardParams s))) (paramOrder E (dom (customParams s))) s"

definition copy_of :: "station_env \<Rightarrow> station_url \<Rightarrow> station_url" where
  "copy_of E s = CopyStationURL (paramOrder E (dom (standardParams s)))
     (paramOrder E (dom (customParams s))) s"

definition PortNumber :: "station_url \<Rightarrow> u16 option" where
  "PortNumber s = map_option of_nat (numberParamValue s ''port'' 16)"

definition NATMapping :: "station_url \<Rightarrow> u8 option" where
  "NATMapping s = uint8ParamValue s ''natm''"

definition NATFiltering :: "station_url \<Rightarrow> u8 option" where
  "NATFiltering s = uint8ParamValue s ''natf''"

definition SetNATMapping :: "u8 \<Rightarrow> station_url \<Rightarrow> station_url" where
  "SetNATMapping m = SetParamValue ''natm'' (FormatUint (unat m))"

definition SetNATFiltering :: "u8 \<Rightarrow> station_url \<Rightarrow> station_url" where
  "SetNATFiltering f = SetParamValue ''natf'' (FormatUint (unat f))"

definition UnknownNAT :: u8 where "UnknownNAT = 0"

subsection \<open>Handlers of this server\<close>

definition observedAddress :: "connection \<Rightarrow> string \<times> u16" where
  "observedAddress c =
     (case conn_Address c of
        UDPAddr ip port \<Rightarrow> (ip, of_int port)
      | TCPAddr ip port \<Rightarrow> (ip, of_int port)
      | OtherAddr \<Rightarrow> ([], 0))"

type_synonym station_reply = "nex_error + unit response"

abbreviation SCP :: string where "SCP \<equiv> ''secureconnection.ProtocolID''"

abbreviation NATP :: string where "NATP \<equiv> ''nattraversal.ProtocolID''"

definition find_target :: "endpoint \<Rightarrow> u32 \<Rightarrow> u64 \<Rightarrow> connection option" where
  "find_target ep cid pid =
     (case FindConnectionByID ep cid of Some c \<Rightarrow> Some c | None \<Rightarrow> FindConnectionByPID ep pid)"

definition requestConnectionData ::
  "station_env \<Rightarrow> endpoint \<Rightarrow> u32 \<Rightarrow> string option \<Rightarrow> u32 \<Rightarrow> u64 \<Rightarrow> station_reply" where
  "requestConnectionData E ep callID err cidTarget pidTarget =
     (case err of
        Some e \<Rightarrow> Inl (NewError Core_InvalidArgument e)
      | None \<Rightarrow> Inr (respond SCP ''MethodRequestConnectionData'' callID
          (case find_target ep cidTarget pidTarget of
             None \<Rightarrow> [WBool False, WU32 0]
           | Some target \<Rightarrow>
               [WBool True, WU32 (of_nat (length (conn_StationURLs target)))] @
               concat (map (\<lambda>u. [WString (url_of E u), WU32 (conn_ID target)]) (conn_StationURLs target)))))"

definition testConnectivity :: "u32 \<Rightarrow> string option \<Rightarrow> station_reply" where
  "testConnectivity callID err =
     (case err of
        Some e \<Rightarrow> Inl (NewError Core_InvalidArgument e)
      | None \<Rightarrow> Inr (respondEmpty SCP ''MethodTestConnectivity'' callID))"

definition corrected :: "station_env \<Rightarrow> connection \<Rightarrow> station_url \<Rightarrow> station_url" where
  "corrected E c u =
     (let station = SetRVConnectionID (conn_ID c) (SetPrincipalID (conn_PID c) (copy_of E u)) in
      if IsPublic station then
        let (address, port) = observedAddress c in
        if address \<noteq> [] then SetPortNumber port (SetAddress address station) else station
      else station)"

definition updateURLs ::
  "station_env \<Rightarrow> connection \<Rightarrow> u32 \<Rightarrow> string option \<Rightarrow> station_url list \<Rightarrow> connection \<times> station_reply" where
  "updateURLs E c callID err vecMyURLs =
     (case err of
        Some e \<Rightarrow> (c, Inl (NewError Core_InvalidArgument e))
      | None \<Rightarrow> (c\<lparr>conn_StationURLs := map (corrected E c) vecMyURLs\<rparr>,
                 Inr (respondEmpty SCP ''MethodUpdateURLs'' callID)))"

text \<open>Reports are logged: the record function has no effect and no error.\<close>

definition createReportRecord :: "u64 \<Rightarrow> u32 \<Rightarrow> bytes \<Rightarrow> string option" where
  "createReportRecord pid reportID reportData = None"

fun send_probes :: "endpoint \<Rightarrow> 'p rmc_request \<Rightarrow> station_url list \<Rightarrow> 'p data_packet list" where
  "send_probes ep req [] = []"
| "send_probes ep req (target # targets) =
     (case RVConnectionID target of
        None \<Rightarrow> send_probes ep req targets
      | Some connectionID \<Rightarrow>
          (case FindConnectionByID ep connectionID of
             None \<Rightarrow> send_probes ep req targets
           | Some peer \<Rightarrow>
               (case data_packet_for ep peer req of
                  None \<Rightarrow> send_probes ep req targets
                | Some probe \<Rightarrow> probe # send_probes ep req targets)))"

definition stationToProbe :: "station_env \<Rightarrow> connection \<Rightarrow> station_url" where
  "stationToProbe E c =
     (case List.find IsPublic (conn_StationURLs c) of
        None \<Rightarrow> NewStationURL []
      | Some u \<Rightarrow> copy_of E u)"

definition requestProbeInitiation ::
  "station_env \<Rightarrow> endpoint \<Rightarrow> connection \<Rightarrow> u32 \<Rightarrow> string option \<Rightarrow> station_url list \<Rightarrow>
   station_reply \<times> string data_packet list" where
  "requestProbeInitiation E ep c callID err urlTargetList =
     (case err of
        Some e \<Rightarrow> (Inl (NewError Core_InvalidArgument e), [])
      | None \<Rightarrow>
          (Inr (respondEmpty NATP ''MethodRequestProbeInitiation'' callID),
           send_probes ep
             \<lparr>req_ProtocolID = NATP, req_MethodID = ''MethodInitiateProbe'',
              req_CallID = 0xFFFF0000 + callID, req_Parameters = url_of E (stationToProbe E c)\<rparr>
             urlTargetList))"

subsection \<open>The login check and the redirection\<close>

text \<open>A decoded data holder: None is a nil object, Some None one whose identifier is no string.\<close>

type_synonym login_data = "string option option"

definition validateLoginData :: "login_data \<Rightarrow> nex_error option" where
  "validateLoginData loginData =
     (case loginData of
        None \<Rightarrow> Some (NewError Authentication_ValidationFailed ''Missing login data'')
      | Some None \<Rightarrow> Some (NewError Authentication_ValidationFailed ''Login data has no type name'')
      | Some (Some loginDataType) \<Rightarrow>
          (if loginDataType \<in> {''NintendoLoginData'', ''AuthenticationInfo'', ''AccountExtraInfo''} then None
           else Some (NewError Authentication_ValidationFailed ''Unsupported login data type'')))"

definition secureStationURL :: "accounts \<Rightarrow> station_url" where
  "secureStationURL g =
     SetType StationURLFlagPublic (SetStreamType StreamTypeRVSecure (SetStreamID 1
       (SetPrincipalID (acc_PID (SecureServerAccount g)) (SetConnectionID 1
         (SetPortNumber (of_int (SecureServerPort (Settings g)))
           (SetAddress (SecureServerHost (Settings g))
             (SetURLType StationURLPRUDPS (NewStationURL []))))))))"

subsection \<open>Handlers of common-go\<close>

definition NewQResultSuccess :: "u32 \<Rightarrow> u32" where
  "NewQResultSuccess code = code AND NOT errorMask"

definition NewQResultError :: "u32 \<Rightarrow> u32" where
  "NewQResultError code = code OR errorMask"

text \<open>The search for a local and a public station among those a console registers.\<close>

fun find_stations ::
  "station_env \<Rightarrow> station_url list \<Rightarrow> station_url option \<Rightarrow> station_url option \<Rightarrow>
   station_url option \<times> station_url option" where
  "find_stations E [] localStation publicStation = (localStation, publicStation)"
| "find_stations E (u # us) localStation publicStation =
     (case (NATFiltering u, NATMapping u) of
        (Some natf, Some natm) \<Rightarrow>
          (let l1 = (if localStation = None \<and> \<not> IsPublic u then Some (copy_of E u) else localStation);
               l2 = (if l1 = None \<and> natf = UnknownNAT \<and> natm = UnknownNAT then Some (copy_of E u) else l1);
               p1 = (if publicStation = None \<and> IsPublic u then Some (copy_of E u) else publicStation)
           in find_stations E us l2 p1)
      | _ \<Rightarrow> find_stations E us localStation publicStation)"

definition reflected :: "station_env \<Rightarrow> connection \<Rightarrow> station_url \<Rightarrow> station_url" where
  "reflected E c localStation =
     (let (address, port) = observedAddress c in
      SetType (StationURLFlagPublic OR StationURLFlagBehindNAT) (SetNATMapping UnknownNAT
        (SetNATFiltering UnknownNAT (SetPortNumber port (SetAddress address
          (copy_of E localStation))))))"

definition identified :: "connection \<Rightarrow> station_url \<Rightarrow> station_url" where
  "identified c s = SetRVConnectionID (conn_ID c) (SetPrincipalID (conn_PID c) s)"

definition register_stations ::
  "station_env \<Rightarrow> connection \<Rightarrow> u32 \<Rightarrow> string \<Rightarrow> station_url list \<Rightarrow> connection \<times> station_reply" where
  "register_stations E c callID name vecMyURLs =
     (case find_stations E vecMyURLs None None of
        (None, _) \<Rightarrow> (c, Inl (NewError Core_InvalidArgument ''change_error''))
      | (Some localStation, found) \<Rightarrow>
          (let publicStation = (case found of Some p \<Rightarrow> p | None \<Rightarrow> reflected E c localStation);
               l = identified c localStation; p = identified c publicStation
           in (c\<lparr>conn_StationURLs := conn_StationURLs c @ [l, p]\<rparr>,
               Inr (respond SCP name callID
                      [WU32 (NewQResultSuccess Core_Unknown), WU32 (conn_ID c), WString (url_of E p)]))))"

definition refused :: "u32 \<Rightarrow> string \<Rightarrow> u32 \<Rightarrow> station_reply" where
  "refused callID name code = Inr (respond SCP name callID [WU32 (NewQResultError code), WU32 0, WString []])"

definition register ::
  "station_env \<Rightarrow> bool \<Rightarrow> connection \<Rightarrow> u32 \<Rightarrow> string option \<Rightarrow> station_url list \<Rightarrow>
   connection \<times> station_reply" where
  "register E allowInsecureRegisterMethod c callID err vecMyURLs =
     (case err of
        Some e \<Rightarrow> (c, Inl (NewError Core_InvalidArgument e))
      | None \<Rightarrow>
          (if \<not> allowInsecureRegisterMethod
           then (c, refused callID ''MethodRegister'' Authentication_ValidationFailed)
           else register_stations E c callID ''MethodRegister'' vecMyURLs))"

definition registerEx ::
  "station_env \<Rightarrow> connection \<Rightarrow> u32 \<Rightarrow> string option \<Rightarrow> station_url list \<Rightarrow> login_data \<Rightarrow>
   connection \<times> station_reply" where
  "registerEx E c callID err vecMyURLs hCustomData =
     (case err of
        Some e \<Rightarrow> (c, Inl (NewError Core_InvalidArgument e))
      | None \<Rightarrow>
          (case validateLoginData hCustomData of
             Some errorCode \<Rightarrow> (c, refused callID ''MethodRegisterEx'' (ResultCode errorCode))
           | None \<Rightarrow> register_stations E c callID ''MethodRegisterEx'' vecMyURLs))"

definition requestURLs ::
  "station_env \<Rightarrow> endpoint \<Rightarrow> u32 \<Rightarrow> string option \<Rightarrow> u32 \<Rightarrow> u64 \<Rightarrow> station_reply" where
  "requestURLs E ep callID err cidTarget pidTarget =
     (case err of
        Some e \<Rightarrow> Inl (NewError Core_InvalidArgument e)
      | None \<Rightarrow>
          (case find_target ep cidTarget pidTarget of
             None \<Rightarrow> Inl (NewError Core_InvalidArgument ''change_error'')
           | Some target \<Rightarrow> Inr (respond SCP ''MethodRequestURLs'' callID
               [WBool True, WList (map (\<lambda>u. WString (url_of E u)) (conn_StationURLs target))])))"

definition same_place :: "station_url \<Rightarrow> station_url \<Rightarrow> bool" where
  "same_place station target \<longleftrightarrow>
     Address station \<noteq> None \<and> PortNumber station \<noteq> None \<and>
     Address station = Address target \<and> PortNumber station = PortNumber target"

definition replaceURL ::
  "station_env \<Rightarrow> connection \<Rightarrow> u32 \<Rightarrow> string option \<Rightarrow> station_url \<Rightarrow> station_url \<Rightarrow>
   connection \<times> station_reply" where
  "replaceURL E c callID err target u =
     (case err of
        Some e \<Rightarrow> (c, Inl (NewError Core_InvalidArgument e))
      | None \<Rightarrow>
          (c\<lparr>conn_StationURLs := map (\<lambda>station. if same_place station target
               then SetPrincipalID (conn_PID c) (copy_of E u) else station) (conn_StationURLs c)\<rparr>,
           Inr (respondEmpty SCP ''MethodReplaceURL'' callID)))"

definition sendReport :: "connection \<Rightarrow> u32 \<Rightarrow> string option \<Rightarrow> u32 \<Rightarrow> bytes \<Rightarrow> station_reply" where
  "sendReport c callID err reportID reportData =
     (case err of
        Some e \<Rightarrow> Inl (NewError Core_Unknown e)
      | None \<Rightarrow>
          (if createReportRecord (conn_PID c) reportID reportData \<noteq> None
           then Inl (NewError Core_Unknown ''change_error'')
           else Inr (respondEmpty SCP ''MethodSendReport'' callID)))"

text \<open>The stations are changed through their parameter maps, which the loop's copies share. The
  reported properties are cut to their enumerations' eight bits.\<close>

definition reportNATProperties ::
  "connection \<Rightarrow> u32 \<Rightarrow> string option \<Rightarrow> u32 \<Rightarrow> u32 \<Rightarrow> u32 \<Rightarrow> connection \<times> station_reply" where
  "reportNATProperties c callID err natmapping natfiltering rtt =
     (case err of
        Some e \<Rightarrow> (c, Inl (NewError Core_InvalidArgument ''change_error''))
      | None \<Rightarrow>
          (c\<lparr>conn_StationURLs := map (\<lambda>station. identified c
               (if \<not> IsPublic station
                then SetNATFiltering (ucast natfiltering) (SetNATMapping (ucast natmapping) station)
                else station)) (conn_StationURLs c)\<rparr>,
           Inr (respondEmpty NATP ''MethodReportNATProperties'' callID)))"

subsection \<open>Requests\<close>

datatype station_request =
    Register "station_url list"
  | RegisterExRequest "station_url list" login_data
  | UpdateURLs "station_url list"
  | ReplaceURL station_url station_url
  | RequestURLs u32 u64
  | RequestConnectionData u32 u64
  | TestConnectivity
  | SendReport u32 bytes
  | ReportNATProperties u32 u32 u32
  | RequestProbeInitiation "station_url list"

text \<open>The connection of the sender is the n-th of the endpoint.\<close>

definition put_connection :: "nat \<Rightarrow> connection \<Rightarrow> endpoint \<Rightarrow> endpoint" where
  "put_connection n c ep = ep\<lparr>Connections := (Connections ep)[n := c]\<rparr>"

definition changing :: "nat \<Rightarrow> endpoint \<Rightarrow> connection \<times> station_reply \<Rightarrow>
    endpoint \<times> station_reply \<times> string data_packet list" where
  "changing n ep r = (case r of (c, reply) \<Rightarrow> (put_connection n c ep, reply, []))"

fun handle_station ::
  "station_env \<Rightarrow> endpoint \<Rightarrow> nat \<Rightarrow> u32 \<Rightarrow> string option \<Rightarrow> station_request \<Rightarrow>
   endpoint \<times> station_reply \<times> string data_packet list" where
  "handle_station E ep n callID err (Register us) =
     changing n ep (register E True (Connections ep ! n) callID err us)"
| "handle_station E ep n callID err (RegisterExRequest us d) =
     changing n ep (registerEx E (Connections ep ! n) callID err us d)"
| "handle_station E ep n callID err (UpdateURLs us) =
     changing n ep (updateURLs E (Connections ep ! n) callID err us)"
| "handle_station E ep n callID err (ReplaceURL target u) =
     changing n ep (replaceURL E (Connections ep ! n) callID err target u)"
| "handle_station E ep n callID err (RequestURLs cid pid) = (ep, requestURLs E ep callID err cid pid, [])"
| "handle_station E ep n callID err (RequestConnectionData cid pid) =
     (ep, requestConnectionData E ep callID err cid pid, [])"
| "handle_station E ep n callID err TestConnectivity = (ep, testConnectivity callID err, [])"
| "handle_station E ep n callID err (SendReport i d) =
     (ep, sendReport (Connections ep ! n) callID err i d, [])"
| "handle_station E ep n callID err (ReportNATProperties m f rtt) =
     changing n ep (reportNATProperties (Connections ep ! n) callID err m f rtt)"
| "handle_station E ep n callID err (RequestProbeInitiation ts) =
     (let (reply, probes) = requestProbeInitiation E ep (Connections ep ! n) callID err ts
      in (ep, reply, probes))"

subsection \<open>Nobody publishes for somebody else\<close>

text \<open>Every station of a connection names that connection's player.\<close>

definition own_stations :: "connection \<Rightarrow> bool" where
  "own_stations c \<longleftrightarrow> (\<forall>u \<in> set (conn_StationURLs c). PrincipalID u = Some (conn_PID c))"

lemma PrincipalID_other:
  "PrincipalID (SetRVConnectionID i s) = PrincipalID s"
  "PrincipalID (SetPortNumber p s) = PrincipalID s"
  "PrincipalID (SetAddress a s) = PrincipalID s"
  by (simp_all add: PrincipalID_def uint64ParamValue_def numberParamValue_def ParamValue_def
      station_setter_defs)

lemma PrincipalID_corrected [simp]: "PrincipalID (corrected E c u) = Some (conn_PID c)"
  by (simp add: corrected_def Let_def PrincipalID_other split: prod.split)

lemma PrincipalID_identified [simp]: "PrincipalID (identified c u) = Some (conn_PID c)"
  by (simp add: identified_def PrincipalID_other)

lemma own_stations_handlers:
  assumes "own_stations c"
  shows "own_stations (fst (register_stations E c callID name us))"
    and "own_stations (fst (register E ins c callID err us))"
    and "own_stations (fst (registerEx E c callID err us d))"
    and "own_stations (fst (updateURLs E c callID err us))"
    and "own_stations (fst (replaceURL E c callID err target u))"
    and "own_stations (fst (reportNATProperties c callID err m f rtt))"
proof -
  show reg: "own_stations (fst (register_stations E c callID name us))" for name
    using assms by (auto simp: own_stations_def register_stations_def Let_def split: option.splits prod.splits)
  show "own_stations (fst (register E ins c callID err us))"
    and "own_stations (fst (registerEx E c callID err us d))"
    using assms reg by (auto simp: register_def registerEx_def split: option.splits)
qed (use assms in \<open>auto simp: own_stations_def updateURLs_def replaceURL_def reportNATProperties_def
      split: option.splits\<close>)

inductive station_step :: "station_env \<Rightarrow> endpoint \<Rightarrow> endpoint \<Rightarrow> bool" for E where
  request: "n < length (Connections ep) \<Longrightarrow> handle_station E ep n callID err rq = (ep', reply, probes) \<Longrightarrow>
    station_step E ep ep'"
| connected: "conn_StationURLs c = [] \<Longrightarrow> station_step E ep (ep\<lparr>Connections := c # Connections ep\<rparr>)"
| dropped: "station_step E ep (ep\<lparr>Connections := take n (Connections ep) @ drop (Suc n) (Connections ep)\<rparr>)"

lemma own_stations_changing:
  "\<forall>c \<in> set (Connections ep). own_stations c \<Longrightarrow> own_stations (fst r) \<Longrightarrow>
   \<forall>c \<in> set (Connections (fst (changing n ep r))). own_stations c"
  using set_update_subset_insert [of "Connections ep" n "fst r"]
  by (auto simp: changing_def put_connection_def split: prod.splits)

lemma own_stations_request:
  assumes "n < length (Connections ep)" and all: "\<forall>c \<in> set (Connections ep). own_stations c"
  shows "\<forall>c \<in> set (Connections (fst (handle_station E ep n callID err rq))). own_stations c"
proof -
  have "own_stations (Connections ep ! n)" using assms by simp
  note own = own_stations_handlers [OF this]
  show ?thesis
  proof (cases rq)
    case (Register us)
    then show ?thesis using own_stations_changing [OF all own(2)] by simp
  next
    case (RegisterExRequest us d)
    then show ?thesis using own_stations_changing [OF all own(3)] by simp
  next
    case (UpdateURLs us)
    then show ?thesis using own_stations_changing [OF all own(4)] by simp
  next
    case (ReplaceURL target u)
    then show ?thesis using own_stations_changing [OF all own(5)] by simp
  next
    case (ReportNATProperties m f rtt)
    then show ?thesis using own_stations_changing [OF all own(6)] by simp
  qed (use all in \<open>simp_all add: split_beta Let_def\<close>)
qed

interpretation stations: invariant_system "\<lambda>ep. Connections ep = []" "station_step E"
  "\<lambda>ep. \<forall>c \<in> set (Connections ep). own_stations c"
proof
  show "\<forall>c \<in> set (Connections ep). own_stations c" if "Connections ep = []" for ep
    using that by simp
  show "\<forall>c \<in> set (Connections t). own_stations c"
    if "station_step E s t" "\<forall>c \<in> set (Connections s). own_stations c" for s t
    using that
  proof (induction rule: station_step.induct)
    case (request n ep callID err rq ep' reply probes)
    then show ?case using own_stations_request [of n ep E callID err rq] by simp
  next
    case (connected c ep)
    then show ?case by (simp add: own_stations_def)
  next
    case (dropped ep n)
    then show ?case by (auto dest: in_set_takeD in_set_dropD)
  qed
qed

end
