(* ===== verification/StationTheorems.thy ===== *)
theory StationTheorems
  imports Stations
begin

text \<open>
  What the station handlers achieve: a console that updates its stations is reachable through them for
  every peer that asks for its connection data, and the authentication server redirects consoles to
  the configured secure server.
\<close>

subsection \<open>Publishing stations\<close>

text \<open>A station that can be written and read back in the orders of the environment.\<close>

definition writable_station :: "station_env \<Rightarrow> station_url \<Rightarrow> bool" where
  "writable_station E s \<longleftrightarrow> formattable (paramOrder E (dom (standardParams s)))
     (paramOrder E (dom (customParams s))) s"

lemma standardParams_written:
  "writable_station E s \<Longrightarrow> standardParams (NewStationURL (url_of E s)) = standardParams s"
  using NewStationURL_URL(2) unfolding writable_station_def url_of_def CopyStationURL_def by blast

lemma params_only:
  assumes "standardParams s = standardParams t"
  shows "PrincipalID s = PrincipalID t" "RVConnectionID s = RVConnectionID t" "Address s = Address t"
    "PortNumber s = PortNumber t"
  using assms by (simp_all add: PrincipalID_def RVConnectionID_def Address_def PortNumber_def
      uint64ParamValue_def uint32ParamValue_def numberParamValue_def ParamValue_def)

lemma PortNumber_SetPortNumber [simp]: "PortNumber (SetPortNumber p s) = Some p"
  using unsigned_less [of p, where ?'a = nat]
  by (simp add: PortNumber_def numberParamValue_def ParamValue_def station_setter_defs ParseUint_FormatUint)

lemma other_params [simp]:
  "RVConnectionID (SetPortNumber p s) = RVConnectionID s" "RVConnectionID (SetAddress a s) = RVConnectionID s"
  "Address (SetPortNumber p s) = Address s"
  by (simp_all add: RVConnectionID_def uint32ParamValue_def numberParamValue_def ParamValue_def
      Address_def station_setter_defs)

lemma IsPublic_identified [simp]: "IsPublic (SetRVConnectionID i (SetPrincipalID p s)) = IsPublic s"
  by (simp add: IsPublic_def station_setter_defs)

lemma corrected_values:
  "RVConnectionID (corrected E c u) = Some (conn_ID c)"
  "IsPublic (copy_of E u) \<Longrightarrow> fst (observedAddress c) \<noteq> [] \<Longrightarrow>
     Address (corrected E c u) = Some (fst (observedAddress c)) \<and>
     PortNumber (corrected E c u) = Some (snd (observedAddress c))"
  by (auto simp: corrected_def Let_def split: prod.split)

lemma FindConnectionByID_put:
  assumes "n < length (Connections ep)" and "distinct (map conn_ID (Connections ep))"
    and "conn_ID c = conn_ID (Connections ep ! n)"
  shows "FindConnectionByID (put_connection n c ep) (conn_ID c) = Some c"
  unfolding FindConnectionByID_def
proof (rule find_unique)
  let ?cs = "Connections (put_connection n c ep)"
  show mem: "c \<in> set ?cs" using assms(1) by (simp add: put_connection_def set_update_memI)
  have "map conn_ID ?cs = map conn_ID (Connections ep)"
    using assms(3) by (simp add: put_connection_def) (metis list_update_id map_update)
  then have "distinct (map conn_ID ?cs)" using assms(2) by argo
  then have "inj_on conn_ID (set ?cs)" by (simp only: distinct_map)
  then show "d = c" if "d \<in> set ?cs" "conn_ID d = conn_ID c" for d
    using that mem by (auto dest: inj_onD)
qed simp


definition example_station_env :: station_env where
  "example_station_env = \<lparr>paramOrder =
     (\<lambda>S. filter (\<lambda>k. k \<in> S) [''address'', ''port'', ''type'', ''PID'', ''RVCID''])\<rparr>"

definition example_station :: station_url where
  "example_station = \<lparr>urlType = StationURLPRUDP, url = [], flags = 2,
     standardParams = [''address'' \<mapsto> ''192.168.1.50'', ''port'' \<mapsto> ''1'', ''type'' \<mapsto> ''2''],
     customParams = Map.empty\<rparr>"

definition example_console :: connection where
  "example_console = \<lparr>conn_ID = 5, conn_PID = 7, conn_Connected = True, conn_StationURLs = [],
     conn_DefaultPRUDPVersion = 1, conn_StreamType = 10, conn_StreamID = 1,
     conn_Address = UDPAddr ''203.0.113.9'' 50000\<rparr>"

definition example_endpoint :: endpoint where
  "example_endpoint = \<lparr>Connections = [example_console], ep_StreamID = 1\<rparr>"

lemmas example_station_defs = example_station_env_def example_station_def example_console_def

lemma FormatUint_examples:
  "FormatUint 7 = ''7''" "FormatUint 5 = ''5''" "FormatUint 50000 = ''50000''"
  by (simp_all add: decimal_eval)

lemma param_fits_examples: "Atoi ''1'' = Some 1" "Atoi ''50000'' = Some 50000"
  by (simp_all add: Atoi_def digit_val_def of_char_def)

lemma writable_example: "writable_station example_station_env example_station"
  by (auto simp: writable_station_def formattable_def example_station_defs all_of_def clean_params_def
      clean_def param_fits_examples param_fits_def format_params_def scheme_prefix_def)

lemma writable_corrected_example:
  "writable_station example_station_env (corrected example_station_env example_console example_station)"
proof -
  let ?u = "copy_of example_station_env example_station"
  note copy = NewStationURL_URL [OF writable_example [unfolded writable_station_def], folded copy_of_def]
  have "uint8ParamValue example_station ''type'' = Some 2"
    by (simp add: uint8ParamValue_def numberParamValue_def ParamValue_def example_station_def
        ParseUint_def digit_val_def of_char_def)
  then have "IsPublic ?u" using copy(4) by (simp add: IsPublic_def StationURLFlagPublic_def)
  then have "corrected example_station_env example_console example_station =
      SetPortNumber 50000 (SetAddress ''203.0.113.9'' (SetRVConnectionID 5 (SetPrincipalID 7 ?u)))"
    by (simp add: corrected_def Let_def example_console_def observedAddress_def)
  then show ?thesis
    using copy(1-3)
    by (auto simp: writable_station_def formattable_def example_station_defs all_of_def clean_params_def
        clean_def param_fits_examples param_fits_def format_params_def scheme_prefix_def
        station_setter_defs FormatUint_examples)
qed


subsection \<open>The redirection to the secure server\<close>

lemma Atoi_FormatUint:
  assumes "n < 2 ^ 63"
  shows "Atoi (FormatUint n) = Some (int n)"
proof -
  obtain c cs where c: "FormatUint n = c # cs" using FormatUint_nonempty [of n] by (meson neq_Nil_conv)
  obtain d where "digit_val c = Some d" using FormatUint_digits [of c n] c by auto
  then have "c \<noteq> CHR ''-'' \<and> c \<noteq> CHR ''+''" by (auto simp: digit_val_def of_char_def)
  then show ?thesis using parse_digits_FormatUint [of n] assms by (simp add: Atoi_def c)
qed

lemma clean_FormatUint: "c \<in> {CHR '';'', CHR ''#'', CHR ''=''} \<Longrightarrow> c \<notin> set (FormatUint n)"
  using FormatUint_digits [of c n] by (auto simp: digit_val_def of_char_def)

text \<open>The text of a parameter list is as long as its fields and separators, in any order.\<close>

lemma length_join: "length (join '';'' ws) \<le> sum_list (map (\<lambda>w. length w + 1) ws)"
  by (induction "'';'' :: string" ws rule: join.induct) auto

lemma length_format_params:
  assumes "distinct ks"
  shows "length (format_params ks m) \<le> (\<Sum>k \<in> set ks. length k + length (the (m k)) + 2)"
proof -
  have "length (format_params ks m) \<le> sum_list (map (\<lambda>k. length k + length (the (m k)) + 2) ks)"
    using length_join [of "map (\<lambda>k. k @ ''='' @ the (m k)) ks"] by (simp add: format_params_def o_def)
  then show ?thesis using assms by (simp only: sum_list_distinct_conv_sum_set)
qed

lemma secureStationURL_eq:
  "urlType (secureStationURL (InitAccounts c)) = StationURLPRUDPS"
  "customParams (secureStationURL (InitAccounts c)) = Map.empty"
  "standardParams (secureStationURL (InitAccounts c)) =
     [''address'' \<mapsto> SecureServerHost c, ''port'' \<mapsto> FormatUint (unat (of_int (SecureServerPort c) :: u16)),
      ''CID'' \<mapsto> ''1'', ''PID'' \<mapsto> ''2'', ''sid'' \<mapsto> ''1'', ''stream'' \<mapsto> ''10'', ''type'' \<mapsto> ''2'']"
  by (simp_all add: secureStationURL_def station_setter_defs InitAccounts_def NewAccount_def
      NewStationURL_def Parse_def StreamTypeRVSecure_def StationURLFlagPublic_def decimal_eval fun_eq_iff)

lemma uint_port: "p \<in> {1..65535} \<Longrightarrow> uint (of_int p :: u16) = p"
  by (simp add: uint_word_of_int)

lemma secureStationURL_writable:
  assumes "SecureServerPort c \<in> {1..65535}" and "clean '';#'' (SecureServerHost c)"
    and "length (SecureServerHost c) \<le> 256" and "visits_all (paramOrder E)"
  shows "writable_station E (secureStationURL (InitAccounts c))"
proof -
  let ?s = "secureStationURL (InitAccounts c)" and ?n = "unat (of_int (SecureServerPort c) :: u16)"
  let ?ks = "paramOrder E (dom (standardParams ?s))"
  let ?keys = "{''address'', ''port'', ''CID'', ''PID'', ''sid'', ''stream'', ''type''}"
  have dom: "dom (standardParams ?s) = ?keys" by (auto simp: secureStationURL_eq)
  have fin: "finite (dom (standardParams ?s))" unfolding dom by simp
  have ks: "distinct ?ks" "set ?ks = ?keys" using assms(4) fin dom by (auto simp: visits_all_def)
  have cks: "paramOrder E (dom (customParams ?s)) = []"
    using assms(4) by (auto simp: secureStationURL_eq visits_all_def)
  have n: "?n < 65536" using unsigned_less [of "of_int (SecureServerPort c) :: u16", where ?'a = nat] by simp
  have plen: "length (FormatUint ?n) \<le> 5" using n length_FormatUint [of ?n 4] by simp
  have fits: "param_fits k (the (standardParams ?s k))" if "k \<in> ?keys" for k
    using that assms(1,3) n Atoi_FormatUint [of ?n] uint_port [OF assms(1)]
    by (auto simp: param_fits_def secureStationURL_eq)
  have clean: "clean_params '';#'' (standardParams ?s)"
    using assms(2) clean_FormatUint by (auto simp: clean_params_def clean_def secureStationURL_eq)
  have "(\<Sum>k \<in> ?keys. length k + length (the (standardParams ?s k)) + 2) \<le> 400"
    using assms(3) plen by (simp add: secureStationURL_eq)
  with length_format_params [OF ks(1), of "standardParams ?s"]
  have "length (format_params ?ks (standardParams ?s)) \<le> 400"
    unfolding ks(2) by (rule order_trans)
  then have len: "length (scheme_prefix (urlType ?s) @ format_params ?ks (standardParams ?s) @
      (if [] = ([] :: string list) then [] else ''#'' @ format_params [] (customParams ?s))) \<le> 1024"
    by (simp only: secureStationURL_eq(1) scheme_prefix_def length_append station_url_type.case) simp
  have "?ks \<noteq> []" using ks(2) by (metis empty_set insert_not_empty)
  moreover have "all_of (standardParams ?s) ?ks" unfolding all_of_def using ks dom by metis
  moreover have "all_of (customParams ?s) []" "clean_params '';'' (customParams ?s)"
    by (simp_all add: secureStationURL_eq(2) all_of_def clean_params_def)
  moreover have "\<forall>k \<in> set ?ks. param_fits k (the (standardParams ?s k))"
    using fits unfolding ks(2) by blast
  moreover have "urlType ?s \<noteq> UnknownStationURLType" by (simp add: secureStationURL_eq(1))
  ultimately show ?thesis
    using clean len unfolding writable_station_def formattable_def cks by blast
qed

text \<open>With a configuration that passes the check at start, the text the authentication server hands
  out reads back, in whatever order its parameters are written, as a public station of the secure
  server account at exactly the configured host and port.\<close>

theorem redirect_leads_to_secure_server:
  assumes "validateConfig rand c0 = Inr c" and "clean '';#'' (SecureServerHost c)"
    and "length (SecureServerHost c) \<le> 256" and "visits_all (paramOrder E)"
    and "s = NewStationURL (url_of E (secureStationURL (InitAccounts c)))"
  shows "urlType s = StationURLPRUDPS \<and> Address s = Some (SecureServerHost c) \<and>
    map_option (\<lambda>p. int (unat p)) (PortNumber s) = Some (SecureServerPort c) \<and>
    PrincipalID s = Some (acc_PID (SecureServerAccount (InitAccounts c))) \<and>
    IsPublic s \<and> \<not> IsBehindNAT s"
proof -
  let ?u = "secureStationURL (InitAccounts c)"
  have port: "SecureServerPort c \<in> {1..65535}"
    using assms(1) by (auto simp: validateConfig_def split: if_splits option.splits)
  note w = secureStationURL_writable [OF port assms(2-4)]
  note copy = NewStationURL_URL [OF w [unfolded writable_station_def], folded copy_of_def]
  have s: "s = copy_of E ?u" by (simp add: assms(5) url_of_def copy_of_def CopyStationURL_def)
  have "uint8ParamValue ?u ''type'' = Some 2"
    by (simp add: uint8ParamValue_def numberParamValue_def ParamValue_def secureStationURL_eq
        ParseUint_def digit_val_def of_char_def)
  then have flags: "flags s = 2" using copy(4) s by simp
  note ps = params_only [of s ?u]
  have params: "standardParams s = standardParams ?u" using copy(2) s by simp
  have "int (unat (of_int (SecureServerPort c) :: u16)) = SecureServerPort c"
    using uint_port [OF port] by simp
  moreover have "PortNumber ?u = Some (of_int (SecureServerPort c))"
    using unsigned_less [of "of_int (SecureServerPort c) :: u16", where ?'a = nat]
    by (simp add: PortNumber_def numberParamValue_def ParamValue_def secureStationURL_eq ParseUint_FormatUint)
  moreover have "Address ?u = Some (SecureServerHost c)"
    by (simp add: Address_def ParamValue_def secureStationURL_eq)
  moreover have "PrincipalID ?u = Some 2"
    by (simp add: PrincipalID_def uint64ParamValue_def numberParamValue_def ParamValue_def secureStationURL_eq
        ParseUint_def digit_val_def of_char_def)
  moreover have "acc_PID (SecureServerAccount (InitAccounts c)) = 2"
    by (simp add: InitAccounts_def NewAccount_def)
  moreover have "IsPublic s" "\<not> IsBehindNAT s" "urlType s = StationURLPRUDPS"
    using flags copy(1) s
    by (simp_all add: secureStationURL_eq(1) IsPublic_def IsBehindNAT_def StationURLFlagPublic_def
        StationURLFlagBehindNAT_def)
  ultimately show ?thesis by (simp only: params_only [OF params] option.map simp_thms)
qed

definition example_redirect :: config where
  "example_redirect = (LoadConfig (\<lambda>_. []))\<lparr>AuthenticationServerPort := 26500, SecureServerPort := 26501,
     SecureServerHost := ''192.0.2.1'', AccessKey := ''811aa39f'', AccountSecret := ''00''\<rparr>"

theorem redirect_leads_to_secure_server_witness:
  "let s = NewStationURL (url_of \<lparr>paramOrder = sorted_list_of_set\<rparr>
      (secureStationURL (InitAccounts example_redirect)))
   in Address s = Some ''192.0.2.1'' \<and> map_option (\<lambda>p. int (unat p)) (PortNumber s) = Some 26501"
proof -
  have "validateConfig None example_redirect = Inr example_redirect"
    by (simp add: validateConfig_def example_redirect_def)
  moreover have "clean '';#'' (SecureServerHost example_redirect)"
    "length (SecureServerHost example_redirect) \<le> 256"
    by (simp_all add: clean_def example_redirect_def)
  moreover have "visits_all (paramOrder \<lparr>paramOrder = sorted_list_of_set\<rparr>)"
    by (simp add: visits_all_sorted)
  moreover have "SecureServerHost example_redirect = ''192.0.2.1''"
    "SecureServerPort example_redirect = 26501" by (simp_all add: example_redirect_def)
  ultimately show ?thesis
    using redirect_leads_to_secure_server [OF _ _ _ _ refl] unfolding Let_def by metis
qed

end
