(* ===== verification/NatTraversal.thy ===== *)
theory NatTraversal
  imports StationTheorems
begin

text \<open>
  The NAT traversal handlers that common-go registers and this server leaves as they are
  (\<^verbatim>\<open>src/third_party/nex-protocols-common-go-trace/nat-traversal\<close>), beside the ones of Stations. They
  change nothing; the Ext form of the probe request panics on a peer of an unknown PRUDP version, where
  the server's own form skips the peer. The property says where the probes of both go.
\<close>

subsection \<open>Handlers\<close>

definition getRelaySignatureKey :: "u64 \<Rightarrow> u32 \<Rightarrow> string option \<Rightarrow> station_reply" where
  "getRelaySignatureKey currentUTCTime callID err =
     (case err of
        Some e \<Rightarrow> Inl (NewError Core_InvalidArgument ''change_error'')
      | None \<Rightarrow> Inr (respond NATP ''MethodGetRelaySignatureKey'' callID
          [WU32 0, WU64 currentUTCTime, WString [], WU16 0, WU32 0, WU32 0]))"

definition reportNATTraversalResult :: "u32 \<Rightarrow> string option \<Rightarrow> u32 \<Rightarrow> bool \<Rightarrow> u32 \<Rightarrow> station_reply" where
  "reportNATTraversalResult callID err cid result rtt =
     (case err of
        Some e \<Rightarrow> Inl (NewError Core_InvalidArgument ''change_error'')
      | None \<Rightarrow> Inr (respondEmpty NATP ''MethodReportNATTraversalResult'' callID))"

definition reportNATTraversalResultDetail ::
  "u32 \<Rightarrow> string option \<Rightarrow> u32 \<Rightarrow> bool \<Rightarrow> u32 \<Rightarrow> u32 \<Rightarrow> station_reply" where
  "reportNATTraversalResultDetail callID err cid result detail rtt =
     (case err of
        Some e \<Rightarrow> Inl (NewError Core_InvalidArgument ''change_error'')
      | None \<Rightarrow> Inr (respondEmpty NATP ''MethodReportNATTraversalResultDetail'' callID))"

fun send_probes_ext ::
  "endpoint \<Rightarrow> 'p rmc_request \<Rightarrow> string list \<Rightarrow> 'p data_packet list option" where
  "send_probes_ext ep req [] = Some []"
| "send_probes_ext ep req (target # targets) =
     (case Option.bind (RVConnectionID (NewStationURL target)) (FindConnectionByID ep) of
        None \<Rightarrow> send_probes_ext ep req targets
      | Some peer \<Rightarrow>
          (case data_packet_for ep peer req of
             None \<Rightarrow> None
           | Some messagePacket \<Rightarrow>
               map_option (\<lambda>packets. messagePacket # packets) (send_probes_ext ep req targets)))"

definition requestProbeInitiationExt ::
  "endpoint \<Rightarrow> u32 \<Rightarrow> string option \<Rightarrow> string list \<Rightarrow> string \<Rightarrow>
   (station_reply \<times> string data_packet list) option" where
  "requestProbeInitiationExt ep callID err targetList station =
     (case err of
        Some e \<Rightarrow> Some (Inl (NewError Core_InvalidArgument ''change_error''), [])
      | None \<Rightarrow> map_option (Pair (Inr (respondEmpty NATP ''MethodRequestProbeInitiationExt'' callID)))
          (send_probes_ext ep
             \<lparr>req_ProtocolID = NATP, req_MethodID = ''MethodInitiateProbe'',
              req_CallID = 0xFFFF0000 + callID, req_Parameters = station\<rparr>
             targetList))"

subsection \<open>Where the probes go\<close>

definition probed :: "endpoint \<Rightarrow> station_url list \<Rightarrow> connection list" where
  "probed ep targets =
     List.map_filter (\<lambda>u. Option.bind (RVConnectionID u) (FindConnectionByID ep)) targets"

lemma probed_Cons:
  "probed ep (u # us) =
     (case Option.bind (RVConnectionID u) (FindConnectionByID ep) of
        None \<Rightarrow> probed ep us | Some c \<Rightarrow> c # probed ep us)"
  unfolding probed_def List.map_filter_simps by (rule refl)

lemma packet_for_supported:
  assumes "supported_versions ep" and "FindConnectionByID ep cid = Some c"
  shows "\<exists>pkt. data_packet_for ep c req = Some pkt \<and> pkt_Receiver pkt = c \<and> pkt_Payload pkt = req"
  using assms FindConnectionByID_Some [OF assms(2)]
  by (auto simp: supported_versions_def data_packet_for_def)

lemma send_probes_receivers:
  assumes "supported_versions ep"
  shows "map (\<lambda>pkt. (pkt_Receiver pkt, pkt_Payload pkt)) (send_probes ep req us) =
    map (\<lambda>c. (c, req)) (probed ep us)"
proof (induction us)
  case (Cons u us)
  show ?case
  proof (cases "Option.bind (RVConnectionID u) (FindConnectionByID ep)")
    case None
    then show ?thesis using Cons by (auto simp: probed_Cons split: option.split)
  next
    case (Some c)
    then obtain cid where cid: "RVConnectionID u = Some cid" "FindConnectionByID ep cid = Some c"
      by (auto simp: bind_eq_Some_conv)
    then show ?thesis
      using packet_for_supported [OF assms cid(2), of req] Cons by (auto simp: probed_Cons)
  qed
qed (simp add: probed_def List.map_filter_simps)

lemma send_probes_ext_same:
  assumes "supported_versions ep"
  shows "send_probes_ext ep req ts = Some (send_probes ep req (map NewStationURL ts))"
proof (induction ts)
  case (Cons t ts)
  show ?case
  proof (cases "Option.bind (RVConnectionID (NewStationURL t)) (FindConnectionByID ep)")
    case None
    then show ?thesis using Cons by (auto split: option.splits)
  next
    case (Some c)
    then obtain cid where cid: "RVConnectionID (NewStationURL t) = Some cid" "FindConnectionByID ep cid = Some c"
      by (auto simp: bind_eq_Some_conv)
    then show ?thesis
      using packet_for_supported [OF assms cid(2), of req] Cons by auto
  qed
qed simp

text \<open>C38: a request for probes makes the server send one probe, with the caller's own public station, to every
  connected console that a target names by its connection, in the order of the targets, and to nobody
  else. The Ext form does the same for the same targets, with the station the caller gives.\<close>

theorem probes_reach_peers:
  assumes "supported_versions ep" and "requestProbeInitiation E ep c callID None us = (reply, probes)"
    and "us = map NewStationURL ts"
  shows "map (\<lambda>p. (pkt_Receiver p, req_Parameters (pkt_Payload p), req_MethodID (pkt_Payload p))) probes =
      map (\<lambda>peer. (peer, url_of E (stationToProbe E c), ''MethodInitiateProbe'')) (probed ep us) \<and>
    reply = Inr (respondEmpty NATP ''MethodRequestProbeInitiation'' callID) \<and>
    requestProbeInitiationExt ep callID None ts (url_of E (stationToProbe E c)) =
      Some (Inr (respondEmpty NATP ''MethodRequestProbeInitiationExt'' callID), probes)"
proof -
  let ?req = "\<lparr>req_ProtocolID = NATP, req_MethodID = ''MethodInitiateProbe'',
     req_CallID = 0xFFFF0000 + callID, req_Parameters = url_of E (stationToProbe E c)\<rparr>"
  have probes: "probes = send_probes ep ?req us" and "reply = Inr (respondEmpty NATP ''MethodRequestProbeInitiation'' callID)"
    using assms(2) by (auto simp: requestProbeInitiation_def)
  moreover have "map (\<lambda>(peer, r). (peer, req_Parameters r, req_MethodID r))
      (map (\<lambda>pkt. (pkt_Receiver pkt, pkt_Payload pkt)) probes) =
    map (\<lambda>(peer, r). (peer, req_Parameters r, req_MethodID r)) (map (\<lambda>c. (c, ?req)) (probed ep us))"
    unfolding probes send_probes_receivers [OF assms(1)] ..
  moreover have "requestProbeInitiationExt ep callID None ts (url_of E (stationToProbe E c)) =
      Some (Inr (respondEmpty NATP ''MethodRequestProbeInitiationExt'' callID), probes)"
    using send_probes_ext_same [OF assms(1)] by (simp add: requestProbeInitiationExt_def probes assms(3))
  ultimately show ?thesis by (simp add: comp_def)
qed

definition example_peer :: station_url where
  "example_peer = \<lparr>urlType = StationURLPRUDP, url = [], flags = 0,
     standardParams = [''RVCID'' \<mapsto> ''5''], customParams = Map.empty\<rparr>"

lemma example_target: "RVConnectionID (NewStationURL (url_of example_station_env example_peer)) = Some 5"
proof -
  have "writable_station example_station_env example_peer"
    by (auto simp: writable_station_def formattable_def example_peer_def example_station_env_def all_of_def
        clean_params_def clean_def param_fits_def format_params_def scheme_prefix_def)
  note copy = NewStationURL_URL [OF this [unfolded writable_station_def], unfolded CopyStationURL_def, folded url_of_def]
  have "RVConnectionID (NewStationURL (url_of example_station_env example_peer)) = RVConnectionID example_peer"
    using copy(2,3) by (simp add: RVConnectionID_def uint32ParamValue_def numberParamValue_def ParamValue_def)
  then show ?thesis
    by (simp add: RVConnectionID_def uint32ParamValue_def numberParamValue_def ParamValue_def example_peer_def
        ParseUint_def digit_val_def of_char_def)
qed

theorem probes_reach_peers_witness:
  "\<exists>reply probe. requestProbeInitiation example_station_env example_endpoint example_console 1 None
       [NewStationURL (url_of example_station_env example_peer)] = (reply, [probe]) \<and>
     pkt_Receiver probe = example_console"
proof -
  let ?us = "[NewStationURL (url_of example_station_env example_peer)]"
  obtain reply probes where run:
    "requestProbeInitiation example_station_env example_endpoint example_console 1 None ?us = (reply, probes)"
    by fastforce
  have "supported_versions example_endpoint"
    by (simp add: supported_versions_def example_endpoint_def example_console_def)
  note probes = probes_reach_peers [OF this run, of "[url_of example_station_env example_peer]"]
  have "probed example_endpoint ?us = [example_console]"
    by (simp add: probed_def List.map_filter_simps example_target FindConnectionByID_def example_endpoint_def
        example_console_def)
  then show ?thesis using probes run by auto
qed

end
