(* ===== verification/Crypto.thy ===== *)
theory Crypto
  imports GoStd
begin

text \<open>
  The part of Go's \<^verbatim>\<open>crypto\<close> packages that Kerberos uses in \<^verbatim>\<open>src/third_party/nex-go/kerberos.go\<close>: MD5,
  HMAC over MD5, and the RC4 stream cipher, all as functions on lists of bytes. What is proved is what
  the tickets need: the digests have 16 bytes and the cipher undoes itself.
\<close>

unbundle bit_operations_syntax

subsection \<open>crypto/md5\<close>

definition md5_table :: "u32 list" where
  "md5_table = [
     0xD76AA478, 0xE8C7B756, 0x242070DB, 0xC1BDCEEE, 0xF57C0FAF, 0x4787C62A,
     0xA8304613, 0xFD469501, 0x698098D8, 0x8B44F7AF, 0xFFFF5BB1, 0x895CD7BE,
     0x6B901122, 0xFD987193, 0xA679438E, 0x49B40821, 0xF61E2562, 0xC040B340,
     0x265E5A51, 0xE9B6C7AA, 0xD62F105D, 0x02441453, 0xD8A1E681, 0xE7D3FBC8,
     0x21E1CDE6, 0xC33707D6, 0xF4D50D87, 0x455A14ED, 0xA9E3E905, 0xFCEFA3F8,
     0x676F02D9, 0x8D2A4C8A, 0xFFFA3942, 0x8771F681, 0x6D9D6122, 0xFDE5380C,
     0xA4BEEA44, 0x4BDECFA9, 0xF6BB4B60, 0xBEBFBC70, 0x289B7EC6, 0xEAA127FA,
     0xD4EF3085, 0x04881D05, 0xD9D4D039, 0xE6DB99E5, 0x1FA27CF8, 0xC4AC5665,
     0xF4292244, 0x432AFF97, 0xAB9423A7, 0xFC93A039, 0x655B59C3, 0x8F0CCC92,
     0xFFEFF47D, 0x85845DD1, 0x6FA87E4F, 0xFE2CE6E0, 0xA3014314, 0x4E0811A1,
     0xF7537E82, 0xBD3AF235, 0x2AD7D2BB, 0xEB86D391]"

definition md5_shift :: "nat \<Rightarrow> nat" where
  "md5_shift i =
     [7, 12, 17, 22, 5, 9, 14, 20, 4, 11, 16, 23, 6, 10, 15, 21] ! (4 * (i div 16) + i mod 4)"

type_synonym md5_state = "u32 \<times> u32 \<times> u32 \<times> u32"

definition md5_step :: "u32 list \<Rightarrow> nat \<Rightarrow> md5_state \<Rightarrow> md5_state" where
  "md5_step m i = (\<lambda>(a, b, c, d).
     let (f, g) =
       (if i < 16 then ((b AND c) OR (NOT b AND d), i)
        else if i < 32 then ((d AND b) OR (NOT d AND c), (5 * i + 1) mod 16)
        else if i < 48 then (b XOR c XOR d, (3 * i + 5) mod 16)
        else (c XOR (b OR NOT d), (7 * i) mod 16))
     in (d, b + word_rotl (md5_shift i) (f + a + md5_table ! i + m ! g), b, c))"

definition word_of_bytes :: "bytes \<Rightarrow> u32" where
  "word_of_bytes bs = foldr (\<lambda>b w. ucast b OR push_bit 8 w) bs 0"

definition bytes_of_word :: "nat \<Rightarrow> 'a :: len word \<Rightarrow> bytes" where
  "bytes_of_word n w = map (\<lambda>k. ucast (drop_bit (8 * k) w)) [0..<n]"

definition md5_words :: "bytes \<Rightarrow> u32 list" where
  "md5_words block = map (\<lambda>i. word_of_bytes (take 4 (drop (4 * i) block))) [0..<16]"

definition md5_block :: "md5_state \<Rightarrow> bytes \<Rightarrow> md5_state" where
  "md5_block s block =
     (case (s, fold (md5_step (md5_words block)) [0..<64] s) of
        ((a, b, c, d), (a', b', c', d')) \<Rightarrow> (a + a', b + b', c + c', d + d'))"

definition md5_padded :: "bytes \<Rightarrow> bytes" where
  "md5_padded m =
     m @ [0x80] @ replicate ((119 - length m mod 64) mod 64) 0 @ bytes_of_word 8 (of_nat (8 * length m) :: u64)"

definition md5 :: "bytes \<Rightarrow> bytes" where
  "md5 m =
     (let p = md5_padded m;
          (a, b, c, d) = foldl md5_block (0x67452301, 0xEFCDAB89, 0x98BADCFE, 0x10325476)
            (map (\<lambda>i. take 64 (drop (64 * i) p)) [0..<length p div 64])
      in concat (map (bytes_of_word 4) [a, b, c, d]))"

lemma length_md5 [simp]: "length (md5 m) = 16"
  by (simp add: md5_def Let_def bytes_of_word_def split: prod.split)

subsection \<open>crypto/hmac over MD5\<close>

definition HMAC_MD5 :: "bytes \<Rightarrow> bytes \<Rightarrow> bytes" where
  "HMAC_MD5 key m =
     (let k0 = (if 64 < length key then md5 key else key);
          k = k0 @ replicate (64 - length k0) 0
      in md5 (map (\<lambda>b. b XOR 0x5C) k @ md5 (map (\<lambda>b. b XOR 0x36) k @ m)))"

lemma length_HMAC_MD5 [simp]: "length (HMAC_MD5 key m) = 16"
  by (simp add: HMAC_MD5_def Let_def)

subsection \<open>crypto/rc4\<close>

record rc4_cipher =
  rc4_s :: "u8 list"
  rc4_i :: u8
  rc4_j :: u8

definition swap :: "'a list \<Rightarrow> nat \<Rightarrow> nat \<Rightarrow> 'a list" where
  "swap xs i j = xs[i := xs ! j, j := xs ! i]"

definition rc4_schedule :: "bytes \<Rightarrow> u8 list" where
  "rc4_schedule key =
     fst (fold (\<lambda>i (s, j). let j' = j + s ! i + key ! (i mod length key) in (swap s i (unat j'), j'))
            [0..<256] (map of_nat [0..<256], 0))"

definition NewCipher :: "bytes \<Rightarrow> rc4_cipher option" where
  "NewCipher key =
     (if length key < 1 \<or> 256 < length key then None
      else Some \<lparr>rc4_s = rc4_schedule key, rc4_i = 0, rc4_j = 0\<rparr>)"

fun XORKeyStream :: "rc4_cipher \<Rightarrow> bytes \<Rightarrow> bytes" where
  "XORKeyStream c [] = []"
| "XORKeyStream c (v # vs) =
     (let i = rc4_i c + 1;
          x = rc4_s c ! unat i;
          j = rc4_j c + x;
          y = rc4_s c ! unat j;
          s = swap (rc4_s c) (unat i) (unat j)
      in (v XOR s ! unat (x + y)) # XORKeyStream \<lparr>rc4_s = s, rc4_i = i, rc4_j = j\<rparr> vs)"

lemma length_XORKeyStream [simp]: "length (XORKeyStream c vs) = length vs"
  by (induction c vs rule: XORKeyStream.induct) (simp_all add: Let_def)

text \<open>Decryption is encryption: the key stream does not depend on the text.\<close>

lemma XORKeyStream_twice [simp]: "XORKeyStream c (XORKeyStream c vs) = vs"
  by (induction c vs rule: XORKeyStream.induct) (simp_all add: Let_def xor.assoc)

end
