(* ===== verification/Kerberos.thy ===== *)
theory Kerberos
  imports Crypto NexCore
begin

text \<open>
  Kerberos as \<^verbatim>\<open>nex-go\<close> implements it (\<^verbatim>\<open>src/third_party/nex-go/kerberos.go\<close>), with the NEX date format
  its tickets carry (\<^verbatim>\<open>types/datetime.go\<close>): sealing and opening a buffer under a key, the internal data
  of a ticket, the ticket, and the derivation of a key from a password. A run-time panic (a slice out
  of range, a nil cipher, reading past the end of a buffer) is the outcome \<^verbatim>\<open>Panic\<close>. The reading of the
  clock is an argument, as the UTC calendar fields that \<^verbatim>\<open>time.Now\<close> gives.
\<close>

unbundle bit_operations_syntax

subsection \<open>Dates (types/datetime.go)\<close>

record timestamp =
  ts_Year :: int
  ts_Month :: int
  ts_Day :: int
  ts_Hour :: int
  ts_Minute :: int
  ts_Second :: int
  ts_Nanosecond :: int

definition Make :: "int \<Rightarrow> int \<Rightarrow> int \<Rightarrow> int \<Rightarrow> int \<Rightarrow> int \<Rightarrow> u64" where
  "Make year month day hour minute second =
     of_int (second OR push_bit 6 minute OR push_bit 12 hour OR push_bit 17 day OR push_bit 22 month OR
       push_bit 26 year)"

definition FromTimestamp :: "timestamp \<Rightarrow> u64" where
  "FromTimestamp t = Make (ts_Year t) (ts_Month t) (ts_Day t) (ts_Hour t) (ts_Minute t) (ts_Second t)"

definition Second :: "u64 \<Rightarrow> int" where "Second dt = uint (dt AND 63)"

definition Minute :: "u64 \<Rightarrow> int" where "Minute dt = uint (drop_bit 6 dt AND 63)"

definition Hour :: "u64 \<Rightarrow> int" where "Hour dt = uint (drop_bit 12 dt AND 31)"

definition Day :: "u64 \<Rightarrow> int" where "Day dt = uint (drop_bit 17 dt AND 31)"

definition Month :: "u64 \<Rightarrow> int" where "Month dt = uint (drop_bit 22 dt AND 15)"

definition Year :: "u64 \<Rightarrow> int" where "Year dt = uint (drop_bit 26 dt)"

text \<open>\<^verbatim>\<open>time.Date\<close> in UTC, as seconds since 1970: months out of range carry into the year, and all other
  fields are added up.\<close>

definition leap_year :: "int \<Rightarrow> bool" where
  "leap_year y \<longleftrightarrow> y mod 4 = 0 \<and> (y mod 100 \<noteq> 0 \<or> y mod 400 = 0)"

definition days_before_year :: "int \<Rightarrow> int" where
  "days_before_year y =
     365 * (y - 1970) + ((y - 1) div 4 - (y - 1) div 100 + (y - 1) div 400) - 477"

definition days_before_month :: "int \<Rightarrow> int \<Rightarrow> int" where
  "days_before_month y m =
     [0, 31, 59, 90, 120, 151, 181, 212, 243, 273, 304, 334] ! nat m +
       (if leap_year y \<and> 2 \<le> m then 1 else 0)"

definition Date :: "int \<Rightarrow> int \<Rightarrow> int \<Rightarrow> int \<Rightarrow> int \<Rightarrow> int \<Rightarrow> int" where
  "Date year month day hour minute second =
     (let y = year + (month - 1) div 12; m = (month - 1) mod 12 in
      86400 * (days_before_year y + days_before_month y m + day - 1) + 3600 * hour + 60 * minute + second)"

definition Standard :: "u64 \<Rightarrow> int" where
  "Standard dt = Date (Year dt) (Month dt) (Day dt) (Hour dt) (Minute dt) (Second dt)"

definition unix_seconds :: "timestamp \<Rightarrow> int" where
  "unix_seconds t = Date (ts_Year t) (ts_Month t) (ts_Day t) (ts_Hour t) (ts_Minute t) (ts_Second t)"

definition UnixNano :: "timestamp \<Rightarrow> int" where
  "UnixNano t = 10 ^ 9 * unix_seconds t + ts_Nanosecond t"

text \<open>What \<^verbatim>\<open>time.Time\<close> documents of its fields, and a year the date format has room for.\<close>

definition clock_ok :: "timestamp \<Rightarrow> bool" where
  "clock_ok t \<longleftrightarrow> 0 \<le> ts_Year t \<and> ts_Year t < 2 ^ 38 \<and> ts_Month t \<in> {1..12} \<and> ts_Day t \<in> {1..31} \<and>
     ts_Hour t \<in> {0..23} \<and> ts_Minute t \<in> {0..59} \<and> ts_Second t \<in> {0..59} \<and>
     ts_Nanosecond t \<in> {0..999999999}"

lemma or_push_bit:
  fixes x y :: int
  assumes "0 \<le> x" and "x < 2 ^ n"
  shows "x OR push_bit n y = x + 2 ^ n * y"
  using concat_bit_eq [of n x y] assms
  by (simp add: concat_bit_def take_bit_int_eq_self push_bit_eq_mult mult.commute)

lemma Make_sum:
  assumes "0 \<le> se" "se < 64" and "0 \<le> mi" "mi < 64" and "0 \<le> h" "h < 32" and "0 \<le> d" "d < 32"
    and "0 \<le> mo" "mo < 16" and "0 \<le> y" "y < 2 ^ 38"
  shows "uint (Make y mo d h mi se) = se + 64 * (mi + 64 * (h + 32 * (d + 32 * (mo + 16 * y))))"
proof -
  have "se OR push_bit 6 mi OR push_bit 12 h OR push_bit 17 d OR push_bit 22 mo OR push_bit 26 y =
      se OR push_bit 6 (mi OR push_bit 6 (h OR push_bit 5 (d OR push_bit 5 (mo OR push_bit 4 y))))"
    by (simp add: push_bit_or)
  also have "\<dots> = se + 64 * (mi + 64 * (h + 32 * (d + 32 * (mo + 16 * y))))"
    using assms by (simp add: or_push_bit)
  finally have packed: "uint (Make y mo d h mi se) =
      take_bit 64 (se + 64 * (mi + 64 * (h + 32 * (d + 32 * (mo + 16 * y)))))"
    unfolding Make_def by (simp only: uint_word_of_int_eq) simp
  have "y \<le> 2 ^ 38 - 1" using assms by simp
  then have "se + 64 * (mi + 64 * (h + 32 * (d + 32 * (mo + 16 * y)))) < 2 ^ 64" using assms by simp
  then show ?thesis using assms unfolding packed by (simp add: take_bit_int_eq_self)
qed

lemma uint_field:
  "uint (drop_bit n w AND mask m) = uint w div 2 ^ n mod 2 ^ m"
  by (simp add: unsigned_and_eq unsigned_drop_bit_eq unsigned_take_bit_eq flip: take_bit_eq_mask)
    (simp add: drop_bit_eq_div take_bit_eq_mod)

lemma uint_rest: "uint (drop_bit n w) = uint w div 2 ^ n"
  by (simp add: unsigned_drop_bit_eq bintr_uint flip: drop_bit_eq_div)

lemma field_masks: "(63 :: u64) = mask 6" "(31 :: u64) = mask 5" "(15 :: u64) = mask 4"
  by (simp_all add: mask_eq_exp_minus_1)

text \<open>Taking the packed date apart, lowest field first.\<close>

lemma lowest_field:
  fixes x q :: int
  assumes "0 \<le> x" and "x < 2 ^ n"
  shows "(x + 2 ^ n * q) div 2 ^ n = q" and "(x + 2 ^ n * q) mod 2 ^ n = x"
  using assms by simp_all

lemma next_field: "v div 2 ^ m = x + 2 ^ n * q \<Longrightarrow> 0 \<le> x \<Longrightarrow> x < 2 ^ n \<Longrightarrow> v div 2 ^ (m + n) = (q :: int)"
  by (simp add: lowest_field flip: div_exp_eq)

lemma packed_fields:
  assumes "clock_ok t"
  shows "Second (FromTimestamp t) = ts_Second t \<and> Minute (FromTimestamp t) = ts_Minute t \<and>
    Hour (FromTimestamp t) = ts_Hour t \<and> Day (FromTimestamp t) = ts_Day t \<and>
    Month (FromTimestamp t) = ts_Month t \<and> Year (FromTimestamp t) = ts_Year t"
proof -
  have b: "0 \<le> ts_Second t \<and> ts_Second t < 2 ^ 6" "0 \<le> ts_Minute t \<and> ts_Minute t < 2 ^ 6"
    "0 \<le> ts_Hour t \<and> ts_Hour t < 2 ^ 5" "0 \<le> ts_Day t \<and> ts_Day t < 2 ^ 5"
    "0 \<le> ts_Month t \<and> ts_Month t < 2 ^ 4"
    using assms by (auto simp: clock_ok_def)
  define v where "v = uint (FromTimestamp t)"
  have v: "v div 2 ^ 0 = ts_Second t + 2 ^ 6 * (ts_Minute t + 2 ^ 6 * (ts_Hour t + 2 ^ 5 * (ts_Day t + 2 ^ 5 *
      (ts_Month t + 2 ^ 4 * ts_Year t))))"
    unfolding v_def FromTimestamp_def
    using Make_sum [of "ts_Second t" "ts_Minute t" "ts_Hour t" "ts_Day t" "ts_Month t" "ts_Year t"] assms
    by (simp add: clock_ok_def)
  note numerals = add_0 numeral_plus_numeral add_num_simps
  note v6 = next_field [OF v conjunct1 [OF b(1)] conjunct2 [OF b(1)], unfolded numerals]
  note v12 = next_field [OF v6 conjunct1 [OF b(2)] conjunct2 [OF b(2)], unfolded numerals]
  note v17 = next_field [OF v12 conjunct1 [OF b(3)] conjunct2 [OF b(3)], unfolded numerals]
  note v22 = next_field [OF v17 conjunct1 [OF b(4)] conjunct2 [OF b(4)], unfolded numerals]
  note v26 = next_field [OF v22 conjunct1 [OF b(5)] conjunct2 [OF b(5)], unfolded numerals]
  have "v div 2 ^ 0 mod 2 ^ 6 = ts_Second t" unfolding v using b(1) by (blast intro: lowest_field(2))
  moreover have "v div 2 ^ 6 mod 2 ^ 6 = ts_Minute t" unfolding v6 using b(2) by (blast intro: lowest_field(2))
  moreover have "v div 2 ^ 12 mod 2 ^ 5 = ts_Hour t" unfolding v12 using b(3) by (blast intro: lowest_field(2))
  moreover have "v div 2 ^ 17 mod 2 ^ 5 = ts_Day t" unfolding v17 using b(4) by (blast intro: lowest_field(2))
  moreover have "v div 2 ^ 22 mod 2 ^ 4 = ts_Month t" unfolding v22 using b(5) by (blast intro: lowest_field(2))
  ultimately show ?thesis
    using v26 uint_field [of 0 "FromTimestamp t"]
    by (simp only: Second_def Minute_def Hour_def Day_def Month_def Year_def field_masks uint_field
        drop_bit_0 id_apply uint_rest v_def [symmetric] simp_thms)
qed

text \<open>A date read back is the time it was made from, without the fraction of the second.\<close>

lemma Standard_FromTimestamp: "clock_ok t \<Longrightarrow> Standard (FromTimestamp t) = unix_seconds t"
  by (simp add: Standard_def unix_seconds_def packed_fields)

subsection \<open>Reading dates and PIDs\<close>

definition read_u64 :: "bytes \<Rightarrow> (u64 \<times> bytes) option" where
  "read_u64 bs = map_option (\<lambda>(n, r). (of_nat n, r)) (read_le 8 bs)"

definition read_pid :: "stream_settings \<Rightarrow> bytes \<Rightarrow> (u64 \<times> bytes) option" where
  "read_pid cfg bs =
     (if PIDSize cfg = 8 then read_u64 bs
      else map_option (\<lambda>(p, r). (ucast p, r)) (read_u32 bs))"

interpretation u64_codec: codec "\<lambda>x :: u64. le_bytes 8 (unat x)" read_u64 "\<lambda>_. True"
proof
  fix x :: u64 and rest
  have "unat x < 256 ^ 8" using unsigned_less [of x, where ?'a = nat] by simp
  then show "read_u64 (le_bytes 8 (unat x) @ rest) = Some (x, rest)"
    by (simp add: read_u64_def read_le_append)
qed

text \<open>With four bytes per PID only its lower half is written.\<close>

lemma read_written_pid:
  "read_pid cfg (write_pid cfg p @ rest) =
     Some (if PIDSize cfg = 8 then p else ucast (ucast p :: u32), rest)"
proof (cases "PIDSize cfg = 8")
  case True
  then show ?thesis by (simp add: read_pid_def write_pid_def u64_codec.dec_enc)
next
  case False
  have "read_u32 (le_bytes 4 (unat p) @ rest) = Some (of_nat (unat p mod 256 ^ 4), rest)"
    by (simp add: read_u32_def read_le_append)
  also have "(of_nat (unat p mod 256 ^ 4) :: u32) = ucast p"
    by (rule iffD2 [OF word_unat_eq_iff]) (simp add: unat_of_nat unsigned_ucast_eq take_bit_eq_mod)
  finally show ?thesis using False by (simp add: read_pid_def write_pid_def)
qed

definition narrow_pid :: "u64 \<Rightarrow> bool" where "narrow_pid p \<longleftrightarrow> unat p < 2 ^ 32"

lemma narrow_pid_ucast: "narrow_pid p \<Longrightarrow> ucast (ucast p :: u32) = p"
  by (rule iffD2 [OF word_unat_eq_iff]) (simp add: narrow_pid_def unsigned_ucast_eq take_bit_eq_mod unat_mod)

interpretation pid_codec: codec "write_pid cfg" "read_pid cfg" "\<lambda>p. PIDSize cfg = 8 \<or> narrow_pid p"
  by unfold_locales (auto simp: read_written_pid narrow_pid_ucast)

subsection \<open>Sealing a buffer under a key\<close>

datatype ticket_error =
    InvalidChecksum
  | InvalidKeySize nat
  | TicketKeyFailed string
  | TicketKeyUnread
  | TicketDataUnread
  | TimestampUnread
  | UserPIDUnread
  | PayloadUnread
  | RequestUnread
  | NoServerAccount
  | ServerPasswordMismatch
  | TicketExpired
  | SourcePIDMismatch
  | ConnectionIDUnread
  | CheckUnread

datatype 'a outcome = Panic | Failed ticket_error | Done 'a

text \<open>A chain of steps ends well exactly if each of them does.\<close>

lemma outcome_Done:
  "(case x of Panic \<Rightarrow> Panic | Failed e \<Rightarrow> Failed e | Done y \<Rightarrow> f y) = Done z \<longleftrightarrow> (\<exists>y. x = Done y \<and> f y = Done z)"
  "(case o1 of None \<Rightarrow> Failed e1 | Some y1 \<Rightarrow> f1 y1) = Done z \<longleftrightarrow> (\<exists>y. o1 = Some y \<and> f1 y = Done z)"
  "(case o2 of None \<Rightarrow> Panic | Some y2 \<Rightarrow> f2 y2) = Done z \<longleftrightarrow> (\<exists>y. o2 = Some y \<and> f2 y = Done z)"
  "(case s of Inl u \<Rightarrow> Failed e2 | Inr y3 \<Rightarrow> f3 y3) = Done z \<longleftrightarrow> (\<exists>y. s = Inr y \<and> f3 y = Done z)"
  "(if b then Failed e3 else w) = Done z \<longleftrightarrow> \<not> b \<and> w = Done z"
  by (auto split: outcome.splits option.splits sum.splits)

definition Encrypt :: "bytes \<Rightarrow> bytes \<Rightarrow> bytes outcome" where
  "Encrypt key buffer =
     (case NewCipher key of
        None \<Rightarrow> (if buffer = [] then Done (HMAC_MD5 key []) else Panic)
      | Some cipher \<Rightarrow>
          (let encrypted = XORKeyStream cipher buffer in Done (encrypted @ HMAC_MD5 key encrypted)))"

definition Validate :: "bytes \<Rightarrow> bytes \<Rightarrow> bool option" where
  "Validate key buffer =
     (if length buffer < 16 then None
      else let n = length buffer - 16 in Some (drop n buffer = HMAC_MD5 key (take n buffer)))"

definition Decrypt :: "bytes \<Rightarrow> bytes \<Rightarrow> bytes outcome" where
  "Decrypt key buffer =
     (case Validate key buffer of
        None \<Rightarrow> Panic
      | Some False \<Rightarrow> Failed InvalidChecksum
      | Some True \<Rightarrow>
          (case NewCipher key of
             None \<Rightarrow> Failed (InvalidKeySize (length key))
           | Some cipher \<Rightarrow> Done (XORKeyStream cipher (take (length buffer - 16) buffer))))"

definition usable_key :: "bytes \<Rightarrow> bool" where
  "usable_key key \<longleftrightarrow> 1 \<le> length key \<and> length key \<le> 256"

lemma NewCipher_usable: "usable_key key \<longleftrightarrow> (\<exists>c. NewCipher key = Some c)"
  by (simp add: usable_key_def NewCipher_def Suc_le_eq not_less)

text \<open>Opening succeeds exactly on what was sealed under the same key, and returns it.\<close>

lemma Decrypt_Done:
  assumes "usable_key key"
  shows "Decrypt key buffer = Done text \<longleftrightarrow> Encrypt key text = Done buffer"
proof -
  obtain c where c: "NewCipher key = Some c" using assms by (auto simp: NewCipher_usable)
  show ?thesis
  proof
    assume "Decrypt key buffer = Done text"
    then have "16 \<le> length buffer"
      "drop (length buffer - 16) buffer = HMAC_MD5 key (take (length buffer - 16) buffer)"
      "text = XORKeyStream c (take (length buffer - 16) buffer)"
      using c by (auto simp: Decrypt_def Validate_def Let_def split: if_splits bool.splits)
    then show "Encrypt key text = Done buffer"
      using c by (simp add: Encrypt_def) (metis append_take_drop_id)
  next
    assume "Encrypt key text = Done buffer"
    then show "Decrypt key buffer = Done text"
      using c by (auto simp: Encrypt_def Decrypt_def Validate_def Let_def)
  qed
qed

lemma Decrypt_short: "length buffer < 16 \<Longrightarrow> Decrypt key buffer = Panic"
  by (simp add: Decrypt_def Validate_def)

lemma Encrypt_usable: "usable_key key \<Longrightarrow> \<exists>buffer. Encrypt key text = Done buffer \<and> length buffer = length text + 16"
  by (auto simp: NewCipher_usable Encrypt_def Let_def)

subsection \<open>The internal data of a ticket\<close>

record KerberosTicketInternalData =
  Issued :: u64
  SourcePID :: u64
  td_SessionKey :: bytes

text \<open>What of a server's settings the ticket depends on.\<close>

record ticket_settings =
  KerberosTicketVersion :: int
  SessionKeyLength :: nat
  stream :: stream_settings

definition internal_bytes :: "ticket_settings \<Rightarrow> KerberosTicketInternalData \<Rightarrow> bytes" where
  "internal_bytes S ti =
     le_bytes 8 (unat (Issued ti)) @ write_pid (stream S) (SourcePID ti) @ td_SessionKey ti"

text \<open>The random ticket key of version 1 is an argument, as is the failure to get one.\<close>

definition EncryptInternal ::
  "ticket_settings \<Rightarrow> string + bytes \<Rightarrow> bytes \<Rightarrow> KerberosTicketInternalData \<Rightarrow> bytes outcome" where
  "EncryptInternal S rand key ti =
     (if KerberosTicketVersion S = 1 then
        (case rand of
           Inl err \<Rightarrow> Failed (TicketKeyFailed err)
         | Inr ticketKey \<Rightarrow>
             (case Encrypt (md5 (key @ ticketKey)) (internal_bytes S ti) of
                Done encrypted \<Rightarrow> Done (write_buffer ticketKey @ write_buffer encrypted)
              | r \<Rightarrow> r))
      else Encrypt key (internal_bytes S ti))"

text \<open>The session key is taken with \<^verbatim>\<open>ReadBytesNext\<close>, which panics when too few bytes are left.\<close>

definition read_internal :: "ticket_settings \<Rightarrow> bytes \<Rightarrow> KerberosTicketInternalData outcome" where
  "read_internal S decrypted =
     (case read_u64 decrypted of
        None \<Rightarrow> Failed TimestampUnread
      | Some (issued, r1) \<Rightarrow>
          (case read_pid (stream S) r1 of
             None \<Rightarrow> Failed UserPIDUnread
           | Some (pid, r2) \<Rightarrow>
               (case read_bytes (SessionKeyLength S) r2 of
                  None \<Rightarrow> Panic
                | Some (sk, _) \<Rightarrow> Done \<lparr>Issued = issued, SourcePID = pid, td_SessionKey = sk\<rparr>)))"

definition open_internal :: "ticket_settings \<Rightarrow> bytes \<Rightarrow> bytes \<Rightarrow> KerberosTicketInternalData outcome" where
  "open_internal S key data =
     (case Decrypt key data of
        Panic \<Rightarrow> Panic
      | Failed e \<Rightarrow> Failed e
      | Done decrypted \<Rightarrow> read_internal S decrypted)"

definition DecryptInternal :: "ticket_settings \<Rightarrow> bytes \<Rightarrow> bytes \<Rightarrow> KerberosTicketInternalData outcome" where
  "DecryptInternal S data key =
     (if KerberosTicketVersion S = 1 then
        (case read_buffer data of
           None \<Rightarrow> Failed TicketKeyUnread
         | Some (ticketKey, r) \<Rightarrow>
             (case read_buffer r of
                None \<Rightarrow> Failed TicketDataUnread
              | Some (sealed, _) \<Rightarrow> open_internal S (md5 (key @ ticketKey)) sealed))
      else open_internal S key data)"

subsection \<open>The ticket\<close>

record KerberosTicket =
  kt_SessionKey :: bytes
  TargetPID :: u64
  InternalData :: bytes

definition EncryptTicket :: "ticket_settings \<Rightarrow> bytes \<Rightarrow> KerberosTicket \<Rightarrow> bytes outcome" where
  "EncryptTicket S key kt =
     Encrypt key (kt_SessionKey kt @ write_pid (stream S) (TargetPID kt) @ write_buffer (InternalData kt))"

definition DeriveKerberosKey :: "u64 \<Rightarrow> bytes \<Rightarrow> bytes" where
  "DeriveKerberosKey pid password = (md5 ^^ (65000 + unat (pid mod 1024))) password"

lemma usable_md5 [simp]: "usable_key (md5 m)"
  by (simp add: usable_key_def)

lemma usable_derived_key [simp]: "usable_key (DeriveKerberosKey pid password)"
proof -
  have "65000 + unat (pid mod 1024) = Suc (64999 + unat (pid mod 1024))" by simp
  then show ?thesis unfolding DeriveKerberosKey_def by (simp only: funpow.simps comp_apply usable_md5)
qed

text \<open>What a ticket was made from is what a server with the same settings reads from it, for PIDs that fit
  the wire; a buffer that opens was sealed from what it opens to.\<close>

lemma read_internal_bytes:
  assumes "length (td_SessionKey ti) = SessionKeyLength S"
    and "PIDSize (stream S) = 8 \<or> narrow_pid (SourcePID ti)"
  shows "read_internal S (internal_bytes S ti) = Done ti"
proof -
  have "read_bytes (SessionKeyLength S) (td_SessionKey ti) = Some (td_SessionKey ti, [])"
    using assms(1) read_bytes_append [of "td_SessionKey ti" "[]"] by simp
  then show ?thesis
    using assms(2) by (simp add: read_internal_def internal_bytes_def u64_codec.dec_enc pid_codec.dec_enc)
qed

lemma Encrypt_length: "Encrypt key text = Done buffer \<Longrightarrow> length buffer = length text + 16"
  by (auto simp: Encrypt_def Let_def split: option.splits if_splits)

lemma DecryptInternal_EncryptInternal:
  assumes "EncryptInternal S rand key ti = Done data" and "usable_key key"
    and "length (td_SessionKey ti) = SessionKeyLength S" and "SessionKeyLength S \<le> 256"
    and "\<And>k. rand = Inr k \<Longrightarrow> length k = 16"
    and "PIDSize (stream S) = 8 \<or> narrow_pid (SourcePID ti)"
  shows "DecryptInternal S data key = Done ti"
proof -
  have opened: "open_internal S k sealed = Done ti"
    if "Encrypt k (internal_bytes S ti) = Done sealed" "usable_key k" for k sealed
    using iffD2 [OF Decrypt_Done [OF that(2)] that(1)] read_internal_bytes [OF assms(3,6)]
    by (simp add: open_internal_def)
  show ?thesis
  proof (cases "KerberosTicketVersion S = 1")
    case False
    then show ?thesis using assms(1,2) opened by (simp add: EncryptInternal_def DecryptInternal_def)
  next
    case True
    then obtain k sealed where k: "rand = Inr k" "Encrypt (md5 (key @ k)) (internal_bytes S ti) = Done sealed"
      "data = write_buffer k @ write_buffer sealed"
      using assms(1) by (auto simp: EncryptInternal_def split: sum.splits outcome.splits)
    have "length sealed < 2 ^ 32"
      using Encrypt_length [OF k(2)] assms(3,4) by (simp add: internal_bytes_def write_pid_def)
    then show ?thesis
      using True k(3) assms(5) [OF k(1)] opened [OF k(2)]
        buffer_codec.dec_enc [of k] buffer_codec.dec_enc_all [of sealed]
      by (simp add: DecryptInternal_def)
  qed
qed

end
