(* ===== verification/Tickets.thy ===== *)
theory Tickets
  imports Boot Stations Kerberos
begin

text \<open>
  Logging in: the Ticket Granting handlers of common-go (\<^verbatim>\<open>ticket-granting/login.go\<close>, \<^verbatim>\<open>login_ex.go\<close>,
  \<^verbatim>\<open>request_ticket.go\<close>, \<^verbatim>\<open>generate_ticket.go\<close>) as \<^verbatim>\<open>src/nexserver/protocols_authentication.go\<close> sets them
  up, and the secure server's side, \<^verbatim>\<open>ReadKerberosTicket\<close> and the ticket part of \<^verbatim>\<open>handleConnect\<close> in
  \<^verbatim>\<open>prudp_endpoint.go\<close>. Random bytes and the clock are arguments. None is a panic of a handler, which
  nothing recovers. The \<^verbatim>\<open>OnAfter\<close> callbacks are not set in this program.
\<close>

subsection \<open>Library versions\<close>

text \<open>The comparison of \<^verbatim>\<open>golang.org/x/mod/semver\<close> on versions without a suffix is lexicographic.\<close>

definition GreaterOrEqual :: "nat \<times> nat \<times> nat \<Rightarrow> nat \<times> nat \<times> nat \<Rightarrow> bool" where
  "GreaterOrEqual lv compare =
     (case (lv, compare) of ((a, b, c), (x, y, z)) \<Rightarrow> x < a \<or> x = a \<and> (y < b \<or> y = b \<and> z \<le> c))"

subsection \<open>The protocol and its settings\<close>

record rv_connection_data =
  StructureVersion :: u8
  rv_StationURL :: station_url
  rv_SpecialProtocols :: "u8 list"
  rv_StationURLSpecialProtocols :: station_url
  rv_Time :: u64

definition NewRVConnectionData :: rv_connection_data where
  "NewRVConnectionData =
     \<lparr>StructureVersion = 0, rv_StationURL = NewStationURL [], rv_SpecialProtocols = [],
      rv_StationURLSpecialProtocols = NewStationURL [], rv_Time = 0\<rparr>"

record ticket_granting =
  SecureStationURL :: station_url
  SpecialProtocols :: "u8 list"
  StationURLSpecialProtocols :: station_url
  tg_BuildName :: string
  allowInsecureLoginMethod :: bool
  tg_SessionKeyLength :: nat
  tg_SecureServerAccount :: nex_account
  SourceKeyFromToken :: "(nex_account \<Rightarrow> login_data \<Rightarrow> nex_error + bytes) option"
  ValidateLoginData :: "(u64 \<Rightarrow> login_data \<Rightarrow> nex_error option) option"

definition NewCommonProtocol :: "nex_account \<Rightarrow> ticket_granting" where
  "NewCommonProtocol none =
     \<lparr>SecureStationURL = NewStationURL ''prudp:/'', SpecialProtocols = [],
      StationURLSpecialProtocols = NewStationURL [], tg_BuildName = [], allowInsecureLoginMethod = False,
      tg_SessionKeyLength = 32, tg_SecureServerAccount = none, SourceKeyFromToken = None,
      ValidateLoginData = None\<rparr>"

text \<open>The account is a nil pointer until it is assigned, so its initial value does not matter.\<close>

definition registerAuthenticationProtocols :: "accounts \<Rightarrow> ticket_granting" where
  "registerAuthenticationProtocols g =
     (NewCommonProtocol (SecureServerAccount g))\<lparr>
        SecureStationURL := secureStationURL g,
        tg_SecureServerAccount := SecureServerAccount g,
        tg_BuildName := BuildName,
        tg_SessionKeyLength := 32,
        ValidateLoginData := Some (\<lambda>_. validateLoginData)\<rparr>"

text \<open>What a server knows while it handles a request.\<close>

record ticket_env =
  tk_accounts_env :: account_env
  tk_accounts :: accounts
  tk_settings :: ticket_settings
  tk_version :: "nat \<times> nat \<times> nat"
  tk_sessionKey :: "string + bytes"
  tk_ticketKey :: "string + bytes"
  tk_now :: timestamp

definition settings_of :: "server_config \<Rightarrow> bool \<Rightarrow> ticket_settings" where
  "settings_of srv useHeader =
     \<lparr>KerberosTicketVersion = int (srv_KerberosTicketVersion srv), SessionKeyLength = srv_SessionKeyLength srv,
      stream = NewByteStreamSettings\<lparr>UseStructureHeader := useHeader\<rparr>\<rparr>"

abbreviation TGP :: string where "TGP \<equiv> ''ticketgranting.ProtocolID''"

type_synonym ticket_reply = "(nex_error + rv_connection_data response) option"

definition Authentication_Unknown :: u32 where "Authentication_Unknown = 0x0068000E"

subsection \<open>The ticket\<close>

definition generateTicket ::
  "ticket_env \<Rightarrow> nex_account option \<Rightarrow> nex_account option \<Rightarrow> bytes option \<Rightarrow> (nex_error + bytes) option" where
  "generateTicket K source target sourceKey0 =
     (case (source, target) of
        (Some src, Some tgt) \<Rightarrow>
          (let S = tk_settings K;
               sourceKey = (case sourceKey0 of
                   None \<Rightarrow> DeriveKerberosKey (acc_PID src) (bytes_of_string (acc_Password src))
                 | Some k \<Rightarrow> k);
               targetKey = DeriveKerberosKey (acc_PID tgt) (bytes_of_string (acc_Password tgt))
           in case tk_sessionKey K of
                Inl _ \<Rightarrow> Some (Inl (NewError Authentication_Unknown ''Failed to generate session key''))
              | Inr sessionKey \<Rightarrow>
                  (case EncryptInternal S (tk_ticketKey K) targetKey
                          \<lparr>Issued = FromTimestamp (tk_now K), SourcePID = acc_PID src, td_SessionKey = sessionKey\<rparr> of
                     Panic \<Rightarrow> None
                   | Failed _ \<Rightarrow> Some (Inl (NewError Authentication_Unknown ''Failed to encrypt Ticket Internal Data''))
                   | Done internal \<Rightarrow>
                       (case EncryptTicket S sourceKey
                               \<lparr>kt_SessionKey = sessionKey, TargetPID = acc_PID tgt, InternalData = internal\<rparr> of
                          Panic \<Rightarrow> None
                        | Failed _ \<Rightarrow> Some (Inl (NewError Authentication_Unknown ''Failed to encrypt Ticket''))
                        | Done ticket \<Rightarrow> Some (Inr ticket))))
      | _ \<Rightarrow> Some (Inl (NewError Authentication_Unknown ''Source or target account is nil'')))"

subsection \<open>The handlers\<close>

text \<open>The answer to a login: an error travels in the result code, with every other field empty.\<close>

definition login_body ::
  "ticket_env \<Rightarrow> ticket_granting \<Rightarrow> nex_error + (u64 \<times> bytes) \<Rightarrow> rv_connection_data wire list" where
  "login_body K P r =
     (case r of
        Inl errorCode \<Rightarrow>
          [WU32 (NewQResultError (ResultCode errorCode)), WPID 0, WBuffer [], WStruct NewRVConnectionData, WString []]
      | Inr (pid, encryptedTicket) \<Rightarrow>
          [WU32 (NewQResultSuccess Core_Unknown), WPID pid, WBuffer encryptedTicket,
           WStruct (NewRVConnectionData\<lparr>
             rv_StationURL := SecureStationURL P, rv_SpecialProtocols := SpecialProtocols P,
             rv_StationURLSpecialProtocols := StationURLSpecialProtocols P, rv_Time := FromTimestamp (tk_now K),
             StructureVersion := (if GreaterOrEqual (tk_version K) (3, 5, 0) then 1 else 0)\<rparr>),
           WString (tg_BuildName P)])"

text \<open>A ticket or the error that prevented it; the outer None is a panic.\<close>

definition login :: "ticket_env \<Rightarrow> ticket_granting \<Rightarrow> u32 \<Rightarrow> string option \<Rightarrow> string \<Rightarrow> ticket_reply" where
  "login K P callID err strUserName =
     (case err of
        Some e \<Rightarrow> Some (Inl (NewError Core_InvalidArgument e))
      | None \<Rightarrow>
          (let A = tk_accounts_env K; g = tk_accounts K;
               reply = (\<lambda>r. Some (Inr (respond TGP ''MethodLogin'' callID (login_body K P r)))) in
           if \<not> allowInsecureLoginMethod P
           then reply (Inl (NewError Authentication_ValidationFailed ''TicketGranting::Login blocked''))
           else case AccountDetailsByUsername A g strUserName of
             Inl errorCode \<Rightarrow> reply (Inl errorCode)
           | Inr sourceAccount \<Rightarrow>
               (case AccountDetailsByUsername A g (acc_Username (tg_SecureServerAccount P)) of
                  Inl errorCode \<Rightarrow> reply (Inl errorCode)
                | Inr targetAccount \<Rightarrow>
                    if acc_RequiresToken sourceAccount
                    then reply (Inl (NewError Authentication_ValidationFailed
                           ''Source account requires token authentication''))
                    else case generateTicket K (Some sourceAccount) (Some targetAccount) None of
                      None \<Rightarrow> None
                    | Some (Inl errorCode) \<Rightarrow> reply (Inl errorCode)
                    | Some (Inr ticket) \<Rightarrow> reply (Inr (acc_PID sourceAccount, ticket)))))"

definition loginEx ::
  "ticket_env \<Rightarrow> ticket_granting \<Rightarrow> u32 \<Rightarrow> string option \<Rightarrow> string \<Rightarrow> login_data \<Rightarrow> ticket_reply" where
  "loginEx K P callID err strUserName oExtraData =
     (case ValidateLoginData P of
        None \<Rightarrow> Some (Inl (NewError Core_NotImplemented ''TicketGranting::LoginEx missing ValidateLoginData!''))
      | Some validate \<Rightarrow>
     (case err of
        Some e \<Rightarrow> Some (Inl (NewError Core_InvalidArgument e))
      | None \<Rightarrow>
          (let A = tk_accounts_env K; g = tk_accounts K; v4 = GreaterOrEqual (tk_version K) (4, 0, 0);
               reply = (\<lambda>key r. Some (Inr (respond TGP ''MethodLoginEx'' callID
                 (login_body K P r @ (if v4 then [WString key] else []))))) in
           case AccountDetailsByUsername A g strUserName of
             Inl errorCode \<Rightarrow> reply [] (Inl errorCode)
           | Inr sourceAccount \<Rightarrow>
               (case validate (acc_PID sourceAccount) oExtraData of
                  Some errorCode \<Rightarrow> reply [] (Inl errorCode)
                | None \<Rightarrow>
                    (case AccountDetailsByUsername A g (acc_Username (tg_SecureServerAccount P)) of
                       Inl errorCode \<Rightarrow> reply [] (Inl errorCode)
                     | Inr targetAccount \<Rightarrow>
                         (case (if acc_RequiresToken sourceAccount
                                then map_option (\<lambda>f. map_sum id Some (f sourceAccount oExtraData)) (SourceKeyFromToken P)
                                else Some (Inr None)) of
                            None \<Rightarrow> None
                          | Some (Inl errorCode) \<Rightarrow> reply [] (Inl errorCode)
                          | Some (Inr sourceKey) \<Rightarrow>
                              (case generateTicket K (Some sourceAccount) (Some targetAccount) sourceKey of
                                 None \<Rightarrow> None
                               | Some (Inl errorCode) \<Rightarrow> reply [] (Inl errorCode)
                               | Some (Inr ticket) \<Rightarrow>
                                   reply (case sourceKey of None \<Rightarrow> [] | Some k \<Rightarrow> HexEncodeToString k)
                                     (Inr (acc_PID sourceAccount, ticket)))))))))"

definition requestTicket ::
  "ticket_env \<Rightarrow> u32 \<Rightarrow> string option \<Rightarrow> u64 \<Rightarrow> u64 \<Rightarrow> ticket_reply" where
  "requestTicket K callID err idSource idTarget =
     (case err of
        Some e \<Rightarrow> Some (Inl (NewError Core_InvalidArgument e))
      | None \<Rightarrow>
          (let A = tk_accounts_env K; g = tk_accounts K;
               reply = (\<lambda>r. Some (Inr (respond TGP ''MethodRequestTicket'' callID
                 ((case r of
                     Inl errorCode \<Rightarrow> [WU32 (NewQResultError (ResultCode errorCode)), WBuffer []]
                   | Inr ticket \<Rightarrow> [WU32 (NewQResultSuccess Core_Unknown), WBuffer ticket]) @
                  (if GreaterOrEqual (tk_version K) (4, 0, 0) then [WString []] else []))))) in
           case AccountDetailsByPID A g idSource of
             Inl errorCode \<Rightarrow> reply (Inl errorCode)
           | Inr sourceAccount \<Rightarrow>
               (case AccountDetailsByPID A g idTarget of
                  Inl errorCode \<Rightarrow> reply (Inl errorCode)
                | Inr targetAccount \<Rightarrow>
                    if acc_RequiresToken sourceAccount
                    then reply (Inl (NewError Authentication_ValidationFailed
                           ''Source account requires token authentication''))
                    else case generateTicket K (Some sourceAccount) (Some targetAccount) None of
                      None \<Rightarrow> None
                    | Some (Inl errorCode) \<Rightarrow> reply (Inl errorCode)
                    | Some (Inr ticket) \<Rightarrow> reply (Inr ticket))))"

subsection \<open>The secure server\<close>

text \<open>The request is opened with the session key of the ticket and must name the ticket's player.\<close>

definition read_request ::
  "ticket_settings \<Rightarrow> KerberosTicketInternalData \<Rightarrow> bytes \<Rightarrow> (bytes \<times> u64 \<times> u32) outcome" where
  "read_request S ticket requestData =
     (case Decrypt (td_SessionKey ticket) requestData of
        Panic \<Rightarrow> Panic
      | Failed e \<Rightarrow> Failed e
      | Done decryptedRequestData \<Rightarrow>
     (case read_pid (stream S) decryptedRequestData of
        None \<Rightarrow> Failed UserPIDUnread
      | Some (userPID, r2) \<Rightarrow>
          if userPID \<noteq> SourcePID ticket then Failed SourcePIDMismatch
          else
     (case read_u32 r2 of
        None \<Rightarrow> Failed ConnectionIDUnread
      | Some (_, r3) \<Rightarrow>
     (case read_u32 r3 of
        None \<Rightarrow> Failed CheckUnread
      | Some (responseCheck, _) \<Rightarrow> Done (td_SessionKey ticket, userPID, responseCheck)))))"

definition ReadKerberosTicket ::
  "ticket_settings \<Rightarrow> account_env \<Rightarrow> accounts \<Rightarrow> nex_account \<Rightarrow> timestamp \<Rightarrow> bytes \<Rightarrow> (bytes \<times> u64 \<times> u32) outcome" where
  "ReadKerberosTicket S A g ServerAccount serverTime payload =
     (case read_buffer payload of
        None \<Rightarrow> Failed PayloadUnread
      | Some (ticketData, r1) \<Rightarrow>
     (case read_buffer r1 of
        None \<Rightarrow> Failed RequestUnread
      | Some (requestData, _) \<Rightarrow>
     (case AccountDetailsByUsername A g (acc_Username ServerAccount) of
        Inl _ \<Rightarrow> Failed NoServerAccount
      | Inr serverAccount \<Rightarrow>
          if acc_Password serverAccount \<noteq> acc_Password ServerAccount then Failed ServerPasswordMismatch
          else
     (case DecryptInternal S ticketData
             (DeriveKerberosKey (acc_PID serverAccount) (bytes_of_string (acc_Password serverAccount))) of
        Panic \<Rightarrow> Panic
      | Failed e \<Rightarrow> Failed e
      | Done ticket \<Rightarrow>
          if UnixNano serverTime > 10 ^ 9 * (Standard (Issued ticket) + 120) then Failed TicketExpired
          else read_request S ticket requestData))))"

text \<open>The ticket part of a CONNECT: the connection gets the player's PID and the session key, and the
  console its check value plus one.\<close>

definition handleConnect ::
  "ticket_settings \<Rightarrow> account_env \<Rightarrow> accounts \<Rightarrow> nex_account \<Rightarrow> timestamp \<Rightarrow> connection \<Rightarrow> bytes \<Rightarrow>
   (connection \<times> bytes \<times> bytes) outcome" where
  "handleConnect S A g ServerAccount serverTime c decompressedPayload =
     (case ReadKerberosTicket S A g ServerAccount serverTime decompressedPayload of
        Panic \<Rightarrow> Panic
      | Failed e \<Rightarrow> Failed e
      | Done (sessionKey, pid, checkValue) \<Rightarrow>
          Done (c\<lparr>conn_PID := pid\<rparr>, sessionKey, write_buffer (le_bytes 4 (unat (checkValue + 1)))))"

end
