(* ===== verification/TicketTheorems.thy ===== *)
theory TicketTheorems
  imports Tickets StationTheorems
begin

text \<open>
  What a login is worth: the console that knows its password gets into the secure server with the
  ticket of the authentication server, nobody else does, and what a malformed CONNECT does to the
  server. The console's side is written with the encoders of \<^verbatim>\<open>nex-go\<close>.
\<close>

subsection \<open>The console\<close>

definition open_ticket :: "ticket_settings \<Rightarrow> bytes \<Rightarrow> bytes \<Rightarrow> (bytes \<times> u64 \<times> bytes) option" where
  "open_ticket S key ticket =
     (case Decrypt key ticket of
        Done text \<Rightarrow>
          Option.bind (read_bytes (SessionKeyLength S) text) (\<lambda>(sk, r1).
          Option.bind (read_pid (stream S) r1) (\<lambda>(target, r2).
          map_option (\<lambda>(internal, _). (sk, target, internal)) (read_buffer r2)))
      | _ \<Rightarrow> None)"

definition request_data :: "ticket_settings \<Rightarrow> u64 \<Rightarrow> u32 \<Rightarrow> u32 \<Rightarrow> bytes" where
  "request_data S pid cid check =
     write_pid (stream S) pid @ le_bytes 4 (unat cid) @ le_bytes 4 (unat check)"

definition connect_payload :: "ticket_settings \<Rightarrow> bytes \<Rightarrow> bytes \<Rightarrow> u64 \<Rightarrow> u32 \<Rightarrow> u32 \<Rightarrow> bytes" where
  "connect_payload S sk internal pid cid check =
     (case Encrypt sk (request_data S pid cid check) of
        Done sealed \<Rightarrow> write_buffer internal @ write_buffer sealed
      | _ \<Rightarrow> [])"

subsection \<open>Lemmas\<close>

text \<open>Both servers read and write PIDs in four bytes.\<close>

lemma settings_of_simps [simp]:
  "PIDSize (stream (settings_of srv h)) = 4"
  "KerberosTicketVersion (settings_of srv h) = int (srv_KerberosTicketVersion srv)"
  "SessionKeyLength (settings_of srv h) = srv_SessionKeyLength srv"
  by (simp_all add: settings_of_def NewByteStreamSettings_def)

lemma config_simps [simp]:
  "srv_KerberosTicketVersion (authentication_config c g) = 0" "srv_SessionKeyLength (authentication_config c g) = 32"
  "srv_KerberosTicketVersion (secure_config c g) = 0" "srv_SessionKeyLength (secure_config c g) = 32"
  "srv_ServerAccount (secure_config c g) = SecureServerAccount g"
  by (simp_all add: authentication_config_def secure_config_def kerberosTicketVersion_def sessionKeyLength_def)

lemma write_pid_settings: "write_pid (stream (settings_of srv h)) p = le_bytes 4 (unat p)"
  by (simp add: write_pid_def)

lemma secure_account_by_name:
  assumes "accounts_ok g"
  shows "AccountDetailsByUsername A g (acc_Username (SecureServerAccount g)) = Inr (SecureServerAccount g)"
  using assms by (auto simp: AccountDetailsByUsername_def accounts_ok_def NewAccount_def)

lemma no_token_accounts:
  assumes "accounts_ok g" and "AccountDetailsByUsername A g name = Inr a"
  shows "\<not> acc_RequiresToken a"
proof -
  have "\<not> acc_RequiresToken (AuthenticationServerAccount g)" "\<not> acc_RequiresToken (SecureServerAccount g)"
    "\<forall>b. guestAccount g = Some b \<longrightarrow> \<not> acc_RequiresToken b"
    using assms(1) by (auto simp: accounts_ok_def NewAccount_def)
  then show ?thesis
    using assms(2) by (auto simp: AccountDetailsByUsername_def NewAccount_def
        split: if_splits option.splits sum.splits)
qed

lemma le_bytes_of_le: "le_bytes (length bs) (of_le bs) = bs"
proof (induction bs)
  case (Cons b bs)
  have "(unat b + 256 * of_le bs) mod 256 = unat b" "(unat b + 256 * of_le bs) div 256 = of_le bs"
    using unsigned_less [of b, where ?'a = nat] by simp_all
  then show ?case using Cons by simp
qed simp

lemma read_le_Some: "read_le k bs = Some (n, r) \<Longrightarrow> bs = le_bytes k n @ r \<and> n < 256 ^ k"
  using le_bytes_of_le [of "take k bs"] of_le_bound [of "take k bs"]
  by (auto simp: read_le_def read_bytes_def min_def split: if_splits)

lemma read_u32_Some: "read_u32 bs = Some (x, r) \<longleftrightarrow> bs = le_bytes 4 (unat x) @ r"
proof
  assume "read_u32 bs = Some (x, r)"
  then obtain n where "read_le 4 bs = Some (n, r)" "x = of_nat n" by (auto simp: read_u32_def)
  then show "bs = le_bytes 4 (unat x) @ r" using read_le_Some [of 4 bs n r] by (simp add: unat_of_nat)
qed (simp add: u32_codec.dec_enc)

lemma read_u64_Some: "read_u64 bs = Some (x, r) \<longleftrightarrow> bs = le_bytes 8 (unat x) @ r"
proof
  assume "read_u64 bs = Some (x, r)"
  then obtain n where "read_le 8 bs = Some (n, r)" "x = of_nat n" by (auto simp: read_u64_def)
  then show "bs = le_bytes 8 (unat x) @ r" using read_le_Some [of 8 bs n r] by (simp add: unat_of_nat)
qed (simp add: u64_codec.dec_enc)

lemma unat_ucast_u32: "unat (ucast (x :: u32) :: u64) = unat x"
  by (simp add: unsigned_ucast_eq take_bit_nat_eq_self_iff) (use unsigned_less [of x, where ?'a = nat] in simp)

lemma read_pid_Some:
  "read_pid (stream (settings_of srv h)) bs = Some (p, r) \<longleftrightarrow> bs = le_bytes 4 (unat p) @ r \<and> narrow_pid p"
  (is "?read \<longleftrightarrow> ?wrote")
proof
  assume ?read
  then obtain x where "read_u32 bs = Some (x, r)" "p = ucast x" by (auto simp: read_pid_def)
  then show ?wrote
    using unsigned_less [of x, where ?'a = nat] by (simp add: read_u32_Some unat_ucast_u32 narrow_pid_def)
next
  assume ?wrote
  then show ?read
    using read_written_pid [of "stream (settings_of srv h)" p r] by (simp add: write_pid_settings narrow_pid_ucast)
qed

lemma read_bytes_Some: "read_bytes k bs = Some (x, r) \<longleftrightarrow> bs = x @ r \<and> length x = k"
  by (auto simp: read_bytes_def)

lemma read_internal_Done:
  "read_internal (settings_of srv h) bs = Done ti \<longleftrightarrow>
   (\<exists>extra. bs = internal_bytes (settings_of srv h) ti @ extra \<and> narrow_pid (SourcePID ti) \<and>
      length (td_SessionKey ti) = srv_SessionKeyLength srv)" (is "?read \<longleftrightarrow> ?wrote")
proof
  assume ?read
  then show ?wrote
    by (auto simp: read_internal_def internal_bytes_def write_pid_settings read_u64_Some read_pid_Some
        read_bytes_Some split: option.splits)
next
  assume ?wrote
  then obtain extra where bs: "bs = internal_bytes (settings_of srv h) ti @ extra" "narrow_pid (SourcePID ti)"
    "length (td_SessionKey ti) = srv_SessionKeyLength srv" by blast
  have "read_bytes (srv_SessionKeyLength srv) (td_SessionKey ti @ extra) = Some (td_SessionKey ti, extra)"
    using bs(3) by (simp add: read_bytes_Some)
  then show ?read
    using bs(2) by (simp add: bs(1) read_internal_def internal_bytes_def u64_codec.dec_enc pid_codec.dec_enc)
qed

subsection \<open>Tickets\<close>

text \<open>A ticket of the authentication server: what is inside, and what the console reads.\<close>

lemma generateTicket_opens:
  assumes "tk_settings K = settings_of (authentication_config c g) h" and "tk_sessionKey K = Inr sk"
    and "length sk = 32" and "narrow_pid (acc_PID target)"
    and "ti = \<lparr>Issued = FromTimestamp (tk_now K), SourcePID = acc_PID source, td_SessionKey = sk\<rparr>"
  shows "\<exists>ticket internal. generateTicket K (Some source) (Some target) None = Some (Inr ticket) \<and>
    Encrypt (DeriveKerberosKey (acc_PID target) (bytes_of_string (acc_Password target)))
      (internal_bytes (tk_settings K) ti) = Done internal \<and>
    open_ticket (tk_settings K) (DeriveKerberosKey (acc_PID source) (bytes_of_string (acc_Password source))) ticket =
      Some (sk, acc_PID target, internal)"
proof -
  let ?S = "tk_settings K"
  let ?key = "\<lambda>a. DeriveKerberosKey (acc_PID a) (bytes_of_string (acc_Password a))"
  obtain internal where internal: "Encrypt (?key target) (internal_bytes ?S ti) = Done internal"
    using Encrypt_usable [of "?key target"] by auto
  let ?text = "sk @ write_pid (stream ?S) (acc_PID target) @ write_buffer internal"
  obtain ticket where ticket: "Encrypt (?key source) ?text = Done ticket"
    using Encrypt_usable [of "?key source"] by auto
  have opens: "Decrypt (?key source) ticket = Done ?text" using ticket by (simp add: Decrypt_Done)
  have "length internal < 2 ^ 32"
    using Encrypt_length [OF internal] assms(1,3,5) by (simp add: internal_bytes_def write_pid_settings)
  then have "read_buffer (write_buffer internal) = Some (internal, [])" by (rule buffer_codec.dec_enc_all)
  moreover have "read_bytes 32 ?text = Some (sk, write_pid (stream ?S) (acc_PID target) @ write_buffer internal)"
    using assms(3) by (simp add: read_bytes_Some)
  ultimately have "open_ticket ?S (?key source) ticket = Some (sk, acc_PID target, internal)"
    using opens assms(1,4) by (simp add: open_ticket_def pid_codec.dec_enc)
  moreover have "generateTicket K (Some source) (Some target) None = Some (Inr ticket)"
    using assms(1,2,5) internal ticket
    by (simp add: generateTicket_def Let_def EncryptInternal_def EncryptTicket_def)
  ultimately show ?thesis using internal by blast
qed

text \<open>A valid login of a known account is answered with its ticket and the redirection to the secure server.\<close>

lemma loginEx_ticket:
  assumes "accounts_ok (tk_accounts K)" and "g = tk_accounts K"
    and "AccountDetailsByUsername (tk_accounts_env K) g userName = Inr account"
    and "validateLoginData loginData = None" and "tk_version K = NEXVersion"
    and "generateTicket K (Some account) (Some (SecureServerAccount g)) None = Some (Inr ticket)"
  shows "loginEx K (registerAuthenticationProtocols g) callID None userName loginData =
    Some (Inr (respond TGP ''MethodLoginEx'' callID
      [WU32 (NewQResultSuccess Core_Unknown), WPID (acc_PID account), WBuffer ticket,
       WStruct (NewRVConnectionData\<lparr>rv_StationURL := secureStationURL g, rv_Time := FromTimestamp (tk_now K),
             StructureVersion := 1\<rparr>), WString BuildName]))"
  using assms no_token_accounts [OF assms(1), of "tk_accounts_env K" userName]
    secure_account_by_name [OF assms(1), of "tk_accounts_env K"]
  by (simp add: loginEx_def registerAuthenticationProtocols_def NewCommonProtocol_def Let_def login_body_def
      GreaterOrEqual_def NEXVersion_def NewRVConnectionData_def)

text \<open>The secure server takes exactly the payloads whose ticket was sealed under its own key and whose request
  was sealed under the session key inside, by the player the ticket names.\<close>

definition admits ::
  "ticket_settings \<Rightarrow> nex_account \<Rightarrow> timestamp \<Rightarrow> bytes \<Rightarrow> bytes \<Rightarrow> u64 \<Rightarrow> u32 \<Rightarrow> bool" where
  "admits S a now payload sk pid check \<longleftrightarrow>
     (\<exists>ticketData requestData issued cid rest end1 end2.
        payload = write_buffer ticketData @ write_buffer requestData @ rest \<and>
        length ticketData < 2 ^ 32 \<and> length requestData < 2 ^ 32 \<and>
        Encrypt (DeriveKerberosKey (acc_PID a) (bytes_of_string (acc_Password a)))
          (internal_bytes S \<lparr>Issued = issued, SourcePID = pid, td_SessionKey = sk\<rparr> @ end1) = Done ticketData \<and>
        Encrypt sk (request_data S pid cid check @ end2) = Done requestData \<and>
        length sk = SessionKeyLength S \<and> narrow_pid pid \<and>
        UnixNano now \<le> 10 ^ 9 * (Standard issued + 120))"

lemma admitsI:
  assumes "Encrypt (DeriveKerberosKey (acc_PID a) (bytes_of_string (acc_Password a)))
      (internal_bytes S \<lparr>Issued = issued, SourcePID = pid, td_SessionKey = sk\<rparr>) = Done ticketData"
    and "Encrypt sk (request_data S pid cid check) = Done requestData"
    and "length ticketData < 2 ^ 32" "length requestData < 2 ^ 32"
    and "length sk = SessionKeyLength S" "narrow_pid pid" "UnixNano now \<le> 10 ^ 9 * (Standard issued + 120)"
  shows "admits S a now (write_buffer ticketData @ write_buffer requestData) sk pid check"
proof -
  have "write_buffer ticketData @ write_buffer requestData = write_buffer ticketData @ write_buffer requestData @ []"
    "internal_bytes S \<lparr>Issued = issued, SourcePID = pid, td_SessionKey = sk\<rparr> =
     internal_bytes S \<lparr>Issued = issued, SourcePID = pid, td_SessionKey = sk\<rparr> @ []"
    "request_data S pid cid check = request_data S pid cid check @ []" by simp_all
  with assms show ?thesis unfolding admits_def by metis
qed

lemma read_buffer_Some: "read_buffer bs = Some (b, r) \<longleftrightarrow> bs = write_buffer b @ r \<and> length b < 2 ^ 32"
proof
  assume "read_buffer bs = Some (b, r)"
  then obtain n rest where "read_le 4 bs = Some (n, rest)" "read_bytes n rest = Some (b, r)"
    by (auto simp: read_buffer_def split: option.splits)
  then show "bs = write_buffer b @ r \<and> length b < 2 ^ 32"
    using read_le_Some [of 4 bs n rest] by (simp add: read_bytes_Some write_buffer_def)
qed (simp add: buffer_codec.dec_enc)

lemma secure_settings_open:
  assumes "S = settings_of (secure_config c g) h"
  shows "DecryptInternal S data (DeriveKerberosKey pid password) = Done ti \<longleftrightarrow>
    (\<exists>extra. Encrypt (DeriveKerberosKey pid password) (internal_bytes S ti @ extra) = Done data \<and>
       narrow_pid (SourcePID ti) \<and> length (td_SessionKey ti) = SessionKeyLength S)"
proof -
  have "DecryptInternal S data (DeriveKerberosKey pid password) = Done ti \<longleftrightarrow>
      (\<exists>text. Decrypt (DeriveKerberosKey pid password) data = Done text \<and> read_internal S text = Done ti)"
    by (auto simp: assms DecryptInternal_def open_internal_def split: outcome.splits)
  then show ?thesis unfolding assms read_internal_Done by (auto simp: Decrypt_Done)
qed

lemma read_request_Done:
  assumes "S = settings_of (secure_config c g) h" and "length (td_SessionKey ti) = 32"
  shows "read_request S ti requestData = Done (sk, pid, check) \<longleftrightarrow>
    sk = td_SessionKey ti \<and> pid = SourcePID ti \<and> narrow_pid pid \<and>
    (\<exists>cid end2. Encrypt sk (request_data S pid cid check @ end2) = Done requestData)"
proof -
  have "usable_key (td_SessionKey ti)" using assms(2) by (simp add: usable_key_def)
  then show ?thesis
    unfolding assms(1)
    by (auto simp: read_request_def outcome_Done Decrypt_Done read_pid_Some read_u32_Some request_data_def
        write_pid_settings) blast
qed

lemma ReadKerberosTicket_Done:
  assumes "accounts_ok g" and S: "S = settings_of (secure_config c g) h"
  shows "ReadKerberosTicket S A g (SecureServerAccount g) now payload = Done (sk, pid, check) \<longleftrightarrow>
    admits S (SecureServerAccount g) now payload sk pid check"
proof -
  let ?key = "DeriveKerberosKey (acc_PID (SecureServerAccount g)) (bytes_of_string (acc_Password (SecureServerAccount g)))"
  have "ReadKerberosTicket S A g (SecureServerAccount g) now payload = Done (sk, pid, check) \<longleftrightarrow>
    (\<exists>ticketData r requestData rest ti. read_buffer payload = Some (ticketData, r) \<and>
       read_buffer r = Some (requestData, rest) \<and> DecryptInternal S ticketData ?key = Done ti \<and>
       UnixNano now \<le> 10 ^ 9 * (Standard (Issued ti) + 120) \<and>
       read_request S ti requestData = Done (sk, pid, check))"
    by (auto simp: ReadKerberosTicket_def outcome_Done secure_account_by_name [OF assms(1)] not_less)
  also have "\<dots> \<longleftrightarrow> (\<exists>ticketData r requestData rest ti end1. read_buffer payload = Some (ticketData, r) \<and>
       read_buffer r = Some (requestData, rest) \<and>
       Encrypt ?key (internal_bytes S ti @ end1) = Done ticketData \<and> narrow_pid (SourcePID ti) \<and>
       length (td_SessionKey ti) = SessionKeyLength S \<and>
       UnixNano now \<le> 10 ^ 9 * (Standard (Issued ti) + 120) \<and>
       read_request S ti requestData = Done (sk, pid, check))"
    by (auto simp: secure_settings_open [OF S])
  also have "\<dots> \<longleftrightarrow> admits S (SecureServerAccount g) now payload sk pid check" (is "?steps \<longleftrightarrow> ?admits")
  proof
    assume ?steps
    then obtain ticketData r requestData rest ti end1 where parts:
      "payload = write_buffer ticketData @ write_buffer requestData @ rest"
      "length ticketData < 2 ^ 32 \<and> length requestData < 2 ^ 32"
      "Encrypt ?key (internal_bytes S ti @ end1) = Done ticketData"
      "length (td_SessionKey ti) = SessionKeyLength S" "UnixNano now \<le> 10 ^ 9 * (Standard (Issued ti) + 120)"
      "read_request S ti requestData = Done (sk, pid, check)"
      by (auto simp: read_buffer_Some)
    have "length (td_SessionKey ti) = 32" using parts(4) S by simp
    note request = parts(6) [unfolded read_request_Done [OF S this]]
    then have ti: "ti = \<lparr>Issued = Issued ti, SourcePID = pid, td_SessionKey = sk\<rparr>" by simp
    show ?admits
      unfolding admits_def using parts(1-5) request ti by metis
  next
    assume ?admits
    then obtain ticketData requestData issued cid rest end1 end2 where parts:
      "payload = write_buffer ticketData @ write_buffer requestData @ rest"
      "length ticketData < 2 ^ 32" "length requestData < 2 ^ 32"
      "Encrypt ?key (internal_bytes S \<lparr>Issued = issued, SourcePID = pid, td_SessionKey = sk\<rparr> @ end1) = Done ticketData"
      "Encrypt sk (request_data S pid cid check @ end2) = Done requestData"
      "length sk = SessionKeyLength S" "narrow_pid pid" "UnixNano now \<le> 10 ^ 9 * (Standard issued + 120)"
      unfolding admits_def by blast
    let ?ti = "\<lparr>Issued = issued, SourcePID = pid, td_SessionKey = sk\<rparr>"
    have "length (td_SessionKey ?ti) = 32" using parts(6) S by simp
    then have "read_request S ?ti requestData = Done (sk, pid, check)"
      using parts(5,7) read_request_Done [OF S] by auto
    moreover have "read_buffer payload = Some (ticketData, write_buffer requestData @ rest)"
      "read_buffer (write_buffer requestData @ rest) = Some (requestData, rest)"
      using parts(1-3) by (simp_all add: read_buffer_Some)
    ultimately show ?steps using parts(4,6-8) by fastforce
  qed
  finally show ?thesis .
qed

subsection \<open>Properties\<close>

text \<open>C6: the secure server lets a CONNECT in exactly if its ticket was sealed under the secure server's own key,
  is at most two minutes old, and its request was sealed under the session key in the ticket and names the
  ticket's player. The connection then has that player's PID.\<close>

theorem connect_admits_exactly:
  assumes "accounts_ok g" and "S = settings_of (secure_config c g) h"
  shows "handleConnect S A g (SecureServerAccount g) now conn payload = Done (conn', sk, resp) \<longleftrightarrow>
    (\<exists>pid check. admits S (SecureServerAccount g) now payload sk pid check \<and>
       conn' = conn\<lparr>conn_PID := pid\<rparr> \<and> resp = write_buffer (le_bytes 4 (unat (check + 1))))"
proof -
  have "handleConnect S A g (SecureServerAccount g) now conn payload = Done (conn', sk, resp) \<longleftrightarrow>
    (\<exists>pid check. ReadKerberosTicket S A g (SecureServerAccount g) now payload = Done (sk, pid, check) \<and>
       conn' = conn\<lparr>conn_PID := pid\<rparr> \<and> resp = write_buffer (le_bytes 4 (unat (check + 1))))"
    by (auto simp: handleConnect_def outcome_Done)
  then show ?thesis unfolding ReadKerberosTicket_Done [OF assms] .
qed

definition example_time :: timestamp where
  "example_time = \<lparr>ts_Year = 2024, ts_Month = 2, ts_Day = 29, ts_Hour = 23, ts_Minute = 59, ts_Second = 30,
     ts_Nanosecond = 5\<rparr>"

lemma example_time_ok: "clock_ok example_time"
  by (simp add: clock_ok_def example_time_def)

lemma in_time: "clock_ok t \<Longrightarrow> UnixNano t \<le> 10 ^ 9 * (unix_seconds t + 120)"
  by (simp add: UnixNano_def clock_ok_def)

abbreviation example_secure :: server_config where
  "example_secure \<equiv> secure_config default_config (example_accounts example_settings)"

theorem connect_admits_exactly_witness:
  "\<exists>payload conn' resp. handleConnect (settings_of example_secure True) example_accounts_env
     (example_accounts example_settings) (SecureServerAccount (example_accounts example_settings)) example_time
     example_console payload = Done (conn', replicate 32 0, resp) \<and> conn_PID conn' = 7"
proof -
  let ?a = "SecureServerAccount (example_accounts example_settings)" and ?S = "settings_of example_secure True"
  let ?ti = "\<lparr>Issued = FromTimestamp example_time, SourcePID = 7, td_SessionKey = replicate 32 0\<rparr>"
  let ?key = "DeriveKerberosKey (acc_PID ?a) (bytes_of_string (acc_Password ?a))"
  obtain t where t: "Encrypt ?key (internal_bytes ?S ?ti) = Done t"
    "length t = length (internal_bytes ?S ?ti) + 16"
    using Encrypt_usable [of ?key "internal_bytes ?S ?ti"] by auto
  have "usable_key (replicate 32 0)" by (simp add: usable_key_def)
  then obtain r where r: "Encrypt (replicate 32 0) (request_data ?S 7 5 9) = Done r"
    "length r = length (request_data ?S 7 5 9) + 16"
    using Encrypt_usable by blast
  have "length t < 2 ^ 32 \<and> length r < 2 ^ 32"
    using t(2) r(2) by (simp add: internal_bytes_def request_data_def write_pid_settings)
  then have "admits ?S ?a example_time (write_buffer t @ write_buffer r) (replicate 32 0) 7 9"
    using in_time [OF example_time_ok] Standard_FromTimestamp [OF example_time_ok]
    by (intro admitsI [OF t(1) r(1)]) (simp_all add: narrow_pid_def)
  then show ?thesis
    using connect_admits_exactly [OF example_accounts_ok refl, where A = example_accounts_env] by fastforce
qed

text \<open>C5: in a running process a login takes a console into the secure server. To a valid login of a known account the
  authentication server answers with a ticket that the account's password opens; what is in it, and
  nothing else, is what the console needs for the CONNECT the secure server accepts within two minutes,
  as the player of that account, with the session key in the ticket. This holds whatever the two servers
  think of structure headers.\<close>

theorem login_admits_console:
  assumes "main_boot A E FA FR fs rand env = Running c g r"
    and "AccountDetailsByUsername A g userName = Inr account"
    and "validateLoginData loginData = None" and "narrow_pid (acc_PID account)"
    and "clock_ok (tk_now K)" and "UnixNano t1 \<le> 10 ^ 9 * (unix_seconds (tk_now K) + 120)"
    and "tk_accounts_env K = A" and "tk_accounts K = g" and "tk_version K = NEXVersion"
    and "tk_settings K = settings_of (authentication_config c g) h"
    and "tk_sessionKey K = Inr sk" and "length sk = 32"
    and "S = settings_of (secure_config c g) h'"
    and "key = DeriveKerberosKey (acc_PID account) (bytes_of_string (acc_Password account))"
  shows "\<exists>ticket internal.
    loginEx K (registerAuthenticationProtocols g) callID None userName loginData =
      Some (Inr (respond TGP ''MethodLoginEx'' callID
        [WU32 (NewQResultSuccess Core_Unknown), WPID (acc_PID account), WBuffer ticket,
         WStruct (NewRVConnectionData\<lparr>rv_StationURL := secureStationURL g, rv_Time := FromTimestamp (tk_now K),
             StructureVersion := 1\<rparr>), WString BuildName])) \<and>
    open_ticket S key ticket = Some (sk, acc_PID (SecureServerAccount g), internal) \<and>
    (\<forall>cid check. handleConnect S A g (SecureServerAccount g) t1 conn
        (connect_payload S sk internal (acc_PID account) cid check) =
      Done (conn\<lparr>conn_PID := acc_PID account\<rparr>, sk, write_buffer (le_bytes 4 (unat (check + 1)))))"
proof -
  let ?a = "SecureServerAccount g" and ?S = "tk_settings K"
  note ok = Running_accounts_ok [OF assms(1)]
  define ti where "ti = \<lparr>Issued = FromTimestamp (tk_now K), SourcePID = acc_PID account, td_SessionKey = sk\<rparr>"
  have same: "open_ticket ?S = open_ticket S" "internal_bytes ?S = internal_bytes S"
    by (auto simp: fun_eq_iff assms(10,13) open_ticket_def internal_bytes_def write_pid_settings read_pid_def
        split: outcome.split)
  have "narrow_pid (acc_PID ?a)" using ok by (auto simp: accounts_ok_def NewAccount_def narrow_pid_def)
  from generateTicket_opens [OF assms(10-12) this ti_def]
  obtain ticket internal where ticket: "generateTicket K (Some account) (Some ?a) None = Some (Inr ticket)"
    "Encrypt (DeriveKerberosKey (acc_PID ?a) (bytes_of_string (acc_Password ?a))) (internal_bytes S ti) = Done internal"
    "open_ticket S key ticket = Some (sk, acc_PID ?a, internal)"
    using assms(14) same by auto
  note loginEx_ticket [of K g userName account loginData ticket callID]
  moreover have "handleConnect S A g ?a t1 conn (connect_payload S sk internal (acc_PID account) cid check) =
      Done (conn\<lparr>conn_PID := acc_PID account\<rparr>, sk, write_buffer (le_bytes 4 (unat (check + 1))))" for cid check
  proof -
    have "usable_key sk" using assms(12) by (simp add: usable_key_def)
    then obtain r where r: "Encrypt sk (request_data S (acc_PID account) cid check) = Done r"
      using Encrypt_usable by blast
    have "length internal < 2 ^ 32 \<and> length r < 2 ^ 32"
      using Encrypt_length [OF ticket(2)] Encrypt_length [OF r] assms(12,13)
      by (simp add: internal_bytes_def request_data_def write_pid_settings ti_def)
    then have "admits S ?a t1 (write_buffer internal @ write_buffer r) sk (acc_PID account) check"
      using assms(4,6,12) Standard_FromTimestamp [OF assms(5)]
      by (intro admitsI [OF ticket(2) [unfolded ti_def] r]) (simp_all add: assms(13))
    moreover have "connect_payload S sk internal (acc_PID account) cid check = write_buffer internal @ write_buffer r"
      using r by (simp add: connect_payload_def)
    ultimately have "admits S ?a t1 (connect_payload S sk internal (acc_PID account) cid check) sk (acc_PID account) check"
      by simp
    then have "ReadKerberosTicket S A g ?a t1 (connect_payload S sk internal (acc_PID account) cid check) =
        Done (sk, acc_PID account, check)"
      using ReadKerberosTicket_Done [OF ok assms(13)] by blast
    then show ?thesis by (simp add: handleConnect_def)
  qed
  ultimately show ?thesis using ticket(1,3) ok assms(2,3,7-9) by blast
qed

definition example_login :: "accounts \<Rightarrow> config \<Rightarrow> ticket_env" where
  "example_login g c = \<lparr>tk_accounts_env = example_accounts_env, tk_accounts = g,
     tk_settings = settings_of (authentication_config c g) True, tk_version = NEXVersion,
     tk_sessionKey = Inr (replicate 32 3), tk_ticketKey = Inl [], tk_now = example_time\<rparr>"

lemma guest_login:
  "accounts_ok g \<Longrightarrow> AccountDetailsByUsername A g ''guest'' =
     Inr (NewAccount 100 guestAccountUsername guestAccountPassword False)"
  by (auto simp: AccountDetailsByUsername_def accounts_ok_def NewAccount_def guestAccountUsername_def)

theorem login_admits_console_witness:
  "\<exists>c g r. example_process = Running c g r \<and>
     (\<exists>internal. \<forall>cid check. handleConnect (settings_of (secure_config c g) False) example_accounts_env g
        (SecureServerAccount g) example_time example_console
        (connect_payload (settings_of (secure_config c g) False) (replicate 32 3) internal 100 cid check) =
      Done (example_console\<lparr>conn_PID := 100\<rparr>, replicate 32 3, write_buffer (le_bytes 4 (unat (check + 1)))))"
proof -
  let ?guest = "NewAccount 100 guestAccountUsername guestAccountPassword False"
  obtain c g r where run: "example_process = Running c g r" using example_boot by blast
  note boot = run [unfolded example_process_def]
  have "validateLoginData (Some (Some ''AuthenticationInfo'')) = None"
    by (simp add: validateLoginData_def)
  moreover have "narrow_pid (acc_PID ?guest)" "acc_PID ?guest = 100"
    by (simp_all add: NewAccount_def narrow_pid_def)
  moreover have "clock_ok (tk_now (example_login g c))"
    "UnixNano example_time \<le> 10 ^ 9 * (unix_seconds (tk_now (example_login g c)) + 120)"
    using example_time_ok in_time [OF example_time_ok] by (simp_all add: example_login_def)
  ultimately have "\<exists>internal. \<forall>cid check. handleConnect (settings_of (secure_config c g) False) example_accounts_env g
        (SecureServerAccount g) example_time example_console
        (connect_payload (settings_of (secure_config c g) False) (replicate 32 3) internal 100 cid check) =
      Done (example_console\<lparr>conn_PID := 100\<rparr>, replicate 32 3, write_buffer (le_bytes 4 (unat (check + 1))))"
    using login_admits_console [OF boot guest_login [OF Running_accounts_ok [OF boot]],
        where K = "example_login g c" and h = True and h' = False and conn = example_console
        and loginData = "Some (Some ''AuthenticationInfo'')" and sk = "replicate 32 3",
        OF _ _ _ _ _ _ _ _ _ _ refl refl]
    by (fastforce simp: example_login_def)
  then show ?thesis using run by blast
qed

text \<open>C25: a CONNECT whose ticket is shorter than its checksum panics the secure server: the checksum is cut off
  before the length is looked at, and nothing recovers. No login is needed for it.\<close>

theorem short_ticket_panics:
  assumes "accounts_ok g" and "S = settings_of (secure_config c g) h"
    and "length ticketData < 16" and "length requestData < 2 ^ 32"
  shows "handleConnect S A g (SecureServerAccount g) now conn (write_buffer ticketData @ write_buffer requestData) =
    Panic"
proof -
  have "read_buffer (write_buffer ticketData @ write_buffer requestData) = Some (ticketData, write_buffer requestData)"
    "read_buffer (write_buffer requestData) = Some (requestData, [])"
    using assms(3,4) by (simp_all add: buffer_codec.dec_enc buffer_codec.dec_enc_all)
  then show ?thesis
    using secure_account_by_name [OF assms(1), of A] Decrypt_short [OF assms(3)]
    by (simp add: handleConnect_def ReadKerberosTicket_def DecryptInternal_def open_internal_def assms(2))
qed

theorem short_ticket_panics_witness:
  "handleConnect (settings_of example_secure True) example_accounts_env (example_accounts example_settings)
     (SecureServerAccount (example_accounts example_settings)) example_time example_console
     (write_buffer [] @ write_buffer []) = Panic"
  by (rule short_ticket_panics [OF example_accounts_ok refl]) simp_all

end
