(* ===== verification/Utility.thy ===== *)
theory Utility
  imports AccountTheorems
begin

text \<open>
  The Utility protocol (\<^verbatim>\<open>src/nexserver/handlers_utility.go\<close>): stable identifiers derived from a player's
  PID, and the associations a player can make to override its own. The structure \<^verbatim>\<open>UniqueIDInfo\<close> of
  \<^verbatim>\<open>nex-protocols-go\<close> is a record with the two fields the handlers use; HMAC-SHA256 is the parameter of
  \<^verbatim>\<open>account_env\<close>. The map of associations has a lock of its own, so a handler is one step.
\<close>

record unique_id_info =
  NEXUniqueID :: u64
  NEXUniqueIDPassword :: u64

type_synonym associations = "u64 \<rightharpoonup> unique_id_info list"

abbreviation UTP :: string where "UTP \<equiv> ''utility.ProtocolID''"

type_synonym utility_reply = "nex_error + unique_id_info response"

subsection \<open>Identifiers\<close>

definition utilityID :: "account_env \<Rightarrow> accounts \<Rightarrow> u64 \<Rightarrow> unique_id_info" where
  "utilityID A g pid =
     (let secret = bytes_of_string (AccountSecret (Settings g));
          pidBytes = le_bytes 8 (unat pid);
          digest = HMAC_SHA256 A secret (bytes_of_string ''fast-racing-neo:unique-id:'' @ pidBytes);
          id0 = of_nat (of_le (take 8 digest)) :: u64;
          id1 = (if id0 = 0 then pid + 1 else id0);
          digest2 = HMAC_SHA256 A secret (bytes_of_string ''fast-racing-neo:unique-password:'' @ pidBytes);
          password = of_nat (of_le (take 8 digest2)) :: u64
      in \<lparr>NEXUniqueID = id1, NEXUniqueIDPassword = password\<rparr>)"

definition utilitySuccess :: "u32 \<Rightarrow> string \<Rightarrow> unique_id_info wire list \<Rightarrow> utility_reply" where
  "utilitySuccess callID methodID body = Inr (respond UTP methodID callID body)"

subsection \<open>Handlers\<close>

definition acquireNexUniqueID ::
  "account_env \<Rightarrow> accounts \<Rightarrow> u64 \<Rightarrow> u32 \<Rightarrow> string option \<Rightarrow> utility_reply" where
  "acquireNexUniqueID A g pid callID err =
     (case err of
        Some e \<Rightarrow> Inl (NewError Core_InvalidArgument e)
      | None \<Rightarrow> utilitySuccess callID ''MethodAcquireNexUniqueID'' [WU64 (NEXUniqueID (utilityID A g pid))])"

definition acquireNexUniqueIDWithPassword ::
  "account_env \<Rightarrow> accounts \<Rightarrow> u64 \<Rightarrow> u32 \<Rightarrow> string option \<Rightarrow> utility_reply" where
  "acquireNexUniqueIDWithPassword A g pid callID err =
     (case err of
        Some e \<Rightarrow> Inl (NewError Core_InvalidArgument e)
      | None \<Rightarrow> utilitySuccess callID ''MethodAcquireNexUniqueIDWithPassword''
          [WStruct (utilityID A g pid)])"

definition associateNexUniqueID ::
  "associations \<Rightarrow> u64 \<Rightarrow> u32 \<Rightarrow> string option \<Rightarrow> unique_id_info \<Rightarrow> associations \<times> utility_reply" where
  "associateNexUniqueID byPID pid callID err info =
     (case err of
        Some e \<Rightarrow> (byPID, Inl (NewError Core_InvalidArgument e))
      | None \<Rightarrow>
          (if NEXUniqueID info = 0 then byPID(pid := None) else byPID(pid \<mapsto> [info]),
           utilitySuccess callID ''MethodAssociateNexUniqueIDWithMyPrincipalID'' []))"

definition associateNexUniqueIDs ::
  "associations \<Rightarrow> u64 \<Rightarrow> u32 \<Rightarrow> string option \<Rightarrow> unique_id_info list \<Rightarrow> associations \<times> utility_reply" where
  "associateNexUniqueIDs byPID pid callID err infos =
     (case err of
        Some e \<Rightarrow> (byPID, Inl (NewError Core_InvalidArgument e))
      | None \<Rightarrow> (byPID(pid \<mapsto> infos),
                 utilitySuccess callID ''MethodAssociateNexUniqueIDsWithMyPrincipalID'' []))"

text \<open>A missing association reads as the empty list; no player is ever left without an identifier.\<close>

definition associatedUtilityIDs ::
  "account_env \<Rightarrow> accounts \<Rightarrow> associations \<Rightarrow> u64 \<Rightarrow> unique_id_info list" where
  "associatedUtilityIDs A g byPID pid =
     (let infos = (case byPID pid of None \<Rightarrow> [] | Some l \<Rightarrow> l)
      in if infos = [] then [utilityID A g pid] else infos)"

definition getAssociatedNexUniqueID ::
  "account_env \<Rightarrow> accounts \<Rightarrow> associations \<Rightarrow> u64 \<Rightarrow> u32 \<Rightarrow> string option \<Rightarrow> utility_reply" where
  "getAssociatedNexUniqueID A g byPID pid callID err =
     (case err of
        Some e \<Rightarrow> Inl (NewError Core_InvalidArgument e)
      | None \<Rightarrow> utilitySuccess callID ''MethodGetAssociatedNexUniqueIDWithMyPrincipalID''
          [WStruct (associatedUtilityIDs A g byPID pid ! 0)])"

definition getAssociatedNexUniqueIDs ::
  "account_env \<Rightarrow> accounts \<Rightarrow> associations \<Rightarrow> u64 \<Rightarrow> u32 \<Rightarrow> string option \<Rightarrow> utility_reply" where
  "getAssociatedNexUniqueIDs A g byPID pid callID err =
     (case err of
        Some e \<Rightarrow> Inl (NewError Core_InvalidArgument e)
      | None \<Rightarrow> utilitySuccess callID ''MethodGetAssociatedNexUniqueIDsWithMyPrincipalID''
          [WList (map WStruct (associatedUtilityIDs A g byPID pid))])"

text \<open>The settings are empty maps: their count and nothing else.\<close>

definition getIntegerSettings :: "u32 \<Rightarrow> string option \<Rightarrow> u32 \<Rightarrow> utility_reply" where
  "getIntegerSettings callID err index =
     (case err of
        Some e \<Rightarrow> Inl (NewError Core_InvalidArgument e)
      | None \<Rightarrow> utilitySuccess callID ''MethodGetIntegerSettings'' [WU32 0])"

definition getStringSettings :: "u32 \<Rightarrow> string option \<Rightarrow> u32 \<Rightarrow> utility_reply" where
  "getStringSettings callID err index =
     (case err of
        Some e \<Rightarrow> Inl (NewError Core_InvalidArgument e)
      | None \<Rightarrow> utilitySuccess callID ''MethodGetStringSettings'' [WU32 0])"

subsection \<open>Requests\<close>

datatype utility_request =
    AcquireNexUniqueID
  | AcquireNexUniqueIDWithPassword
  | AssociateNexUniqueID unique_id_info
  | AssociateNexUniqueIDs "unique_id_info list"
  | GetAssociatedNexUniqueID
  | GetAssociatedNexUniqueIDs
  | GetIntegerSettings u32
  | GetStringSettings u32

fun handle_utility ::
  "account_env \<Rightarrow> accounts \<Rightarrow> associations \<Rightarrow> u64 \<Rightarrow> u32 \<Rightarrow> string option \<Rightarrow> utility_request \<Rightarrow>
   associations \<times> utility_reply" where
  "handle_utility A g byPID pid callID err AcquireNexUniqueID =
     (byPID, acquireNexUniqueID A g pid callID err)"
| "handle_utility A g byPID pid callID err AcquireNexUniqueIDWithPassword =
     (byPID, acquireNexUniqueIDWithPassword A g pid callID err)"
| "handle_utility A g byPID pid callID err (AssociateNexUniqueID info) =
     associateNexUniqueID byPID pid callID err info"
| "handle_utility A g byPID pid callID err (AssociateNexUniqueIDs infos) =
     associateNexUniqueIDs byPID pid callID err infos"
| "handle_utility A g byPID pid callID err GetAssociatedNexUniqueID =
     (byPID, getAssociatedNexUniqueID A g byPID pid callID err)"
| "handle_utility A g byPID pid callID err GetAssociatedNexUniqueIDs =
     (byPID, getAssociatedNexUniqueIDs A g byPID pid callID err)"
| "handle_utility A g byPID pid callID err (GetIntegerSettings i) =
     (byPID, getIntegerSettings callID err i)"
| "handle_utility A g byPID pid callID err (GetStringSettings i) =
     (byPID, getStringSettings callID err i)"

fun utility_run ::
  "account_env \<Rightarrow> accounts \<Rightarrow> (u64 \<times> string option \<times> utility_request) list \<Rightarrow> associations \<Rightarrow> associations" where
  "utility_run A g [] byPID = byPID"
| "utility_run A g ((pid, err, rq) # rqs) byPID =
     utility_run A g rqs (fst (handle_utility A g byPID pid 0 err rq))"

subsection \<open>What a player has associated\<close>

text \<open>The meaning of a history: the last association the player itself made, if it names anything.\<close>

definition named_by :: "utility_request \<Rightarrow> unique_id_info list option" where
  "named_by rq = (case rq of
     AssociateNexUniqueID info \<Rightarrow> Some (if NEXUniqueID info = 0 then [] else [info])
   | AssociateNexUniqueIDs infos \<Rightarrow> Some infos
   | _ \<Rightarrow> None)"

definition own_names :: "u64 \<Rightarrow> (u64 \<times> string option \<times> utility_request) list \<Rightarrow> unique_id_info list list" where
  "own_names pid rqs = List.map_filter (\<lambda>(p, err, rq). if p = pid \<and> err = None then named_by rq else None) rqs"

definition last_names :: "u64 \<Rightarrow> (u64 \<times> string option \<times> utility_request) list \<Rightarrow> unique_id_info list" where
  "last_names pid rqs = (case own_names pid rqs of [] \<Rightarrow> [] | ns \<Rightarrow> last ns)"

definition names_of :: "associations \<Rightarrow> u64 \<Rightarrow> unique_id_info list" where
  "names_of byPID pid = (case byPID pid of None \<Rightarrow> [] | Some l \<Rightarrow> l)"

lemma names_of_handle:
  "names_of (fst (handle_utility A g byPID p callID err rq)) pid =
   (case (if p = pid \<and> err = None then named_by rq else None) of None \<Rightarrow> names_of byPID pid | Some l \<Rightarrow> l)"
  by (cases rq; cases err) (auto simp: named_by_def names_of_def associateNexUniqueID_def associateNexUniqueIDs_def)

lemma names_of_run:
  "names_of (utility_run A g rqs byPID) pid =
   (case own_names pid rqs of [] \<Rightarrow> names_of byPID pid | ns \<Rightarrow> last ns)"
proof (induction A g rqs byPID rule: utility_run.induct)
  case (2 A g p err rq rqs byPID)
  show ?case
  proof (cases "if p = pid \<and> err = None then named_by rq else None")
    case None
    have "names_of (fst (handle_utility A g byPID p 0 err rq)) pid = names_of byPID pid"
      unfolding names_of_handle None by simp
    moreover have "own_names pid ((p, err, rq) # rqs) = own_names pid rqs"
      using None by (simp add: own_names_def List.map_filter_simps)
    ultimately show ?thesis using 2 by (cases "own_names pid rqs") simp_all
  next
    case (Some l)
    then have "own_names pid ((p, err, rq) # rqs) = l # own_names pid rqs"
      by (simp add: own_names_def List.map_filter_simps)
    moreover have "names_of (fst (handle_utility A g byPID p 0 err rq)) pid = l"
      unfolding names_of_handle Some by simp
    ultimately show ?thesis using 2 by (cases "own_names pid rqs") simp_all
  qed
qed (simp add: own_names_def List.map_filter_simps)

text \<open>C36: after any sequence of requests a player gets back exactly the identifiers it associated last,
  whatever others did, and the identifier derived from its PID if it associated none; the first of
  them is what the single query answers. The derived identifier is not 0, except for the largest PID
  should its digest be 0.\<close>

theorem associations_read_back:
  assumes "byPID = utility_run A g rqs Map.empty"
    and "ids = (if last_names pid rqs = [] then [utilityID A g pid] else last_names pid rqs)"
  shows "snd (handle_utility A g byPID pid callID None GetAssociatedNexUniqueIDs) =
      Inr (respond UTP ''MethodGetAssociatedNexUniqueIDsWithMyPrincipalID'' callID [WList (map WStruct ids)]) \<and>
    snd (handle_utility A g byPID pid callID None GetAssociatedNexUniqueID) =
      Inr (respond UTP ''MethodGetAssociatedNexUniqueIDWithMyPrincipalID'' callID [WStruct (hd ids)]) \<and>
    (pid \<noteq> - 1 \<longrightarrow> NEXUniqueID (utilityID A g pid) \<noteq> 0)"
proof -
  have "names_of byPID pid = last_names pid rqs"
    unfolding assms(1) names_of_run last_names_def by (simp add: names_of_def split: list.split)
  then have ids: "associatedUtilityIDs A g byPID pid = ids"
    by (simp add: associatedUtilityIDs_def names_of_def assms(2) Let_def)
  moreover have "ids \<noteq> []" using assms(2) by simp
  moreover have "NEXUniqueID (utilityID A g pid) \<noteq> 0" if "pid \<noteq> - 1"
    using that by (simp add: utilityID_def Let_def add_eq_0_iff2)
  ultimately show ?thesis
    by (simp add: getAssociatedNexUniqueID_def getAssociatedNexUniqueIDs_def utilitySuccess_def hd_conv_nth)
qed

theorem associations_read_back_witness:
  "snd (handle_utility example_accounts_env (example_accounts example_settings)
    (utility_run example_accounts_env (example_accounts example_settings)
     [(7, None, AssociateNexUniqueID \<lparr>NEXUniqueID = 3, NEXUniqueIDPassword = 4\<rparr>), (8, None, AssociateNexUniqueIDs [])]
     Map.empty) 7 1 None GetAssociatedNexUniqueID) =
   Inr (respond UTP ''MethodGetAssociatedNexUniqueIDWithMyPrincipalID'' 1
     [WStruct \<lparr>NEXUniqueID = 3, NEXUniqueIDPassword = 4\<rparr>])"
  using associations_read_back [OF refl refl, of example_accounts_env "example_accounts example_settings"
    "[(7, None, AssociateNexUniqueID \<lparr>NEXUniqueID = 3, NEXUniqueIDPassword = 4\<rparr>), (8, None, AssociateNexUniqueIDs [])]" 7 1]
  by (simp add: last_names_def own_names_def List.map_filter_simps named_by_def)

end
