(* ===== verification/Stats.thy ===== *)
theory Stats
  imports MMStore Json
begin

text \<open>
  The statistics page (\<^verbatim>\<open>src/nexserver/stats.go\<close>): the body of the answer to a request, read from the
  gathering store. It is served on the loopback interface only; the HTTP server is not modelled.
\<close>

record statsResponse =
  PlayerCount :: nat
  PIDs :: "u32 list"

definition stats_of :: "mm_env \<Rightarrow> nat \<Rightarrow> store option \<Rightarrow> statsResponse" where
  "stats_of E n matchmaking =
     (let pids = (case matchmaking of
          None \<Rightarrow> []
        | Some st \<Rightarrow> concat (map (\<lambda>(gid, s). map (\<lambda>participant. ucast participant) (Participants s))
                       (AllLocked E n st)))
      in \<lparr>PlayerCount = length pids, PIDs = pids\<rparr>)"

definition stats_json :: "statsResponse \<Rightarrow> json" where
  "stats_json r = JObj
     [(''playerCount'', JNum (FormatUint (PlayerCount r))),
      (''pids'', JArr (map (\<lambda>p. JNum (FormatUint (unat p))) (PIDs r)))]"

definition stats_body :: "mm_env \<Rightarrow> nat \<Rightarrow> store option \<Rightarrow> string" where
  "stats_body E n matchmaking = Encode (stats_json (stats_of E n matchmaking))"

subsection \<open>Lemmas\<close>

text \<open>The body is the JSON of the statistics, and every participant of every gathering is in it.\<close>

lemma writable_stats: "1 < d \<Longrightarrow> writable d (stats_json r)"
  by (simp add: stats_json_def plain_def list_all_iff del: writable.simps(3))

lemma stats_body_parses: "parse_json (stats_body E n matchmaking) = Some (stats_json (stats_of E n matchmaking))"
  unfolding stats_body_def
  by (rule parse_json_Encode) (rule writable_stats, simp add: maxNestingDepth_def)

lemma set_PIDs:
  assumes "env_ok E" and "finite (dom (sessions st))"
  shows "set (PIDs (stats_of E n (Some st))) =
    {ucast p | p gid s. sessions st gid = Some s \<and> p \<in> set (Participants s)}"
proof -
  have "visits_all (mapOrder E n)" using assms(1) by (simp add: env_ok_def)
  from range_map_visits_all(1) [OF this assms(2)] show ?thesis
    by (auto simp: stats_of_def Let_def AllLocked_def)
qed

end
