(* ===== verification/Rc4Stream.thy ===== *)
theory Rc4Stream
  imports Crypto GoStd
begin

text \<open>
  The payload cipher of a substream (\<^verbatim>\<open>nex-go/encryption/rc4.go\<close>): one RC4 stream per direction that
  keeps its position between packets. \<^verbatim>\<open>XORKeyStream\<close> of \<^verbatim>\<open>Crypto\<close> gives the bytes a call writes,
  \<^verbatim>\<open>rc4_after\<close> the position it leaves the cipher at. The compression algorithm is \<^verbatim>\<open>Dummy\<close>, which
  returns its argument.
\<close>

fun rc4_after :: "rc4_cipher \<Rightarrow> bytes \<Rightarrow> rc4_cipher" where
  "rc4_after c [] = c"
| "rc4_after c (v # vs) =
     (let i = rc4_i c + 1;
          x = rc4_s c ! unat i;
          j = rc4_j c + x
      in rc4_after \<lparr>rc4_s = swap (rc4_s c) (unat i) (unat j), rc4_i = i, rc4_j = j\<rparr> vs)"

lemma XORKeyStream_append:
  "XORKeyStream c (xs @ ys) = XORKeyStream c xs @ XORKeyStream (rc4_after c xs) ys"
  by (induction c xs rule: XORKeyStream.induct) (simp_all add: Let_def)

lemma rc4_after_append [simp]: "rc4_after c (xs @ ys) = rc4_after (rc4_after c xs) ys"
  by (induction c xs rule: rc4_after.induct) (simp_all add: Let_def)

text \<open>The position depends on how many bytes went through, not on their values.\<close>

lemma rc4_after_length: "length xs = length ys \<Longrightarrow> rc4_after c xs = rc4_after c ys"
proof (induction xs arbitrary: c ys)
  case Nil
  then show ?case by simp
next
  case (Cons x xs)
  then obtain y zs where "ys = y # zs" "length xs = length zs" by (cases ys) auto
  then show ?case using Cons.IH by (simp add: Let_def)
qed

lemma rc4_after_cipher_text [simp]: "rc4_after c (XORKeyStream d xs) = rc4_after c xs"
  by (rule rc4_after_length) simp

record rc4_algorithm =
  alg_key :: bytes
  cipher :: rc4_cipher
  decipher :: rc4_cipher
  cipheredCount :: u64
  decipheredCount :: u64

text \<open>A key \<^verbatim>\<open>crypto/rc4\<close> refuses is stored, and the ciphers stay what they were.\<close>

definition SetKey :: "rc4_algorithm \<Rightarrow> bytes \<Rightarrow> rc4_algorithm" where
  "SetKey r key =
     (let r = r\<lparr>alg_key := key\<rparr> in
      case NewCipher key of
        None \<Rightarrow> r
      | Some c \<Rightarrow> r\<lparr>cipher := c, decipher := c\<rparr>)"

definition EncryptStream :: "rc4_algorithm \<Rightarrow> bytes \<Rightarrow> rc4_algorithm \<times> bytes" where
  "EncryptStream r payload =
     (r\<lparr>cipher := rc4_after (cipher r) payload,
        cipheredCount := cipheredCount r + of_nat (length payload)\<rparr>,
      XORKeyStream (cipher r) payload)"

definition DecryptStream :: "rc4_algorithm \<Rightarrow> bytes \<Rightarrow> rc4_algorithm \<times> bytes" where
  "DecryptStream r payload =
     (r\<lparr>decipher := rc4_after (decipher r) payload,
        decipheredCount := decipheredCount r + of_nat (length payload)\<rparr>,
      XORKeyStream (decipher r) payload)"

text \<open>The ciphers are nil pointers until the constructor sets its default key, which \<^verbatim>\<open>crypto/rc4\<close>
  accepts; a cipher with an empty state stands for nil.\<close>

definition default_key :: bytes where "default_key = bytes_of_string ''CD&ML''"

definition nil_cipher :: rc4_cipher where "nil_cipher = \<lparr>rc4_s = [], rc4_i = 0, rc4_j = 0\<rparr>"

definition NewRC4Encryption :: rc4_algorithm where
  "NewRC4Encryption =
     SetKey \<lparr>alg_key = [], cipher = nil_cipher, decipher = nil_cipher, cipheredCount = 0, decipheredCount = 0\<rparr>
       default_key"

text \<open>\<^verbatim>\<open>Copy\<close> cannot copy a cipher, so it runs new ones forward one byte at a time.\<close>

fun discard :: "nat \<Rightarrow> rc4_cipher \<Rightarrow> rc4_cipher" where
  "discard 0 c = c"
| "discard (Suc n) c = discard n (rc4_after c [0])"

definition CopyAlgorithm :: "rc4_algorithm \<Rightarrow> rc4_algorithm" where
  "CopyAlgorithm r =
     (let copied = SetKey NewRC4Encryption (alg_key r)
      in copied\<lparr>cipher := discard (unat (cipheredCount r)) (cipher copied),
                decipher := discard (unat (decipheredCount r)) (decipher copied),
                cipheredCount := cipheredCount r, decipheredCount := decipheredCount r\<rparr>)"

subsection \<open>Keys and positions\<close>

definition stream_key :: "bytes \<Rightarrow> bool" where
  "stream_key k \<longleftrightarrow> 1 \<le> length k \<and> length k \<le> 256"

definition new_cipher :: "bytes \<Rightarrow> rc4_cipher" where
  "new_cipher k = \<lparr>rc4_s = rc4_schedule k, rc4_i = 0, rc4_j = 0\<rparr>"

lemma NewCipher_key: "stream_key k \<Longrightarrow> NewCipher k = Some (new_cipher k)"
  by (auto simp: NewCipher_def stream_key_def new_cipher_def)

lemma SetKey_key:
  "stream_key k \<Longrightarrow> SetKey r k = r\<lparr>alg_key := k, cipher := new_cipher k, decipher := new_cipher k\<rparr>"
  by (simp add: SetKey_def NewCipher_key)

lemma discard_rc4_after: "discard n c = rc4_after c (replicate n 0)"
  by (induction n arbitrary: c) (simp_all add: Let_def)

text \<open>An algorithm is in step when each cipher has advanced by its count since the key was set.\<close>

definition in_step :: "rc4_algorithm \<Rightarrow> bool" where
  "in_step r \<longleftrightarrow> stream_key (alg_key r) \<and>
     cipher r = rc4_after (new_cipher (alg_key r)) (replicate (unat (cipheredCount r)) 0) \<and>
     decipher r = rc4_after (new_cipher (alg_key r)) (replicate (unat (decipheredCount r)) 0)"

lemma stream_key_default: "stream_key default_key"
  by (simp add: stream_key_def default_key_def)

lemma in_step_New: "in_step NewRC4Encryption"
  by (simp add: NewRC4Encryption_def SetKey_key in_step_def stream_key_default)

lemma advance:
  assumes "unat n + length xs < 2 ^ 64"
  shows "rc4_after (rc4_after c (replicate (unat n) 0)) xs =
    rc4_after c (replicate (unat (n + of_nat (length xs) :: u64)) 0)"
proof -
  have "unat (n + of_nat (length xs)) = unat n + length xs"
    using assms by (simp add: unat_word_ariths unat_of_nat)
  then have "rc4_after c (replicate (unat (n + of_nat (length xs))) 0) =
      rc4_after (rc4_after c (replicate (unat n) 0)) (replicate (length xs) 0)"
    by (simp add: replicate_add)
  also have "\<dots> = rc4_after (rc4_after c (replicate (unat n) 0)) xs"
    by (rule rc4_after_length) simp
  finally show ?thesis by simp
qed

lemma in_step_Encrypt:
  "in_step r \<Longrightarrow> unat (cipheredCount r) + length xs < 2 ^ 64 \<Longrightarrow> in_step (fst (EncryptStream r xs))"
  by (simp add: in_step_def EncryptStream_def advance)

lemma in_step_Decrypt:
  "in_step r \<Longrightarrow> unat (decipheredCount r) + length xs < 2 ^ 64 \<Longrightarrow> in_step (fst (DecryptStream r xs))"
  by (simp add: in_step_def DecryptStream_def advance)

text \<open>A copy of an algorithm that is in step continues both streams where the original stands.\<close>

lemma CopyAlgorithm_in_step: "in_step r \<Longrightarrow> CopyAlgorithm r = r"
  by (simp add: CopyAlgorithm_def in_step_def SetKey_key discard_rc4_after Let_def)

text \<open>The counts are not set back by a new key, so after one the copy runs ahead of the original.\<close>

lemma SetKey_counts:
  "cipheredCount (SetKey r k) = cipheredCount r" "decipheredCount (SetKey r k) = decipheredCount r"
  by (simp_all add: SetKey_def Let_def split: option.split)

end
