(* ===== verification/Rmc.thy ===== *)
theory Rmc
  imports NexCore
begin

text \<open>
  RMC messages in their packed form (\<^verbatim>\<open>nex-go/rmc_message.go\<close>), which is the form this server speaks:
  \<^verbatim>\<open>UseVerboseRMC\<close> is never set. A decoder fills the message it is called on field by field, so what
  it has read before an error stays in it: \<^verbatim>\<open>decodePacked\<close> returns the message beside the error. The
  names and the version container belong to the verbose form and are left out.
\<close>

record packed_message =
  m_IsRequest :: bool
  m_IsSuccess :: bool
  m_IsHPP :: bool
  m_ProtocolID :: u16
  m_CallID :: u32
  m_MethodID :: u32
  m_ErrorCode :: u32
  m_Parameters :: bytes

definition NewRMCMessage :: packed_message where
  "NewRMCMessage =
     \<lparr>m_IsRequest = False, m_IsSuccess = False, m_IsHPP = False, m_ProtocolID = 0, m_CallID = 0,
      m_MethodID = 0, m_ErrorCode = 0, m_Parameters = []\<rparr>"

definition NewRMCRequest :: packed_message where
  "NewRMCRequest = NewRMCMessage\<lparr>m_IsRequest := True\<rparr>"

definition NewRMCSuccess :: "bytes \<Rightarrow> packed_message" where
  "NewRMCSuccess parameters =
     NewRMCMessage\<lparr>m_IsRequest := False, m_IsSuccess := True, m_Parameters := parameters\<rparr>"

definition NewRMCError :: "u32 \<Rightarrow> packed_message" where
  "NewRMCError errorCode =
     (let errorCode = (if errorCode AND errorMask = 0 then errorCode OR errorMask else errorCode)
      in NewRMCMessage\<lparr>m_IsRequest := False, m_IsSuccess := False, m_ErrorCode := errorCode\<rparr>)"

subsection \<open>Reading\<close>

definition read_u8 :: "bytes \<Rightarrow> (u8 \<times> bytes) option" where
  "read_u8 bs = (case bs of [] \<Rightarrow> None | b # r \<Rightarrow> Some (b, r))"

definition read_u16 :: "bytes \<Rightarrow> (u16 \<times> bytes) option" where
  "read_u16 bs = map_option (\<lambda>(n, r). (of_nat n, r)) (read_le 2 bs)"

definition read_bool :: "bytes \<Rightarrow> (bool \<times> bytes) option" where
  "read_bool bs = map_option (\<lambda>(b, r). (b = 1, r)) (read_u8 bs)"

text \<open>The part of a request, of a successful response and of an error after the protocol ID.\<close>

definition decode_request :: "packed_message \<Rightarrow> bytes \<Rightarrow> packed_message \<times> string option" where
  "decode_request rmc r =
     (case read_u32 r of
        None \<Rightarrow> (rmc\<lparr>m_CallID := 0\<rparr>, Some ''Failed to read RMC Message (request) call ID.'')
      | Some (callID, r) \<Rightarrow>
          (let rmc = rmc\<lparr>m_CallID := callID\<rparr> in
           case read_u32 r of
             None \<Rightarrow> (rmc\<lparr>m_MethodID := 0\<rparr>, Some ''Failed to read RMC Message (request) method ID.'')
           | Some (methodID, r) \<Rightarrow> (rmc\<lparr>m_MethodID := methodID, m_Parameters := r\<rparr>, None)))"

definition decode_success :: "packed_message \<Rightarrow> bytes \<Rightarrow> packed_message \<times> string option" where
  "decode_success rmc r =
     (case read_u32 r of
        None \<Rightarrow> (rmc\<lparr>m_CallID := 0\<rparr>, Some ''Failed to read RMC Message (response) call ID.'')
      | Some (callID, r) \<Rightarrow>
          (let rmc = rmc\<lparr>m_CallID := callID\<rparr> in
           case read_u32 r of
             None \<Rightarrow> (rmc\<lparr>m_MethodID := 0\<rparr>, Some ''Failed to read RMC Message (response) method ID.'')
           | Some (methodID, r) \<Rightarrow>
               (rmc\<lparr>m_MethodID := methodID AND NOT 0x8000, m_Parameters := r\<rparr>, None)))"

definition decode_error :: "packed_message \<Rightarrow> bytes \<Rightarrow> packed_message \<times> string option" where
  "decode_error rmc r =
     (case read_u32 r of
        None \<Rightarrow> (rmc\<lparr>m_ErrorCode := 0\<rparr>, Some ''Failed to read RMC Message (response) error code.'')
      | Some (errorCode, r) \<Rightarrow>
          (let rmc = rmc\<lparr>m_ErrorCode := errorCode\<rparr> in
           case read_u32 r of
             None \<Rightarrow> (rmc\<lparr>m_CallID := 0\<rparr>, Some ''Failed to read RMC Message (response) call ID.'')
           | Some (callID, r) \<Rightarrow> (rmc\<lparr>m_CallID := callID\<rparr>, None)))"

definition decode_call :: "packed_message \<Rightarrow> u8 \<Rightarrow> bytes \<Rightarrow> packed_message \<times> string option" where
  "decode_call rmc protocolID r =
     (if protocolID AND 0x80 \<noteq> 0 then decode_request (rmc\<lparr>m_IsRequest := True\<rparr>) r
      else
        (let rmc = rmc\<lparr>m_IsRequest := False\<rparr> in
         case read_bool r of
           None \<Rightarrow> (rmc\<lparr>m_IsSuccess := False\<rparr>, Some ''Failed to read RMC Message (response) error check.'')
         | Some (success, r) \<Rightarrow>
             (let rmc = rmc\<lparr>m_IsSuccess := success\<rparr> in
              if success then decode_success rmc r else decode_error rmc r)))"

definition protocol_number :: "u8 \<Rightarrow> u16" where
  "protocol_number protocolID = ucast (protocolID AND NOT 0x80)"

definition decodePacked :: "packed_message \<Rightarrow> bytes \<Rightarrow> packed_message \<times> string option" where
  "decodePacked rmc data =
     (case read_u32 data of
        None \<Rightarrow> (rmc, Some ''Failed to read RMC Message size.'')
      | Some (len, r) \<Rightarrow>
          (if length r \<noteq> unat len then (rmc, Some ''RMC Message has unexpected size'')
           else
             (case read_u8 r of
                None \<Rightarrow> (rmc, Some ''Failed to read RMC Message protocol ID.'')
              | Some (protocolID, r) \<Rightarrow>
                  (let rmc = rmc\<lparr>m_ProtocolID := protocol_number protocolID\<rparr> in
                   if m_ProtocolID rmc = 0x7F then
                     (case read_u16 r of
                        None \<Rightarrow> (rmc\<lparr>m_ProtocolID := 0\<rparr>,
                                 Some ''Failed to read RMC Message extended protocol ID.'')
                      | Some (extended, r) \<Rightarrow> decode_call (rmc\<lparr>m_ProtocolID := extended\<rparr>) protocolID r)
                   else decode_call rmc protocolID r))))"

text \<open>\<^verbatim>\<open>message.FromBytes\<close> on a new message.\<close>

definition FromBytes :: "bytes \<Rightarrow> packed_message \<times> string option" where
  "FromBytes data = decodePacked NewRMCMessage data"

subsection \<open>Writing\<close>

definition encode_protocol :: "packed_message \<Rightarrow> bytes" where
  "encode_protocol rmc =
     (let protocolIDFlag = (if m_IsRequest rmc then 0x80 else 0 :: u16) in
      if \<not> m_IsHPP rmc \<or> m_IsHPP rmc \<and> m_IsRequest rmc then
        (if m_ProtocolID rmc < 0x80 then [ucast (m_ProtocolID rmc OR protocolIDFlag)]
         else ucast (0x7F OR protocolIDFlag :: u16) # le_bytes 2 (unat (m_ProtocolID rmc)))
      else [])"

definition encode_body :: "packed_message \<Rightarrow> bytes" where
  "encode_body rmc =
     (if m_IsRequest rmc then
        le_bytes 4 (unat (m_CallID rmc)) @ le_bytes 4 (unat (m_MethodID rmc)) @ m_Parameters rmc
      else (if m_IsSuccess rmc then 1 else 0) #
        (if m_IsSuccess rmc then
           le_bytes 4 (unat (m_CallID rmc)) @ le_bytes 4 (unat (m_MethodID rmc OR 0x8000)) @ m_Parameters rmc
         else le_bytes 4 (unat (m_ErrorCode rmc)) @ le_bytes 4 (unat (m_CallID rmc))))"

definition encodePacked :: "packed_message \<Rightarrow> bytes" where
  "encodePacked rmc =
     (let serialized = encode_protocol rmc @ encode_body rmc
      in le_bytes 4 (length serialized) @ serialized)"

subsection \<open>The messages that survive\<close>

text \<open>
  The fields each of the three kinds carries. Protocol 127 is excluded: its one-byte form is the escape
  that announces a two-byte protocol ID. A response loses bit 15 of its method ID, which marks
  responses, and no kind carries the HPP flag.
\<close>

definition packable :: "packed_message \<Rightarrow> bool" where
  "packable m \<longleftrightarrow> \<not> m_IsHPP m \<and> m_ProtocolID m \<noteq> 0x7F \<and> length (m_Parameters m) < 2 ^ 32 - 16 \<and>
     (if m_IsRequest m then \<not> m_IsSuccess m \<and> m_ErrorCode m = 0
      else if m_IsSuccess m then m_ErrorCode m = 0 \<and> m_MethodID m AND 0x8000 = 0
      else m_MethodID m = 0 \<and> m_Parameters m = [])"

interpretation u16_codec: codec "\<lambda>x :: u16. le_bytes 2 (unat x)" read_u16 "\<lambda>_. True"
proof
  fix x :: u16 and rest
  have "unat x < 256 ^ 2" using unsigned_less [of x, where ?'a = nat] by simp
  then show "read_u16 (le_bytes 2 (unat x) @ rest) = Some (x, rest)"
    by (simp add: read_u16_def read_le_append)
qed

lemma clear_set_bit: "x AND 0x8000 = 0 \<Longrightarrow> (x OR 0x8000) AND NOT 0x8000 = x" for x :: u32
proof -
  assume "x AND 0x8000 = 0"
  moreover have "x = (x AND 0x8000) OR (x AND NOT 0x8000)"
    by (metis bit.conj_disj_distrib bit.disj_cancel_right and.right_neutral)
  ultimately show ?thesis by (simp add: bit.conj_disj_distrib2)
qed

lemma bit_0x80:
  "bit (0x80 :: u8) n \<longleftrightarrow> n = 7"
  "bit (0x80 :: u16) n \<longleftrightarrow> n = 7"
proof -
  have "(0x80 :: u8) = 2 ^ 7" "(0x80 :: u16) = 2 ^ 7" by simp_all
  then show "bit (0x80 :: u8) n \<longleftrightarrow> n = 7" "bit (0x80 :: u16) n \<longleftrightarrow> n = 7"
    by (simp_all only: bit_exp_iff) auto
qed

lemma protocol_low:
  fixes p :: u16
  assumes "p < 0x80" and "bit p n"
  shows "n < 7"
proof (rule ccontr)
  assume "\<not> n < 7"
  have "bit (unat p) n" using assms(2) bit_imp_le_length [OF assms(2)] by (simp add: bit_unsigned_iff)
  then have "unat p div 2 ^ n \<noteq> 0" by (metis bit_iff_odd even_zero)
  then have "2 ^ n \<le> unat p" by (simp add: div_eq_0_iff)
  moreover have "(2 :: nat) ^ 7 \<le> 2 ^ n" using \<open>\<not> n < 7\<close> by (intro power_increasing) auto
  moreover have "unat p < 2 ^ 7" using assms(1) by (simp add: word_less_nat_alt)
  ultimately show False by linarith
qed

text \<open>A flag byte with bit 7 set or clear, and the low bits of the protocol ID.\<close>

lemma flag_bits:
  fixes p k :: u16 and f :: u8
  assumes "\<And>n. bit k n \<longleftrightarrow> q \<and> n = 7" and "\<And>n. bit f n \<longleftrightarrow> n = 7" and "p < 0x80"
  shows "ucast ((ucast (p OR k) :: u8) AND NOT f) = p"
    and "(ucast (p OR k) :: u8) AND f = (if q then f else 0)"
  by (rule bit_word_eqI, use protocol_low [OF assms(3)] in
      \<open>force simp: bit_and_iff bit_or_iff bit_not_iff bit_unsigned_iff assms(1,2)\<close>)+

lemma protocol_byte:
  fixes p :: u16
  assumes "p < 0x80"
  shows "protocol_number (ucast (p OR (if q then 0x80 else 0))) = p"
    and "(ucast (p OR (if q then 0x80 else 0)) :: u8) AND 0x80 = (if q then 0x80 else 0)"
proof -
  have "bit (if q then 0x80 else 0 :: u16) n \<longleftrightarrow> q \<and> n = 7" for n
    by (cases q; simp only: if_True if_False bit_0x80 simp_thms bit_0_eq bot_apply bot_bool_def)
  note bits = flag_bits [OF this bit_0x80(1) assms]
  show "protocol_number (ucast (p OR (if q then 0x80 else 0))) = p"
    unfolding protocol_number_def by (rule bits)
  show "(ucast (p OR (if q then 0x80 else 0)) :: u8) AND 0x80 = (if q then 0x80 else 0)" by (rule bits)
qed

lemma decode_request_body:
  "m_IsRequest m \<Longrightarrow>
   decode_request rmc (encode_body m) =
     (rmc\<lparr>m_CallID := m_CallID m, m_MethodID := m_MethodID m, m_Parameters := m_Parameters m\<rparr>, None)"
  by (simp add: decode_request_def encode_body_def u32_codec.dec_enc Let_def)

lemma decode_success_body:
  "\<not> m_IsRequest m \<Longrightarrow> m_IsSuccess m \<Longrightarrow> m_MethodID m AND 0x8000 = 0 \<Longrightarrow>
   decode_success rmc (tl (encode_body m)) =
     (rmc\<lparr>m_CallID := m_CallID m, m_MethodID := m_MethodID m, m_Parameters := m_Parameters m\<rparr>, None)"
  by (simp add: decode_success_def encode_body_def u32_codec.dec_enc Let_def clear_set_bit [simplified])

lemma decode_error_body:
  "\<not> m_IsRequest m \<Longrightarrow> \<not> m_IsSuccess m \<Longrightarrow>
   decode_error rmc (tl (encode_body m)) =
     (rmc\<lparr>m_ErrorCode := m_ErrorCode m, m_CallID := m_CallID m\<rparr>, None)"
  by (simp add: decode_error_def encode_body_def u32_codec.dec_enc u32_codec.dec_enc_all Let_def)

lemma decode_call_body:
  assumes "packable m" and "b AND 0x80 = (if m_IsRequest m then 0x80 else 0)"
  shows "decode_call (NewRMCMessage\<lparr>m_ProtocolID := m_ProtocolID m\<rparr>) b (encode_body m) = (m, None)"
proof (cases "m_IsRequest m")
  case True
  then show ?thesis
    using assms by (simp add: decode_call_def decode_request_body NewRMCMessage_def packable_def)
next
  case False
  have "read_bool (encode_body m) = Some (m_IsSuccess m, tl (encode_body m))"
    using False by (auto simp: encode_body_def read_bool_def read_u8_def)
  then show ?thesis
    using assms False
    by (cases "m_IsSuccess m")
      (simp_all add: decode_call_def decode_success_body decode_error_body NewRMCMessage_def packable_def Let_def)
qed

lemma length_encoded: "packable m \<Longrightarrow> length (encode_protocol m @ encode_body m) < 2 ^ 32"
  by (auto simp: packable_def encode_protocol_def encode_body_def Let_def split: if_splits)

text \<open>Decoding a message whose length field is right, from its first byte on.\<close>

lemma decodePacked_sized:
  assumes "read_u32 data = Some (len, b # r)" and "Suc (length r) = unat len"
  shows "protocol_number b \<noteq> 0x7F \<Longrightarrow>
      decodePacked rmc data = decode_call (rmc\<lparr>m_ProtocolID := protocol_number b\<rparr>) b r"
    and "protocol_number b = 0x7F \<Longrightarrow> read_u16 r = Some (x, r') \<Longrightarrow>
      decodePacked rmc data = decode_call (rmc\<lparr>m_ProtocolID := x\<rparr>) b r'"
  using assms by (simp_all add: decodePacked_def read_u8_def Let_def)

lemma FromBytes_encodePacked:
  assumes "packable m"
  shows "FromBytes (encodePacked m) = (m, None)"
proof -
  let ?z = "encode_protocol m @ encode_body m"
  let ?k = "if m_IsRequest m then 0x80 else 0 :: u16"
  have "length ?z mod 256 ^ 4 = length ?z" using length_encoded [OF assms] by simp
  moreover have "unat (of_nat (length ?z) :: u32) = length ?z"
    using length_encoded [OF assms] by (rule u32_of_nat_less)
  ultimately have size: "read_u32 (encodePacked m) = Some (of_nat (length ?z), ?z)"
      "length ?z = unat (of_nat (length ?z) :: u32)"
    by (simp_all add: encodePacked_def read_u32_def read_le_append Let_def)
  have p: "m_ProtocolID m \<noteq> 0x7F" "\<not> m_IsHPP m" using assms by (simp_all add: packable_def)
  show ?thesis
  proof (cases "m_ProtocolID m < 0x80")
    case True
    then have z: "?z = ucast (m_ProtocolID m OR ?k) # encode_body m"
      using p by (simp add: encode_protocol_def Let_def)
    note bits = protocol_byte [OF True, of "m_IsRequest m"]
    have "decodePacked NewRMCMessage (encodePacked m) =
        decode_call (NewRMCMessage\<lparr>m_ProtocolID := m_ProtocolID m\<rparr>) (ucast (m_ProtocolID m OR ?k))
          (encode_body m)"
      using decodePacked_sized(1) [OF size(1) [unfolded z]] size(2) [unfolded z] bits(1) p by simp
    then show ?thesis using decode_call_body [OF assms bits(2)] by (simp add: FromBytes_def)
  next
    case False
    then have z: "?z = ucast (0x7F OR ?k) # le_bytes 2 (unat (m_ProtocolID m)) @ encode_body m"
      using p by (simp add: encode_protocol_def Let_def)
    have "(0x7F :: u16) < 0x80" by simp
    note bits = protocol_byte [OF this, of "m_IsRequest m"]
    have "read_u16 (le_bytes 2 (unat (m_ProtocolID m)) @ encode_body m) = Some (m_ProtocolID m, encode_body m)"
      by (rule u16_codec.dec_enc) simp
    then have "decodePacked NewRMCMessage (encodePacked m) =
        decode_call (NewRMCMessage\<lparr>m_ProtocolID := m_ProtocolID m\<rparr>) (ucast (0x7F OR ?k)) (encode_body m)"
      using decodePacked_sized(2) [OF size(1) [unfolded z]] size(2) [unfolded z] bits(1) by simp
    then show ?thesis using decode_call_body [OF assms bits(2)] by (simp add: FromBytes_def)
  qed
qed

end
