(* ===== verification/Prudp.thy ===== *)
theory Prudp
  imports Rc4Stream Rmc Endpoint
begin

text \<open>
  A PRUDP virtual connection (\<^verbatim>\<open>nex-go/prudp_connection.go\<close>, \<^verbatim>\<open>packet_dispatch_queue.go\<close>,
  \<^verbatim>\<open>sliding_window.go\<close>, \<^verbatim>\<open>timeout_manager.go\<close>) and what is done to one packet: sending
  (\<^verbatim>\<open>prudp_server.go\<close>), acknowledging, decrypting, ordering and reassembling (\<^verbatim>\<open>prudp_endpoint.go\<close>). A
  packet is its decoded fields; its bytes and its signature are in \<^verbatim>\<open>Wire\<close>. The clock is not modelled and
  locks are not either: an operation on a connection is one step.
\<close>

subsection \<open>Packets\<close>

abbreviation (input) SynPacket :: u16 where "SynPacket \<equiv> 0"
abbreviation (input) ConnectPacket :: u16 where "ConnectPacket \<equiv> 1"
abbreviation (input) DataPacket :: u16 where "DataPacket \<equiv> 2"
abbreviation (input) DisconnectPacket :: u16 where "DisconnectPacket \<equiv> 3"
abbreviation (input) PingPacket :: u16 where "PingPacket \<equiv> 4"

abbreviation (input) FlagAck :: u16 where "FlagAck \<equiv> 0x1"
abbreviation (input) FlagReliable :: u16 where "FlagReliable \<equiv> 0x2"
abbreviation (input) FlagNeedsAck :: u16 where "FlagNeedsAck \<equiv> 0x4"
abbreviation (input) FlagHasSize :: u16 where "FlagHasSize \<equiv> 0x8"
abbreviation (input) FlagMultiAck :: u16 where "FlagMultiAck \<equiv> 0x200"

record prudp_packet =
  p_version :: nat
  p_sourceType :: u8
  p_sourceID :: u8
  p_destinationType :: u8
  p_destinationID :: u8
  p_type :: u16
  p_flags :: u16
  p_sessionID :: u8
  p_substreamID :: u8
  p_sequenceID :: u16
  p_fragmentID :: u8
  p_payload :: bytes
  p_signature :: bytes
  p_sendCount :: u32
  p_connectionSignature :: bytes
  p_MinorVersion :: u32
  p_SupportedFunctions :: u32
  p_MaximumSubstreamID :: u8
  p_InitialUnreliableSequenceID :: u16

text \<open>A new packet of a version (\<^verbatim>\<open>NewPRUDPPacketV0\<close>, \<^verbatim>\<open>V1\<close>, \<^verbatim>\<open>Lite\<close>), with no data to read.\<close>

definition NewPacket :: "nat \<Rightarrow> prudp_packet" where
  "NewPacket version =
     \<lparr>p_version = version, p_sourceType = 0, p_sourceID = 0, p_destinationType = 0, p_destinationID = 0,
      p_type = 0, p_flags = 0, p_sessionID = 0, p_substreamID = 0, p_sequenceID = 0, p_fragmentID = 0,
      p_payload = [], p_signature = [], p_sendCount = 0, p_connectionSignature = [], p_MinorVersion = 0,
      p_SupportedFunctions = 0, p_MaximumSubstreamID = 0, p_InitialUnreliableSequenceID = 0\<rparr>"

definition has_flag :: "prudp_packet \<Rightarrow> u16 \<Rightarrow> bool" where
  "has_flag p flag \<longleftrightarrow> p_flags p AND flag \<noteq> 0"

definition AddFlag :: "u16 \<Rightarrow> prudp_packet \<Rightarrow> prudp_packet" where
  "AddFlag flag p = p\<lparr>p_flags := p_flags p OR flag\<rparr>"

text \<open>The answer to a packet: of the same version, from the port the packet was sent to.\<close>

definition reply_to :: "prudp_packet \<Rightarrow> u16 \<Rightarrow> prudp_packet" where
  "reply_to packet type =
     (NewPacket (if p_version packet \<in> {1, 2} then p_version packet else 0))\<lparr>
        p_type := type, p_flags := FlagAck,
        p_sourceType := p_destinationType packet, p_sourceID := p_destinationID packet,
        p_destinationType := p_sourceType packet, p_destinationID := p_sourceID packet\<rparr>"

text \<open>\<^verbatim>\<open>Copy\<close> copies every field but the count of sendings.\<close>

definition CopyPacket :: "prudp_packet \<Rightarrow> prudp_packet" where
  "CopyPacket p = p\<lparr>p_sendCount := 0\<rparr>"

subsection \<open>Dispatch queues and sliding windows\<close>

record dispatch_queue =
  queue :: "u16 \<rightharpoonup> prudp_packet"
  nextExpectedSequenceId :: u16

definition NewPacketDispatchQueue :: dispatch_queue where
  "NewPacketDispatchQueue = \<lparr>queue = Map.empty, nextExpectedSequenceId = 2\<rparr>"

definition Queue :: "dispatch_queue \<Rightarrow> prudp_packet \<Rightarrow> dispatch_queue" where
  "Queue pdq packet = pdq\<lparr>queue := (queue pdq)(p_sequenceID packet \<mapsto> packet)\<rparr>"

definition GetNextToDispatch :: "dispatch_queue \<Rightarrow> prudp_packet option" where
  "GetNextToDispatch pdq = queue pdq (nextExpectedSequenceId pdq)"

definition Dispatched :: "dispatch_queue \<Rightarrow> prudp_packet \<Rightarrow> dispatch_queue" where
  "Dispatched pdq packet =
     pdq\<lparr>nextExpectedSequenceId := nextExpectedSequenceId pdq + 1,
         queue := (queue pdq)(p_sequenceID packet := None)\<rparr>"

definition Purge :: "dispatch_queue \<Rightarrow> dispatch_queue" where
  "Purge pdq = pdq\<lparr>queue := Map.empty\<rparr>"

record sliding_window =
  sequenceIDCounter :: u16
  EncryptionAlgorithm :: rc4_algorithm
  pending :: "u16 \<rightharpoonup> prudp_packet"

definition NewSlidingWindow :: "rc4_algorithm \<Rightarrow> sliding_window" where
  "NewSlidingWindow alg =
     \<lparr>sequenceIDCounter = 0, EncryptionAlgorithm = CopyAlgorithm alg, pending = Map.empty\<rparr>"

definition SetCipherKey :: "sliding_window \<Rightarrow> bytes \<Rightarrow> sliding_window" where
  "SetCipherKey sw key = sw\<lparr>EncryptionAlgorithm := SetKey (EncryptionAlgorithm sw) key\<rparr>"

definition NextOutgoingSequenceID :: "sliding_window \<Rightarrow> sliding_window \<times> u16" where
  "NextOutgoingSequenceID sw =
     (let v = sequenceIDCounter sw + 1 in (sw\<lparr>sequenceIDCounter := v\<rparr>, v))"

definition EncryptWindow :: "sliding_window \<Rightarrow> bytes \<Rightarrow> sliding_window \<times> bytes" where
  "EncryptWindow sw payload =
     (case EncryptStream (EncryptionAlgorithm sw) payload of
        (alg, out) \<Rightarrow> (sw\<lparr>EncryptionAlgorithm := alg\<rparr>, out))"

definition DecryptWindow :: "sliding_window \<Rightarrow> bytes \<Rightarrow> sliding_window \<times> bytes" where
  "DecryptWindow sw payload =
     (case DecryptStream (EncryptionAlgorithm sw) payload of
        (alg, out) \<Rightarrow> (sw\<lparr>EncryptionAlgorithm := alg\<rparr>, out))"

text \<open>\<^verbatim>\<open>TimeoutManager\<close>: the packets waiting for an acknowledgement.\<close>

definition SchedulePacketTimeout :: "sliding_window \<Rightarrow> prudp_packet \<Rightarrow> sliding_window" where
  "SchedulePacketTimeout sw packet = sw\<lparr>pending := (pending sw)(p_sequenceID packet \<mapsto> packet)\<rparr>"

definition AcknowledgePending :: "sliding_window \<Rightarrow> u16 \<Rightarrow> sliding_window" where
  "AcknowledgePending sw sequenceID = sw\<lparr>pending := (pending sw)(sequenceID := None)\<rparr>"

subsection \<open>The connection\<close>

abbreviation (input) StateNotConnected :: u8 where "StateNotConnected \<equiv> 0"
abbreviation (input) StateConnecting :: u8 where "StateConnecting \<equiv> 1"
abbreviation (input) StateConnected :: u8 where "StateConnected \<equiv> 2"

record prudp_connection =
  pc_Address :: net_addr
  ConnectionState :: u8
  pc_ID :: u32
  SessionID :: u8
  ServerSessionID :: u8
  pc_SessionKey :: bytes
  pc_pid :: u64
  DefaultPRUDPVersion :: nat
  StreamType :: u8
  StreamID :: u8
  pc_Algorithm :: rc4_algorithm
  Signature :: bytes
  ServerConnectionSignature :: bytes
  UnreliablePacketBaseKey :: bytes
  slidingWindows :: "u8 \<rightharpoonup> sliding_window"
  packetDispatchQueues :: "u8 \<rightharpoonup> dispatch_queue"
  incomingFragmentBuffers :: "u8 \<rightharpoonup> bytes"
  OutgoingUnreliableSequenceIDCounter :: u16
  outgoingPingSequenceIDCounter :: u16
  heartbeatTimer :: bool
  StationURLs :: "station_url list"

definition NewPRUDPConnection :: "net_addr \<Rightarrow> prudp_connection" where
  "NewPRUDPConnection address =
     \<lparr>pc_Address = address, ConnectionState = StateNotConnected, pc_ID = 0, SessionID = 0, ServerSessionID = 0,
      pc_SessionKey = [], pc_pid = 0, DefaultPRUDPVersion = 0, StreamType = 0, StreamID = 0,
      pc_Algorithm = NewRC4Encryption, Signature = [], ServerConnectionSignature = [],
      UnreliablePacketBaseKey = replicate 32 0, slidingWindows = Map.empty,
      packetDispatchQueues = Map.empty, incomingFragmentBuffers = Map.empty,
      OutgoingUnreliableSequenceIDCounter = 1, outgoingPingSequenceIDCounter = 0,
      heartbeatTimer = False, StationURLs = []\<rparr>"

text \<open>\<^verbatim>\<open>Reset\<close> leaves the PID, the station URLs and the buffers of half-received messages.\<close>

definition Reset :: "prudp_connection \<Rightarrow> prudp_connection" where
  "Reset pc =
     pc\<lparr>ConnectionState := StateNotConnected, packetDispatchQueues := Map.empty, slidingWindows := Map.empty,
        Signature := [], ServerConnectionSignature := [], pc_SessionKey := [],
        OutgoingUnreliableSequenceIDCounter := 1, outgoingPingSequenceIDCounter := 0\<rparr>"

text \<open>\<^verbatim>\<open>CreateSlidingWindow\<close>, and the lookup that creates what it does not find.\<close>

definition CreateSlidingWindow :: "prudp_connection \<Rightarrow> u8 \<Rightarrow> prudp_connection \<times> sliding_window" where
  "CreateSlidingWindow pc substreamID =
     (let sw = NewSlidingWindow (pc_Algorithm pc)
      in (pc\<lparr>slidingWindows := (slidingWindows pc)(substreamID \<mapsto> sw)\<rparr>, sw))"

definition SlidingWindow :: "prudp_connection \<Rightarrow> u8 \<Rightarrow> prudp_connection \<times> sliding_window" where
  "SlidingWindow pc substreamID =
     (case slidingWindows pc substreamID of
        None \<Rightarrow> CreateSlidingWindow pc substreamID
      | Some sw \<Rightarrow> (pc, sw))"

definition set_window :: "prudp_connection \<Rightarrow> u8 \<Rightarrow> sliding_window \<Rightarrow> prudp_connection" where
  "set_window pc substreamID sw = pc\<lparr>slidingWindows := (slidingWindows pc)(substreamID \<mapsto> sw)\<rparr>"

definition CreatePacketDispatchQueue :: "prudp_connection \<Rightarrow> u8 \<Rightarrow> prudp_connection \<times> dispatch_queue" where
  "CreatePacketDispatchQueue pc substreamID =
     (let pdq = NewPacketDispatchQueue
      in (pc\<lparr>packetDispatchQueues := (packetDispatchQueues pc)(substreamID \<mapsto> pdq)\<rparr>, pdq))"

definition PacketDispatchQueue :: "prudp_connection \<Rightarrow> u8 \<Rightarrow> prudp_connection \<times> dispatch_queue" where
  "PacketDispatchQueue pc substreamID =
     (case packetDispatchQueues pc substreamID of
        None \<Rightarrow> CreatePacketDispatchQueue pc substreamID
      | Some pdq \<Rightarrow> (pc, pdq))"

definition set_queue :: "prudp_connection \<Rightarrow> u8 \<Rightarrow> dispatch_queue \<Rightarrow> prudp_connection" where
  "set_queue pc substreamID pdq =
     pc\<lparr>packetDispatchQueues := (packetDispatchQueues pc)(substreamID \<mapsto> pdq)\<rparr>"

text \<open>The substreams 0 to the maximum; the count is computed in eight bits.\<close>

definition substreams :: "u8 \<Rightarrow> u8 list" where
  "substreams maxSubstreamID = map of_nat [0..<unat (maxSubstreamID + 1)]"

definition InitializeSlidingWindows :: "prudp_connection \<Rightarrow> u8 \<Rightarrow> prudp_connection" where
  "InitializeSlidingWindows pc maxSubstreamID =
     fold (\<lambda>i pc. fst (CreateSlidingWindow pc i)) (substreams maxSubstreamID) (pc\<lparr>slidingWindows := Map.empty\<rparr>)"

definition InitializePacketDispatchQueues :: "prudp_connection \<Rightarrow> u8 \<Rightarrow> prudp_connection" where
  "InitializePacketDispatchQueues pc maxSubstreamID =
     fold (\<lambda>i pc. fst (CreatePacketDispatchQueue pc i)) (substreams maxSubstreamID)
       (pc\<lparr>packetDispatchQueues := Map.empty\<rparr>)"

definition GetIncomingFragmentBuffer :: "prudp_connection \<Rightarrow> u8 \<Rightarrow> bytes" where
  "GetIncomingFragmentBuffer pc substreamID =
     (case incomingFragmentBuffers pc substreamID of None \<Rightarrow> [] | Some b \<Rightarrow> b)"

definition SetIncomingFragmentBuffer :: "prudp_connection \<Rightarrow> u8 \<Rightarrow> bytes \<Rightarrow> prudp_connection" where
  "SetIncomingFragmentBuffer pc substreamID buffer =
     pc\<lparr>incomingFragmentBuffers := (incomingFragmentBuffers pc)(substreamID \<mapsto> buffer)\<rparr>"

definition ClearOutgoingBuffer :: "prudp_connection \<Rightarrow> u8 \<Rightarrow> prudp_connection" where
  "ClearOutgoingBuffer pc substreamID =
     pc\<lparr>incomingFragmentBuffers := (incomingFragmentBuffers pc)(substreamID \<mapsto> [])\<rparr>"

subsection \<open>Session keys\<close>

text \<open>The key of the next substream: the first half of the bytes is shifted.\<close>

definition modify_key :: "bytes \<Rightarrow> bytes" where
  "modify_key sessionKey =
     (let modifier = length sessionKey div 2 + 1
      in map (\<lambda>i. if i < length sessionKey div 2 then sessionKey ! i + of_nat (modifier - i) else sessionKey ! i)
           [0..<length sessionKey])"

text \<open>The loop over the windows, in the order the map is visited: \<^verbatim>\<open>sessionKey\<close> is assigned in it.\<close>

fun set_substream_keys :: "u8 list \<Rightarrow> (u8 \<rightharpoonup> sliding_window) \<Rightarrow> bytes \<Rightarrow> (u8 \<rightharpoonup> sliding_window) \<times> bytes" where
  "set_substream_keys [] ws sessionKey = (ws, sessionKey)"
| "set_substream_keys (s # ss) ws sessionKey =
     (case ws s of
        None \<Rightarrow> set_substream_keys ss ws sessionKey
      | Some sw \<Rightarrow>
          (let sessionKey = (if s = 0 then sessionKey else modify_key sessionKey)
           in set_substream_keys ss (ws(s \<mapsto> SetCipherKey sw sessionKey)) sessionKey))"

definition unreliable_base_key :: "bytes \<Rightarrow> bytes" where
  "unreliable_base_key sessionKey =
     md5 (sessionKey @ [0x18, 0xD8, 0x23, 0x34, 0x37, 0xE4, 0xE3, 0xFE]) @
     md5 (sessionKey @ [0x23, 0x3E, 0x60, 0x01, 0x23, 0xCD, 0xAB, 0x80])"

definition SetSessionKey :: "(u8 set \<Rightarrow> u8 list) \<Rightarrow> prudp_connection \<Rightarrow> bytes \<Rightarrow> prudp_connection" where
  "SetSessionKey ord pc sessionKey =
     (case set_substream_keys (ord (dom (slidingWindows pc))) (slidingWindows pc) sessionKey of
        (ws, lastKey) \<Rightarrow>
          pc\<lparr>pc_SessionKey := sessionKey, slidingWindows := ws,
             UnreliablePacketBaseKey := unreliable_base_key lastKey\<rparr>)"

subsection \<open>Unreliable packets\<close>

text \<open>
  \<^verbatim>\<open>processUnreliableCrypto\<close>: the slice expression \<^verbatim>\<open>UnreliablePacketBaseKey[:]\<close> shares the array of the
  field, so the assignments to \<^verbatim>\<open>uniqueKey\<close> change the connection's base key.
\<close>

definition unique_key :: "bytes \<Rightarrow> prudp_packet \<Rightarrow> bytes" where
  "unique_key base p =
     base[0 := ucast ((ucast (base ! 0) + p_sequenceID p) AND 0xFF),
          1 := ucast ((ucast (base ! 1) + drop_bit 8 (p_sequenceID p)) AND 0xFF),
          31 := (base ! 31 + p_sessionID p) AND 0xFF]"

definition processUnreliableCrypto :: "prudp_connection \<Rightarrow> prudp_packet \<Rightarrow> prudp_connection \<times> bytes" where
  "processUnreliableCrypto pc p =
     (let uniqueKey = unique_key (UnreliablePacketBaseKey pc) p
      in (pc\<lparr>UnreliablePacketBaseKey := uniqueKey\<rparr>,
          (case NewCipher uniqueKey of None \<Rightarrow> [] | Some c \<Rightarrow> XORKeyStream c (p_payload p))))"

subsection \<open>Sending\<close>

definition is_ack :: "prudp_packet \<Rightarrow> bool" where
  "is_ack p \<longleftrightarrow> has_flag p FlagAck \<or> has_flag p FlagMultiAck"

definition assign_sequence :: "prudp_connection \<Rightarrow> prudp_packet \<Rightarrow> prudp_connection \<times> prudp_packet" where
  "assign_sequence pc p =
     (if is_ack p then (pc, p)
      else if has_flag p FlagReliable then
        (case SlidingWindow pc (p_substreamID p) of
           (pc, sw) \<Rightarrow>
             (case NextOutgoingSequenceID sw of
                (sw, v) \<Rightarrow> (set_window pc (p_substreamID p) sw, p\<lparr>p_sequenceID := v\<rparr>)))
      else if p_type p = DataPacket then
        (let v = OutgoingUnreliableSequenceIDCounter pc + 1
         in (pc\<lparr>OutgoingUnreliableSequenceIDCounter := v\<rparr>, p\<lparr>p_sequenceID := v\<rparr>))
      else if p_type p = PingPacket then
        (let v = outgoingPingSequenceIDCounter pc + 1
         in (pc\<lparr>outgoingPingSequenceIDCounter := v\<rparr>, p\<lparr>p_sequenceID := v\<rparr>))
      else (pc, p\<lparr>p_sequenceID := 0\<rparr>))"

definition encrypt_payload :: "prudp_connection \<Rightarrow> prudp_packet \<Rightarrow> prudp_connection \<times> prudp_packet" where
  "encrypt_payload pc p =
     (if p_type p = DataPacket \<and> \<not> is_ack p then
        (if has_flag p FlagReliable then
           (case SlidingWindow pc (p_substreamID p) of
              (pc, sw) \<Rightarrow>
                (if p_payload p \<noteq> [] then
                   (case EncryptWindow sw (p_payload p) of
                      (sw, out) \<Rightarrow> (set_window pc (p_substreamID p) sw, p\<lparr>p_payload := out\<rparr>))
                 else (pc, p)))
         else if p_version p \<noteq> 2 then
           (case processUnreliableCrypto pc p of (pc, out) \<Rightarrow> (pc, p\<lparr>p_payload := out\<rparr>))
         else (pc, p))
      else (pc, p))"

definition schedule_resend :: "prudp_connection \<Rightarrow> prudp_packet \<Rightarrow> prudp_connection" where
  "schedule_resend pc p =
     (if has_flag p FlagReliable \<and> has_flag p FlagNeedsAck then
        (case SlidingWindow pc (p_substreamID p) of
           (pc, sw) \<Rightarrow> set_window pc (p_substreamID p) (SchedulePacketTimeout sw p))
      else pc)"

text \<open>The packet that leaves, but for its signature, is the second component.\<close>

definition sendPacket :: "prudp_connection \<Rightarrow> prudp_packet \<Rightarrow> prudp_connection \<times> prudp_packet" where
  "sendPacket pc p =
     (case assign_sequence pc (CopyPacket p) of
        (pc, p) \<Rightarrow>
          (case encrypt_payload pc (p\<lparr>p_sessionID := ServerSessionID pc\<rparr>) of
             (pc, p) \<Rightarrow>
               (let p = p\<lparr>p_sendCount := p_sendCount p + 1\<rparr>
                in (schedule_resend pc p, p))))"

fun send_all :: "prudp_connection \<Rightarrow> prudp_packet list \<Rightarrow> prudp_connection \<times> prudp_packet list" where
  "send_all pc [] = (pc, [])"
| "send_all pc (p # ps) =
     (case sendPacket pc p of
        (pc, out) \<Rightarrow> (case send_all pc ps of (pc, outs) \<Rightarrow> (pc, out # outs)))"

text \<open>The loop of \<^verbatim>\<open>PRUDPServer.Send\<close>: the fragment ID and the bytes of each packet. The ID counts from
  1 in eight bits and the last fragment has ID 0.\<close>

fun fragment_loop :: "nat \<Rightarrow> nat \<Rightarrow> u8 \<Rightarrow> bytes \<Rightarrow> (u8 \<times> bytes) list" where
  "fragment_loop fragmentSize 0 fragmentID data = []"
| "fragment_loop fragmentSize (Suc n) fragmentID data =
     (if length data < fragmentSize then (0, data) # fragment_loop fragmentSize n fragmentID data
      else (fragmentID, take fragmentSize data) # fragment_loop fragmentSize n (fragmentID + 1) (drop fragmentSize data))"

definition fragments :: "nat \<Rightarrow> bytes \<Rightarrow> (u8 \<times> bytes) list" where
  "fragments fragmentSize data = fragment_loop fragmentSize (length data div fragmentSize + 1) 1 data"

text \<open>A fragment size of 0 is a division by zero, which panics; the size of this server is 1300.\<close>

definition FragmentSize :: nat where "FragmentSize = 1300"

definition Send :: "nat \<Rightarrow> prudp_connection \<Rightarrow> prudp_packet \<Rightarrow> (prudp_connection \<times> prudp_packet list) option" where
  "Send fragmentSize pc packet =
     (if fragmentSize = 0 then None
      else Some (send_all pc
        (map (\<lambda>(fid, data). packet\<lparr>p_payload := data, p_fragmentID := fid\<rparr>) (fragments fragmentSize (p_payload packet)))))"

definition AcknowledgePacket :: "prudp_connection \<Rightarrow> prudp_packet \<Rightarrow> prudp_connection \<times> prudp_packet list" where
  "AcknowledgePacket pc packet =
     (let ack = (reply_to packet (p_type packet))\<lparr>
            p_sequenceID := p_sequenceID packet, p_fragmentID := p_fragmentID packet,
            p_substreamID := p_substreamID packet\<rparr>
      in send_all pc (if p_type packet = DisconnectPacket then [ack, ack, ack] else [ack]))"

subsection \<open>Receiving data\<close>

record data_event =
  ev_packet :: prudp_packet
  ev_message :: packed_message

definition decryptPayload :: "prudp_connection \<Rightarrow> prudp_packet \<Rightarrow> prudp_connection \<times> bytes" where
  "decryptPayload pc p =
     (if p_type p = DataPacket then
        (case SlidingWindow pc (p_substreamID p) of
           (pc, sw) \<Rightarrow>
             (case DecryptWindow sw (p_payload p) of
                (sw, out) \<Rightarrow> (set_window pc (p_substreamID p) sw, out)))
      else (pc, p_payload p))"

text \<open>The body of the dispatch loop. A message that does not parse is handed on as far as it was read.\<close>

definition dispatch_data :: "u8 \<Rightarrow> prudp_connection \<Rightarrow> prudp_packet \<Rightarrow> prudp_connection \<times> data_event list" where
  "dispatch_data substreamID pc nextPacket =
     (if p_type nextPacket = DataPacket then
        (case (if p_version nextPacket \<noteq> 2 then decryptPayload pc nextPacket else (pc, p_payload nextPacket)) of
           (pc, payload) \<Rightarrow>
             (let buffer = GetIncomingFragmentBuffer pc substreamID @ payload;
                  pc = SetIncomingFragmentBuffer pc substreamID buffer
              in if p_fragmentID nextPacket = 0
                 then (ClearOutgoingBuffer pc substreamID,
                       [\<lparr>ev_packet = nextPacket, ev_message = fst (FromBytes buffer)\<rparr>])
                 else (pc, [])))
      else (pc, []))"

partial_function (option) dispatch_loop ::
  "u8 \<Rightarrow> prudp_connection \<Rightarrow> data_event list \<Rightarrow> (prudp_connection \<times> data_event list) option" where
  "dispatch_loop substreamID pc evs =
     (case PacketDispatchQueue pc substreamID of
        (pc, pdq) \<Rightarrow>
          (case GetNextToDispatch pdq of
             None \<Rightarrow> Some (pc, evs)
           | Some nextPacket \<Rightarrow>
               (case dispatch_data substreamID pc nextPacket of
                  (pc, es) \<Rightarrow>
                    dispatch_loop substreamID (set_queue pc substreamID (Dispatched pdq nextPacket)) (evs @ es))))"

definition queue_packet :: "prudp_connection \<Rightarrow> prudp_packet \<Rightarrow> prudp_connection" where
  "queue_packet pc packet =
     (case PacketDispatchQueue pc (p_substreamID packet) of
        (pc, pdq) \<Rightarrow> set_queue pc (p_substreamID packet) (Queue pdq packet))"

text \<open>The connection, the packets sent and the messages for the protocols, in order; None is a loop that
  does not end.\<close>

definition HandleReliable ::
  "prudp_connection \<Rightarrow> prudp_packet \<Rightarrow> (prudp_connection \<times> prudp_packet list \<times> data_event list) option" where
  "HandleReliable pc packet =
     (case (if has_flag packet FlagNeedsAck then AcknowledgePacket pc packet else (pc, [])) of
        (pc, acks) \<Rightarrow>
          map_option (\<lambda>(pc, evs). (pc, acks, evs))
            (dispatch_loop (p_substreamID packet) (queue_packet pc packet) []))"

definition HandleUnreliable ::
  "prudp_connection \<Rightarrow> prudp_packet \<Rightarrow> prudp_connection \<times> prudp_packet list \<times> data_event list" where
  "HandleUnreliable pc packet =
     (case (if has_flag packet FlagNeedsAck then AcknowledgePacket pc packet else (pc, [])) of
        (pc, acks) \<Rightarrow>
          (if p_fragmentID packet \<noteq> 0 then (pc, acks, [])
           else
             (case processUnreliableCrypto pc packet of
                (pc, payload) \<Rightarrow>
                  (pc, acks, [\<lparr>ev_packet = packet, ev_message = fst (FromBytes payload)\<rparr>]))))"

end
