(* ===== verification/Delivery.thy ===== *)
theory Delivery
  imports Prudp
begin

text \<open>
  Reliable substreams end to end: what \<^verbatim>\<open>Send\<close> puts on the wire, what \<^verbatim>\<open>HandleReliable\<close> makes of it
  when the network loses, repeats and reorders packets, and how long a message may be. The
  specification is the list of messages itself.
\<close>

subsection \<open>What is sent\<close>

text \<open>A template of a reliable data packet of PRUDP version 0 or 1.\<close>

definition reliable_data :: "u8 \<Rightarrow> prudp_packet \<Rightarrow> bool" where
  "reliable_data s t \<longleftrightarrow> p_type t = DataPacket \<and> p_version t \<noteq> 2 \<and> has_flag t FlagReliable \<and> \<not> is_ack t \<and>
     p_substreamID t = s"

text \<open>The packets of a list of fragments, from a sequence counter and a cipher position on.\<close>

fun on_wire :: "prudp_packet \<Rightarrow> u16 \<Rightarrow> rc4_cipher \<Rightarrow> (u8 \<times> bytes) list \<Rightarrow> prudp_packet list" where
  "on_wire t k c [] = []"
| "on_wire t k c (f # fs) =
     t\<lparr>p_fragmentID := fst f, p_sequenceID := k + 1, p_payload := XORKeyStream c (snd f)\<rparr> #
       on_wire t (k + 1) (rc4_after c (snd f)) fs"

lemma length_on_wire [simp]: "length (on_wire t k c fs) = length fs"
  by (induction t k c fs rule: on_wire.induct) auto

lemma on_wire_append:
  "on_wire t k c (fs @ gs) =
     on_wire t k c fs @ on_wire t (k + of_nat (length fs)) (rc4_after c (concat (map snd fs))) gs"
  by (induction t k c fs rule: on_wire.induct) (simp_all add: add.assoc add.left_commute)

lemma nth_on_wire:
  "i < length fs \<Longrightarrow>
   on_wire t k c fs ! i =
     t\<lparr>p_fragmentID := fst (fs ! i), p_sequenceID := k + of_nat (Suc i),
       p_payload := XORKeyStream (rc4_after c (concat (map snd (take i fs)))) (snd (fs ! i))\<rparr>"
proof (induction t k c fs arbitrary: i rule: on_wire.induct)
  case (2 t k c f fs)
  then show ?case by (cases i) (simp_all add: add.assoc add.left_commute)
qed simp

definition send_state :: "prudp_connection \<Rightarrow> u8 \<Rightarrow> (u16 \<times> rc4_cipher) option" where
  "send_state pc s =
     map_option (\<lambda>sw. (sequenceIDCounter sw, cipher (EncryptionAlgorithm sw))) (slidingWindows pc s)"

definition stamped :: "prudp_connection \<Rightarrow> prudp_packet \<Rightarrow> prudp_packet" where
  "stamped pc t = t\<lparr>p_sessionID := ServerSessionID pc, p_sendCount := 1\<rparr>"

lemma reliable_data_update [simp]:
  "reliable_data s (t\<lparr>p_payload := d\<rparr>) = reliable_data s t"
  "reliable_data s (t\<lparr>p_fragmentID := fid\<rparr>) = reliable_data s t"
  "reliable_data s (t\<lparr>p_sequenceID := q\<rparr>) = reliable_data s t"
  "reliable_data s (t\<lparr>p_sessionID := i\<rparr>) = reliable_data s t"
  "reliable_data s (t\<lparr>p_sendCount := n\<rparr>) = reliable_data s t"
  by (simp_all add: reliable_data_def has_flag_def is_ack_def)

lemma window_reliable:
  assumes "send_state pc s = Some (k, c)"
  obtains sw where "SlidingWindow pc s = (pc, sw)" "sequenceIDCounter sw = k"
    "cipher (EncryptionAlgorithm sw) = c"
  using assms by (auto simp: send_state_def SlidingWindow_def)

lemma send_state_set_window:
  "send_state (set_window pc s sw) s = Some (sequenceIDCounter sw, cipher (EncryptionAlgorithm sw))"
  by (simp add: send_state_def set_window_def)

lemma assign_sequence_reliable:
  assumes "reliable_data s t" and "send_state pc s = Some (k, c)"
  shows "\<exists>pc'. assign_sequence pc t = (pc', t\<lparr>p_sequenceID := k + 1\<rparr>) \<and>
    send_state pc' s = Some (k + 1, c) \<and> ServerSessionID pc' = ServerSessionID pc"
proof -
  obtain sw where sw: "SlidingWindow pc s = (pc, sw)" "sequenceIDCounter sw = k"
      "cipher (EncryptionAlgorithm sw) = c" by (rule window_reliable [OF assms(2)])
  then show ?thesis
    using assms(1) by (simp add: assign_sequence_def reliable_data_def NextOutgoingSequenceID_def
        send_state_set_window Let_def) (simp add: set_window_def)
qed

lemma encrypt_payload_reliable:
  assumes "reliable_data s t" and "send_state pc s = Some (k, c)"
  shows "\<exists>pc'. encrypt_payload pc t = (pc', t\<lparr>p_payload := XORKeyStream c (p_payload t)\<rparr>) \<and>
    send_state pc' s = Some (k, rc4_after c (p_payload t)) \<and> ServerSessionID pc' = ServerSessionID pc"
proof -
  obtain sw where sw: "SlidingWindow pc s = (pc, sw)" "sequenceIDCounter sw = k"
      "cipher (EncryptionAlgorithm sw) = c" by (rule window_reliable [OF assms(2)])
  show ?thesis
  proof (cases "p_payload t = []")
    case True
    have "t = t\<lparr>p_payload := []\<rparr>" using True by (cases t) simp
    with True sw assms show ?thesis by (simp add: encrypt_payload_def reliable_data_def)
  next
    case False
    with sw assms(1) show ?thesis
      by (simp add: encrypt_payload_def reliable_data_def EncryptWindow_def EncryptStream_def
          send_state_set_window) (simp add: set_window_def)
  qed
qed

lemma schedule_resend_reliable:
  assumes "reliable_data s t"
  shows "send_state pc s = Some kc \<Longrightarrow> send_state (schedule_resend pc t) s = Some kc"
    and "send_state pc s = Some kc \<Longrightarrow> ServerSessionID (schedule_resend pc t) = ServerSessionID pc"
  using assms
  by (auto simp: schedule_resend_def reliable_data_def SlidingWindow_def SchedulePacketTimeout_def
      send_state_def set_window_def split: option.splits)

lemma sendPacket_reliable:
  assumes "reliable_data s t" and "send_state pc s = Some (k, c)"
  shows "\<exists>pc'. sendPacket pc t =
      (pc', (stamped pc t)\<lparr>p_sequenceID := k + 1, p_payload := XORKeyStream c (p_payload t)\<rparr>) \<and>
    send_state pc' s = Some (k + 1, rc4_after c (p_payload t)) \<and> ServerSessionID pc' = ServerSessionID pc"
proof -
  let ?t = "CopyPacket t"
  let ?p = "?t\<lparr>p_sequenceID := k + 1, p_sessionID := ServerSessionID pc\<rparr>"
  let ?q = "?p\<lparr>p_payload := XORKeyStream c (p_payload t)\<rparr>"
  have copy: "reliable_data s ?t" using assms(1) by (simp add: CopyPacket_def)
  obtain pc1 where seq: "assign_sequence pc ?t = (pc1, ?t\<lparr>p_sequenceID := k + 1\<rparr>)"
      "send_state pc1 s = Some (k + 1, c)" "ServerSessionID pc1 = ServerSessionID pc"
    using assign_sequence_reliable [OF copy assms(2)] by blast
  have "reliable_data s ?p" using copy by simp
  from encrypt_payload_reliable [OF this seq(2)]
  obtain pc2 where enc: "encrypt_payload pc1 ?p = (pc2, ?q)"
      "send_state pc2 s = Some (k + 1, rc4_after c (p_payload t))" "ServerSessionID pc2 = ServerSessionID pc1"
    by (auto simp: CopyPacket_def)
  let ?r = "?q\<lparr>p_sendCount := 1\<rparr>"
  have "reliable_data s ?r" using copy by simp
  note sched = schedule_resend_reliable [OF this, of pc2]
  have "sendPacket pc t = (schedule_resend pc2 ?r, ?r)"
    using seq(1,3) enc(1) by (simp add: sendPacket_def Let_def CopyPacket_def)
  then show ?thesis using sched enc seq(3) by (simp add: stamped_def CopyPacket_def)
qed

lemma send_all_reliable:
  assumes "reliable_data s t" and "send_state pc s = Some (k, c)"
  shows "\<exists>pc'. send_all pc (map (\<lambda>(fid, data). t\<lparr>p_payload := data, p_fragmentID := fid\<rparr>) fs) =
      (pc', on_wire (stamped pc t) k c fs) \<and>
    send_state pc' s = Some (k + of_nat (length fs), rc4_after c (concat (map snd fs))) \<and>
    ServerSessionID pc' = ServerSessionID pc"
  using assms(2)
proof (induction fs arbitrary: pc k c)
  case Nil
  then show ?case by simp
next
  case (Cons f fs)
  obtain fid d where f: "f = (fid, d)" by (cases f)
  let ?p = "t\<lparr>p_payload := d, p_fragmentID := fid\<rparr>"
  have "reliable_data s ?p" using assms(1) by simp
  from sendPacket_reliable [OF this Cons.prems] obtain pc1 where pc1:
    "sendPacket pc ?p = (pc1, (stamped pc ?p)\<lparr>p_sequenceID := k + 1, p_payload := XORKeyStream c d\<rparr>)"
    "send_state pc1 s = Some (k + 1, rc4_after c d)" "ServerSessionID pc1 = ServerSessionID pc"
    by auto
  from Cons.IH [OF pc1(2)] obtain pc2 where pc2:
    "send_all pc1 (map (\<lambda>(fid, data). t\<lparr>p_payload := data, p_fragmentID := fid\<rparr>) fs) =
      (pc2, on_wire (stamped pc1 t) (k + 1) (rc4_after c d) fs)"
    "send_state pc2 s = Some (k + 1 + of_nat (length fs), rc4_after (rc4_after c d) (concat (map snd fs)))"
    "ServerSessionID pc2 = ServerSessionID pc1" by blast
  have "stamped pc1 t = stamped pc t" using pc1(3) by (simp add: stamped_def)
  then show ?case using pc1 pc2 by (simp add: f stamped_def add.assoc)
qed

subsection \<open>Fragments\<close>

text \<open>Putting fragments together: the complete messages, and the bytes of the one under way.\<close>

fun assemble :: "bytes \<Rightarrow> (u8 \<times> bytes) list \<Rightarrow> bytes list \<times> bytes" where
  "assemble buf [] = ([], buf)"
| "assemble buf (f # fs) =
     (if fst f = 0 then (case assemble [] fs of (ms, r) \<Rightarrow> ((buf @ snd f) # ms, r))
      else assemble (buf @ snd f) fs)"

lemma assemble_append:
  "assemble buf (fs @ gs) =
     (let (ms, r) = assemble buf fs; (ns, r') = assemble r gs in (ms @ ns, r'))"
  by (induction buf fs rule: assemble.induct) (auto simp: Let_def split: prod.splits)

lemma assemble_fragment_loop:
  assumes "0 < z" and "n = length data div z" and "unat fid + n \<le> 256" and "0 < unat fid"
  shows "assemble buf (fragment_loop z (Suc n) fid data) = ([buf @ data], [])"
  using assms
proof (induction n arbitrary: fid data buf)
  case 0
  then have "length data < z" by (simp add: div_eq_0_iff)
  then show ?case by simp
next
  case (Suc n)
  have "\<not> length data < z" using Suc.prems(2) by (metis div_less nat.distinct(1))
  have len: "length (drop z data) div z = n"
    using le_div_geq [of z "length data"] Suc.prems(1,2) \<open>\<not> length data < z\<close> by simp
  have "fid \<noteq> 0" using Suc.prems(4) by auto
  show ?case
  proof (cases n)
    case 0
    with len have "length (drop z data) < z" using Suc.prems(1) by (simp add: div_eq_0_iff)
    with 0 \<open>\<not> length data < z\<close> \<open>fid \<noteq> 0\<close> show ?thesis by simp
  next
    case (Suc m)
    then have "unat (fid + 1) = Suc (unat fid)"
      using Suc.prems(3) by (simp add: unat_word_ariths)
    then have rest: "assemble (buf @ take z data) (fragment_loop z (Suc n) (fid + 1) (drop z data)) =
        ([buf @ data], [])"
      using Suc.IH [of "drop z data" "fid + 1" "buf @ take z data"] Suc.prems len
      by (simp del: fragment_loop.simps)
    have "fragment_loop z (Suc (Suc n)) fid data =
        (fid, take z data) # fragment_loop z (Suc n) (fid + 1) (drop z data)"
      using \<open>\<not> length data < z\<close> by (subst fragment_loop.simps) (simp only: if_False)
    with rest \<open>fid \<noteq> 0\<close> show ?thesis by (simp del: fragment_loop.simps)
  qed
qed

lemma assemble_fragments:
  assumes "0 < z" and "length data < 256 * z"
  shows "assemble [] (fragments z data) = ([data], [])"
proof -
  have "length data div z < 256" using assms by (simp add: div_less_iff_less_mult)
  then show ?thesis using assemble_fragment_loop [of z _ data 1 "[]"] assms(1) by (simp add: fragments_def)
qed

text \<open>The 256th full fragment gets the ID 0, which ends a message.\<close>

lemma fragment_loop_full:
  "z \<le> length data \<Longrightarrow>
   fragment_loop z (Suc n) fid data = (fid, take z data) # fragment_loop z n (fid + 1) (drop z data)"
  by simp

lemma fragment_loop_cut:
  assumes "unat fid + Suc j = 256" and "0 < unat fid" and "(j + 2) * z \<le> length data"
  shows "assemble buf (fragment_loop z (Suc (Suc j + n)) fid data) =
    (let (ms, r) = assemble [] (fragment_loop z n 1 (drop ((j + 2) * z) data))
     in ((buf @ take ((j + 2) * z) data) # ms, r))"
  using assms
proof (induction j arbitrary: fid data buf)
  case 0
  then have "unat (fid + 1) = 0" by (simp add: unat_word_ariths)
  then have next_id: "fid + 1 = 0" by (simp only: unat_eq_zero)
  have "fid \<noteq> 0" using 0 by auto
  have "z \<le> length data" "z \<le> length (drop z data)" using 0 by auto
  then have "fragment_loop z (Suc (Suc 0 + n)) fid data =
      (fid, take z data) # (0, take z (drop z data)) # fragment_loop z n 1 (drop z (drop z data))"
    by (simp only: fragment_loop_full add_Suc add_0 next_id)
  then show ?case
    using \<open>fid \<noteq> 0\<close> take_add [of z z data]
    by (simp add: add.commute mult_2 del: fragment_loop.simps split: prod.split)
next
  case (Suc j)
  then have next_id: "unat (fid + 1) = Suc (unat fid)" by (simp add: unat_word_ariths)
  have "fid \<noteq> 0" using Suc.prems by auto
  have split: "take ((Suc j + 2) * z) data = take z data @ take ((j + 2) * z) (drop z data)"
    by (simp only: add_Suc mult_Suc take_add)
  have drops: "drop ((j + 2) * z) (drop z data) = drop ((Suc j + 2) * z) data"
    by (simp add: add.commute add.left_commute)
  have "z \<le> length data" "(j + 2) * z \<le> length (drop z data)" using Suc.prems(3) by auto
  from Suc.IH [OF _ _ this(2), of "fid + 1" "buf @ take z data"] Suc.prems(1,2) next_id
  have "assemble (buf @ take z data) (fragment_loop z (Suc (Suc j + n)) (fid + 1) (drop z data)) =
      (let (ms, r) = assemble [] (fragment_loop z n 1 (drop ((Suc j + 2) * z) data))
       in (((buf @ take z data) @ take ((j + 2) * z) (drop z data)) # ms, r))"
    unfolding drops by simp
  moreover have "fragment_loop z (Suc (Suc (Suc j) + n)) fid data =
      (fid, take z data) # fragment_loop z (Suc (Suc j + n)) (fid + 1) (drop z data)"
    using fragment_loop_full [OF \<open>z \<le> length data\<close>, of "Suc (Suc j + n)"] by (simp only: add_Suc)
  ultimately show ?case using \<open>fid \<noteq> 0\<close>
    by (simp only: assemble.simps split append_assoc fst_conv snd_conv if_False)
qed

lemma long_message_cut:
  assumes "0 < z" and "256 * z \<le> length data"
  shows "assemble [] (fragments z data) \<noteq> ([data], [])"
proof
  assume whole: "assemble [] (fragments z data) = ([data], [])"
  define n where "n = length data div z - 255"
  have "256 \<le> length data div z" using assms by (simp add: less_eq_div_iff_mult_less_eq)
  then have n: "length data div z + 1 = Suc (Suc 254 + n)" "1 \<le> n" by (simp_all add: n_def)
  obtain ms r where rest: "assemble [] (fragment_loop z n 1 (drop (256 * z) data)) = (ms, r)" by force
  have "assemble [] (fragments z data) = (take (256 * z) data # ms, r)"
    using fragment_loop_cut [of 1 254 z data "[]" n] assms(2) rest unfolding fragments_def n(1) by simp
  then have "take (256 * z) data = data" "ms = []" using whole by simp_all
  then have "length data = 256 * z" using assms(2) by (metis length_take min.absorb2)
  then have "n = 1" using assms(1) by (simp add: n_def)
  then show False using rest assms(1) \<open>ms = []\<close> \<open>length data = 256 * z\<close> by simp
qed

lemma assemble_all:
  assumes "0 < z" and "\<forall>m \<in> set ms. length m < 256 * z"
  shows "assemble [] (concat (map (fragments z) ms)) = (ms, [])"
  using assms(2) by (induction ms) (simp_all add: assemble_append assemble_fragments [OF assms(1)])

subsection \<open>What is received\<close>

definition recv_state :: "prudp_connection \<Rightarrow> u8 \<Rightarrow> (dispatch_queue \<times> rc4_cipher \<times> bytes) option" where
  "recv_state pc s =
     (case (packetDispatchQueues pc s, slidingWindows pc s) of
        (Some q, Some sw) \<Rightarrow> Some (q, decipher (EncryptionAlgorithm sw), GetIncomingFragmentBuffer pc s)
      | _ \<Rightarrow> None)"

lemma recv_state_queue: "recv_state pc s = Some (q, d, buf) \<Longrightarrow> PacketDispatchQueue pc s = (pc, q)"
  by (auto simp: recv_state_def PacketDispatchQueue_def split: option.splits)

lemma recv_state_set_queue:
  "recv_state pc s = Some (q, d, buf) \<Longrightarrow> recv_state (set_queue pc s q') s = Some (q', d, buf)"
  by (auto simp: recv_state_def set_queue_def GetIncomingFragmentBuffer_def split: option.splits)

text \<open>A data packet of the substream at the head of the queue.\<close>

lemma dispatch_data_reliable:
  assumes "reliable_data s p" and "recv_state pc s = Some (q, d, buf)"
    and "asm = buf @ XORKeyStream d (p_payload p)"
  shows "\<exists>pc'. dispatch_data s pc p =
      (pc', if p_fragmentID p = 0 then [\<lparr>ev_packet = p, ev_message = fst (FromBytes asm)\<rparr>] else []) \<and>
    recv_state pc' s =
      Some (q, rc4_after d (p_payload p), if p_fragmentID p = 0 then [] else asm)"
  using assms
  by (auto simp: dispatch_data_def reliable_data_def decryptPayload_def recv_state_def SlidingWindow_def
      DecryptWindow_def DecryptStream_def set_window_def GetIncomingFragmentBuffer_def
      SetIncomingFragmentBuffer_def ClearOutgoingBuffer_def Let_def split: option.splits)

text \<open>The sequence ID of the packet at a position: data starts at 2, in sixteen bits.\<close>

definition seq_id :: "nat \<Rightarrow> u16" where
  "seq_id i = of_nat (i + 2)"

lemma seq_id_Suc: "seq_id (Suc i) = seq_id i + 1"
  by (simp add: seq_id_def)

lemma seq_id_0 [simp]: "seq_id 0 = 2"
  by (simp add: seq_id_def)

lemma seq_id_eq:
  assumes "i < 65536" and "j < 65536"
  shows "seq_id i = seq_id j \<longleftrightarrow> i = j"
proof -
  have "seq_id i = seq_id j \<longleftrightarrow> (of_nat i :: u16) = of_nat j" by (simp add: seq_id_def)
  moreover have "unat (of_nat i :: u16) = i" "unat (of_nat j :: u16) = j"
    using assms by (simp_all add: unat_of_nat)
  ultimately show ?thesis by metis
qed

text \<open>
  The state of the receiver after a set \<^verbatim>\<open>A\<close> of the packets (by position) arrived, some of them perhaps
  several times: the first \<^verbatim>\<open>n\<close> have been dispatched, and the queue holds what arrived beyond them. A
  packet that arrives again after it was dispatched stays in the queue.
\<close>

definition tracks ::
  "u8 \<Rightarrow> prudp_packet list \<Rightarrow> rc4_cipher \<Rightarrow> (u8 \<times> bytes) list \<Rightarrow> nat set \<Rightarrow> nat \<Rightarrow> prudp_connection \<Rightarrow> bool" where
  "tracks s pkts c fs A n pc \<longleftrightarrow> n \<le> length fs \<and> {0..<n} \<subseteq> A \<and>
     (\<exists>q. recv_state pc s =
        Some (q, rc4_after c (concat (map snd (take n fs))), snd (assemble [] (take n fs))) \<and>
      nextExpectedSequenceId q = seq_id n \<and>
      (\<forall>k p. queue q k = Some p \<longrightarrow> (\<exists>i < length fs. k = seq_id i \<and> p = pkts ! i \<and> i \<in> A)) \<and>
      (\<forall>i < length fs. i \<in> A \<longrightarrow> n \<le> i \<longrightarrow> queue q (seq_id i) = Some (pkts ! i)))"

definition delivered :: "(u8 \<times> bytes) list \<Rightarrow> nat \<Rightarrow> packed_message list" where
  "delivered fs n = map (\<lambda>b. fst (FromBytes b)) (fst (assemble [] (take n fs)))"

lemma take_Suc_assemble:
  assumes "n < length fs" and "assemble [] (take n fs) = (ms, buf)"
  shows "assemble [] (take (Suc n) fs) =
    (if fst (fs ! n) = 0 then (ms @ [buf @ snd (fs ! n)], []) else (ms, buf @ snd (fs ! n)))"
  using assms by (simp add: take_Suc_conv_app_nth assemble_append Let_def)

text \<open>The packets that carry the fragments of a stream, from its first sequence ID on.\<close>

definition stream_of :: "u8 \<Rightarrow> rc4_cipher \<Rightarrow> (u8 \<times> bytes) list \<Rightarrow> prudp_packet list \<Rightarrow> bool" where
  "stream_of s c fs pkts \<longleftrightarrow> length pkts = length fs \<and> length fs < 65536 \<and>
     (\<forall>i < length fs. reliable_data s (pkts ! i) \<and> p_sequenceID (pkts ! i) = seq_id i \<and>
        p_fragmentID (pkts ! i) = fst (fs ! i) \<and>
        p_payload (pkts ! i) = XORKeyStream (rc4_after c (concat (map snd (take i fs)))) (snd (fs ! i)))"

lemma on_wire_stream:
  assumes "reliable_data s t" and "length fs < 65536"
  shows "stream_of s c fs (on_wire t 1 c fs)"
  using assms by (simp add: stream_of_def nth_on_wire seq_id_def add.commute)

lemma stream_of_short: "stream_of s c fs pkts \<Longrightarrow> length fs < 65536"
  by (simp add: stream_of_def)

lemma nth_packet:
  assumes "stream_of s c fs pkts" and "i < length fs"
  shows "reliable_data s (pkts ! i)" and "p_sequenceID (pkts ! i) = seq_id i"
    and "p_fragmentID (pkts ! i) = fst (fs ! i)" and "p_substreamID (pkts ! i) = s"
    and "p_payload (pkts ! i) =
      XORKeyStream (rc4_after c (concat (map snd (take i fs)))) (snd (fs ! i))"
  using assms by (simp_all add: stream_of_def) (simp add: reliable_data_def)

text \<open>One turn of the loop.\<close>

lemma tracks_dispatch:
  assumes stream: "stream_of s c fs pkts" and tr: "tracks s pkts c fs A n pc" and "n < length fs" and "n \<in> A"
  shows "\<exists>q pc1 es. PacketDispatchQueue pc s = (pc, q) \<and> GetNextToDispatch q = Some (pkts ! n) \<and>
    dispatch_data s pc (pkts ! n) = (pc1, es) \<and>
    tracks s pkts c fs A (Suc n) (set_queue pc1 s (Dispatched q (pkts ! n))) \<and>
    delivered fs (Suc n) = delivered fs n @ map ev_message es"
proof -
  obtain ms buf where asm: "assemble [] (take n fs) = (ms, buf)" by force
  let ?d = "rc4_after c (concat (map snd (take n fs)))"
  obtain q where q: "recv_state pc s = Some (q, ?d, buf)" "nextExpectedSequenceId q = seq_id n"
    "\<And>k p. queue q k = Some p \<Longrightarrow> \<exists>i < length fs. k = seq_id i \<and> p = pkts ! i \<and> i \<in> A"
    "\<And>i. i < length fs \<Longrightarrow> i \<in> A \<Longrightarrow> n \<le> i \<Longrightarrow> queue q (seq_id i) = Some (pkts ! i)"
    using tr by (auto simp: tracks_def asm)
  note pkt = nth_packet [OF stream assms(3)]
  have get: "GetNextToDispatch q = Some (pkts ! n)"
    using q(4) [OF assms(3,4)] by (simp add: GetNextToDispatch_def q(2))
  obtain pc1 es where one: "dispatch_data s pc (pkts ! n) = (pc1, es)"
    "recv_state pc1 s = Some (q, rc4_after ?d (snd (fs ! n)), if fst (fs ! n) = 0 then [] else buf @ snd (fs ! n))"
    "map ev_message es = (if fst (fs ! n) = 0 then [fst (FromBytes (buf @ snd (fs ! n)))] else [])"
    using dispatch_data_reliable [OF pkt(1) q(1) refl] by (auto simp: pkt(3,5))
  let ?q = "Dispatched q (pkts ! n)"
  note next_asm = take_Suc_assemble [OF assms(3) asm]
  have "queue ?q k = Some p \<Longrightarrow> \<exists>i < length fs. k = seq_id i \<and> p = pkts ! i \<and> i \<in> A" for k p
    using q(3) [of k p] by (auto simp: Dispatched_def split: if_splits)
  moreover have "queue ?q (seq_id i) = Some (pkts ! i)"
    if "i < length fs" "i \<in> A" "Suc n \<le> i" for i
  proof -
    have "seq_id i \<noteq> seq_id n"
      using seq_id_eq [of i n] that stream_of_short [OF stream] assms(3) by simp
    then have "queue ?q (seq_id i) = queue q (seq_id i)"
      by (simp add: Dispatched_def pkt(2))
    then show ?thesis using q(4) that by simp
  qed
  moreover have "nextExpectedSequenceId ?q = seq_id (Suc n)"
    by (simp add: Dispatched_def q(2) seq_id_Suc)
  ultimately have "tracks s pkts c fs A (Suc n) (set_queue pc1 s ?q)"
    using recv_state_set_queue [OF one(2), of ?q] tr assms(3,4) next_asm
    by (auto simp: tracks_def take_Suc_conv_app_nth atLeast0_lessThan_Suc)
  moreover have "delivered fs (Suc n) = delivered fs n @ map ev_message es"
    using one(3) next_asm asm by (simp add: delivered_def)
  ultimately show ?thesis using recv_state_queue [OF q(1)] get one(1) by blast
qed

lemma tracks_stop:
  assumes "length fs < 65536" and "tracks s pkts c fs A n pc" and "n < length fs \<longrightarrow> n \<notin> A"
  shows "\<exists>q. PacketDispatchQueue pc s = (pc, q) \<and> GetNextToDispatch q = None"
proof -
  obtain q d buf where q: "recv_state pc s = Some (q, d, buf)" "nextExpectedSequenceId q = seq_id n"
    "\<And>k p. queue q k = Some p \<Longrightarrow> \<exists>i < length fs. k = seq_id i \<and> p = pkts ! i \<and> i \<in> A"
    and n: "n \<le> length fs"
    using assms(2) by (auto simp: tracks_def)
  have "queue q (seq_id n) = None"
  proof (rule ccontr)
    assume "queue q (seq_id n) \<noteq> None"
    then obtain p where "queue q (seq_id n) = Some p" by blast
    then obtain i where i: "i < length fs" "seq_id n = seq_id i" "i \<in> A" using q(3) by blast
    then have "n = i" using seq_id_eq [of n i] n assms(1) by simp
    then show False using i assms(3) by simp
  qed
  then show ?thesis using recv_state_queue [OF q(1)] q(2) by (auto simp: GetNextToDispatch_def)
qed

text \<open>The loop ends, having dispatched every packet up to the first that is missing.\<close>

lemma dispatch_loop_tracks:
  assumes "stream_of s c fs pkts" and "tracks s pkts c fs A n pc"
  shows "\<exists>pc' es n'. dispatch_loop s pc evs = Some (pc', evs @ es) \<and> n \<le> n' \<and>
    tracks s pkts c fs A n' pc' \<and> delivered fs n' = delivered fs n @ map ev_message es \<and>
    (n' < length fs \<longrightarrow> n' \<notin> A)"
  using assms(2)
proof (induction "length fs - n" arbitrary: n pc evs rule: less_induct)
  case less
  show ?case
  proof (cases "n < length fs \<and> n \<in> A")
    case False
    then obtain q where "PacketDispatchQueue pc s = (pc, q)" "GetNextToDispatch q = None"
      using tracks_stop [OF stream_of_short [OF assms(1)] less.prems(1)] by blast
    then have "dispatch_loop s pc evs = Some (pc, evs @ [])" by (simp add: dispatch_loop.simps)
    moreover have "delivered fs n = delivered fs n @ map ev_message []" by simp
    ultimately show ?thesis using less.prems False by blast
  next
    case True
    then obtain q pc1 es where one: "PacketDispatchQueue pc s = (pc, q)" "GetNextToDispatch q = Some (pkts ! n)"
      "dispatch_data s pc (pkts ! n) = (pc1, es)"
      "tracks s pkts c fs A (Suc n) (set_queue pc1 s (Dispatched q (pkts ! n)))"
      "delivered fs (Suc n) = delivered fs n @ map ev_message es"
      using tracks_dispatch [OF assms(1) less.prems(1)] by blast
    have loop: "dispatch_loop s pc evs =
        dispatch_loop s (set_queue pc1 s (Dispatched q (pkts ! n))) (evs @ es)"
      using one(1-3) by (subst dispatch_loop.simps) simp
    have "length fs - Suc n < length fs - n" using True by (intro diff_less_mono2) simp_all
    from less.hyps [OF this one(4), of "evs @ es"] obtain pc' es' n' where
      "dispatch_loop s (set_queue pc1 s (Dispatched q (pkts ! n))) (evs @ es) = Some (pc', (evs @ es) @ es')"
      "Suc n \<le> n'" "tracks s pkts c fs A n' pc'" "n' < length fs \<longrightarrow> n' \<notin> A"
      "delivered fs n' = delivered fs (Suc n) @ map ev_message es'" by blast
    then show ?thesis
      using loop one(5) by (intro exI [of _ pc'] exI [of _ "es @ es'"] exI [of _ n']) simp
  qed
qed

lemma queue_packet_tracks:
  assumes "stream_of s c fs pkts" and "tracks s pkts c fs A n pc" and "i < length fs"
  shows "tracks s pkts c fs (insert i A) n (queue_packet pc (pkts ! i))"
proof -
  obtain q where q: "recv_state pc s =
      Some (q, rc4_after c (concat (map snd (take n fs))), snd (assemble [] (take n fs)))"
    "nextExpectedSequenceId q = seq_id n"
    "\<forall>k p. queue q k = Some p \<longrightarrow> (\<exists>i < length fs. k = seq_id i \<and> p = pkts ! i \<and> i \<in> A)"
    "\<forall>i < length fs. i \<in> A \<longrightarrow> n \<le> i \<longrightarrow> queue q (seq_id i) = Some (pkts ! i)"
    using assms(2) by (auto simp: tracks_def)
  note pkt = nth_packet [OF assms(1,3)]
  have eq: "queue_packet pc (pkts ! i) = set_queue pc s (Queue q (pkts ! i))"
    by (simp add: queue_packet_def pkt recv_state_queue [OF q(1)])
  have Q: "queue (Queue q (pkts ! i)) = (queue q)(seq_id i \<mapsto> pkts ! i)"
    by (simp add: Queue_def pkt(2))
  have "queue (Queue q (pkts ! i)) k = Some p \<Longrightarrow>
      \<exists>j < length fs. k = seq_id j \<and> p = pkts ! j \<and> j \<in> insert i A" for k p
    unfolding Q using q(3) assms(3) by (cases "k = seq_id i") auto
  moreover have "queue (Queue q (pkts ! i)) (seq_id j) = Some (pkts ! j)"
    if "j < length fs" "j \<in> insert i A" "n \<le> j" for j
  proof (cases "j = i")
    case False
    then have "seq_id j \<noteq> seq_id i"
      using seq_id_eq [of j i] that(1) assms(3) stream_of_short [OF assms(1)] by simp
    moreover have "j \<in> A" using False that(2) by simp
    ultimately show ?thesis unfolding Q using q(4) that(1,3) by simp
  qed (simp add: Q)
  moreover have "n \<le> length fs" "{0..<n} \<subseteq> insert i A" "nextExpectedSequenceId (Queue q (pkts ! i)) = seq_id n"
    using assms(2) q(2) by (auto simp: tracks_def Queue_def)
  ultimately show ?thesis
    unfolding tracks_def eq
    by (intro conjI exI [of _ "Queue q (pkts ! i)"] allI impI recv_state_set_queue [OF q(1)])
qed

subsection \<open>A whole conversation\<close>

lemma sendPacket_ack:
  assumes "p_flags p = FlagAck"
  shows "fst (sendPacket pc p) = pc"
proof -
  have "is_ack q" "\<not> has_flag q FlagReliable" if "p_flags q = FlagAck" for q
    using that by (simp_all add: is_ack_def has_flag_def)
  moreover have "p_flags (CopyPacket p) = FlagAck" "p_flags (CopyPacket p\<lparr>p_sessionID := i\<rparr>) = FlagAck" for i
    using assms by (simp_all add: CopyPacket_def)
  ultimately show ?thesis
    by (simp add: sendPacket_def assign_sequence_def encrypt_payload_def schedule_resend_def Let_def)
qed

lemma AcknowledgePacket_keeps: "fst (AcknowledgePacket pc p) = pc"
proof -
  have "fst (send_all pc ps) = pc" if "\<forall>q \<in> set ps. p_flags q = FlagAck" for ps
    using that
  proof (induction ps)
    case (Cons q qs)
    then have "fst (sendPacket pc q) = pc" by (simp add: sendPacket_ack)
    then obtain out where "sendPacket pc q = (pc, out)" by (metis prod.collapse)
    then show ?case using Cons by (auto split: prod.split)
  qed simp
  then show ?thesis by (simp add: AcknowledgePacket_def Let_def reply_to_def)
qed

lemma HandleReliable_tracks:
  assumes "stream_of s c fs pkts" and "tracks s pkts c fs A n pc" and "i < length fs"
  shows "\<exists>pc' acks evs n'. HandleReliable pc (pkts ! i) = Some (pc', acks, evs) \<and> n \<le> n' \<and>
    tracks s pkts c fs (insert i A) n' pc' \<and> delivered fs n' = delivered fs n @ map ev_message evs \<and>
    (n' < length fs \<longrightarrow> n' \<notin> insert i A)"
proof -
  define acks where
    "acks = (if has_flag (pkts ! i) FlagNeedsAck then snd (AcknowledgePacket pc (pkts ! i)) else [])"
  have "(if has_flag (pkts ! i) FlagNeedsAck then AcknowledgePacket pc (pkts ! i) else (pc, [])) = (pc, acks)"
    by (simp add: acks_def prod_eq_iff AcknowledgePacket_keeps)
  moreover have "p_substreamID (pkts ! i) = s" by (rule nth_packet(4) [OF assms(1,3)])
  moreover obtain pc' es n' where "dispatch_loop s (queue_packet pc (pkts ! i)) [] = Some (pc', [] @ es)" "n \<le> n'"
    "tracks s pkts c fs (insert i A) n' pc'" "delivered fs n' = delivered fs n @ map ev_message es"
    "n' < length fs \<longrightarrow> n' \<notin> insert i A"
    using dispatch_loop_tracks [OF assms(1) queue_packet_tracks [OF assms], of "[]"] by blast
  ultimately have "HandleReliable pc (pkts ! i) = Some (pc', acks, es)" by (simp add: HandleReliable_def)
  then show ?thesis
    using \<open>n \<le> n'\<close> \<open>tracks s pkts c fs (insert i A) n' pc'\<close> \<open>n' < length fs \<longrightarrow> n' \<notin> insert i A\<close>
      \<open>delivered fs n' = delivered fs n @ map ev_message es\<close> by blast
qed

fun receive_all :: "prudp_connection \<Rightarrow> prudp_packet list \<Rightarrow> (prudp_connection \<times> data_event list) option" where
  "receive_all pc [] = Some (pc, [])"
| "receive_all pc (p # ps) =
     (case HandleReliable pc p of
        None \<Rightarrow> None
      | Some (pc, acks, evs) \<Rightarrow> map_option (\<lambda>(pc, es). (pc, evs @ es)) (receive_all pc ps))"

fun transmit :: "nat \<Rightarrow> prudp_connection \<Rightarrow> prudp_packet \<Rightarrow> bytes list \<Rightarrow> (prudp_connection \<times> prudp_packet list) option" where
  "transmit z pc t [] = Some (pc, [])"
| "transmit z pc t (m # ms) =
     (case Send z pc (t\<lparr>p_payload := m\<rparr>) of
        None \<Rightarrow> None
      | Some (pc, ps) \<Rightarrow> map_option (\<lambda>(pc, qs). (pc, ps @ qs)) (transmit z pc t ms))"

lemma receive_all_tracks:
  assumes "stream_of s c fs pkts" and "tracks s pkts c fs A n pc" and "\<forall>i \<in> set is. i < length fs" and "n < length fs \<longrightarrow> n \<notin> A"
  shows "\<exists>pc' evs n'. receive_all pc (map ((!) pkts) is) = Some (pc', evs) \<and>
    tracks s pkts c fs (A \<union> set is) n' pc' \<and> delivered fs n' = delivered fs n @ map ev_message evs \<and>
    (n' < length fs \<longrightarrow> n' \<notin> A \<union> set is)"
  using assms(2-4)
proof (induction "is" arbitrary: A n pc)
  case Nil
  then show ?case by auto
next
  case (Cons i js)
  obtain pc1 acks es n1 where one: "HandleReliable pc (pkts ! i) = Some (pc1, acks, es)"
    "tracks s pkts c fs (insert i A) n1 pc1" "delivered fs n1 = delivered fs n @ map ev_message es"
    "n1 < length fs \<longrightarrow> n1 \<notin> insert i A"
    using HandleReliable_tracks [OF assms(1) Cons.prems(1), of i] Cons.prems(2) by auto
  obtain pc2 es2 n2 where "receive_all pc1 (map ((!) pkts) js) = Some (pc2, es2)"
    "tracks s pkts c fs (insert i A \<union> set js) n2 pc2" "delivered fs n2 = delivered fs n1 @ map ev_message es2"
    "n2 < length fs \<longrightarrow> n2 \<notin> insert i A \<union> set js"
    using Cons.IH [OF one(2) _ one(4)] Cons.prems(2) by auto
  then show ?case using one by auto
qed

lemma transmit_on_wire:
  assumes "reliable_data s t" and "0 < z" and "send_state pc s = Some (k, c)"
  shows "\<exists>pc'. transmit z pc t ms =
    Some (pc', on_wire (stamped pc t) k c (concat (map (fragments z) ms)))"
  using assms(3)
proof (induction ms arbitrary: pc k c)
  case Nil
  then show ?case by simp
next
  case (Cons m ms)
  have "reliable_data s (t\<lparr>p_payload := m\<rparr>)" using assms(1) by simp
  from send_all_reliable [OF this Cons.prems, of "fragments z m"] obtain pc1 where
    pc1: "send_all pc (map (\<lambda>(fid, data). t\<lparr>p_payload := data, p_fragmentID := fid\<rparr>) (fragments z m)) =
        (pc1, on_wire (stamped pc (t\<lparr>p_payload := m\<rparr>)) k c (fragments z m))"
      "send_state pc1 s = Some (k + of_nat (length (fragments z m)),
         rc4_after c (concat (map snd (fragments z m))))"
      "ServerSessionID pc1 = ServerSessionID pc" by auto
  have "on_wire (stamped pc (t\<lparr>p_payload := m\<rparr>)) k c fs = on_wire (stamped pc t) k c fs" for fs
    by (induction fs arbitrary: k c) (simp_all add: stamped_def)
  moreover have "stamped pc1 t = stamped pc t" using pc1(3) by (simp add: stamped_def)
  ultimately show ?case
    using Cons.IH [OF pc1(2)] pc1(1) assms(2) by (auto simp: Send_def on_wire_append)
qed

lemma reliable_data_stamped: "reliable_data s t \<Longrightarrow> reliable_data s (stamped pc t)"
  by (simp add: stamped_def)

lemma delivered_prefix:
  assumes "assemble [] fs = (map encodePacked ms, r)" and "\<forall>m \<in> set ms. packable m"
  shows "delivered fs n = take (length (delivered fs n)) ms" and "delivered fs (length fs) = ms"
proof -
  have ms: "map (\<lambda>b. fst (FromBytes b)) (map encodePacked ms) = ms"
    using assms(2) by (simp add: FromBytes_encodePacked map_idI)
  then show "delivered fs (length fs) = ms" using assms(1) by (simp add: delivered_def)
  obtain bs buf where "assemble [] (take n fs) = (bs, buf)" by force
  moreover obtain cs r' where "assemble buf (drop n fs) = (cs, r')" by force
  ultimately have "map encodePacked ms = bs @ cs"
    using assms(1) assemble_append [of "[]" "take n fs" "drop n fs"] by simp
  then have "ms = delivered fs n @ map (\<lambda>b. fst (FromBytes b)) cs"
    using ms \<open>assemble [] (take n fs) = (bs, buf)\<close> by (simp add: delivered_def)
  then show "delivered fs n = take (length (delivered fs n)) ms" by (metis append_eq_conv_conj)
qed

lemma positions: "set xs \<subseteq> set ys \<Longrightarrow> \<exists>is. xs = map ((!) ys) is \<and> (\<forall>i \<in> set is. i < length ys)"
proof (induction xs)
  case (Cons x xs)
  then obtain "is" i where "xs = map ((!) ys) is" "\<forall>i \<in> set is. i < length ys" "i < length ys" "x = ys ! i"
    by (auto simp: in_set_conv_nth)
  then show ?case by (intro exI [of _ "i # is"]) simp
qed simp

lemma low_byte_sum: "(ucast ((ucast (b :: u8) + (s :: u16)) AND 0xFF) :: u8) = b + ucast s"
proof -
  have low: "(0xFF :: u16) = mask 8" by (simp add: mask_eq_exp_minus_1)
  have "(ucast (x AND 0xFF) :: u8) = ucast x" for x :: u16
    unfolding low by (intro bit_word_eqI) (auto simp: bit_simps)
  moreover have "(ucast ((ucast b :: u16) + s) :: u8) = b + ucast s"
    by (rule word_unat_eq_iff [THEN iffD2])
      (simp add: unsigned_ucast_eq unat_word_ariths take_bit_eq_mod mod_simps mod_mod_cancel)
  ultimately show ?thesis by simp
qed

text \<open>Whatever packets of a stream arrive, in any order and any number of times each: the messages handed on are a
  prefix of those sent, and all of them once every packet has arrived.\<close>

lemma delivery:
  assumes "stream_of s c fs pkts" and "assemble [] fs = (map encodePacked ms, [])" and "\<forall>m \<in> set ms. packable m"
    and "recv_state receiver s = Some (NewPacketDispatchQueue, c, [])" and "set arrivals \<subseteq> set pkts"
  shows "\<exists>receiver' evs k. receive_all receiver arrivals = Some (receiver', evs) \<and>
    map ev_message evs = take k ms \<and> (set pkts \<subseteq> set arrivals \<longrightarrow> map ev_message evs = ms)"
proof -
  have start: "tracks s pkts c fs {} 0 receiver"
    using assms(4) by (simp add: tracks_def NewPacketDispatchQueue_def)
  have len: "length pkts = length fs" using assms(1) by (simp add: stream_of_def)
  then obtain "is" where ix: "arrivals = map ((!) pkts) is" "\<forall>i \<in> set is. i < length fs"
    using positions [OF assms(5)] by auto
  obtain receiver' evs n where r: "receive_all receiver arrivals = Some (receiver', evs)"
    "tracks s pkts c fs (set is) n receiver'" "delivered fs n = map ev_message evs"
    "n < length fs \<longrightarrow> n \<notin> set is"
    using receive_all_tracks [OF assms(1) start ix(2)] ix(1) by (auto simp: delivered_def)
  have "n = length fs" if "set pkts \<subseteq> set arrivals"
  proof (rule ccontr)
    assume "n \<noteq> length fs"
    then have n: "n < length fs" using r(2) by (simp add: tracks_def)
    then have "pkts ! n \<in> set arrivals" using that len by (metis nth_mem subsetD)
    then obtain i where "i \<in> set is" "pkts ! n = pkts ! i" using ix(1) by auto
    then have "seq_id n = seq_id i" using nth_packet(2) [OF assms(1)] n ix(2) by metis
    then have "n = i" using seq_id_eq n ix(2) \<open>i \<in> set is\<close> stream_of_short [OF assms(1)] by (meson less_trans)
    then show False using r(4) n \<open>i \<in> set is\<close> by simp
  qed
  then show ?thesis using r(1,3) delivered_prefix [OF assms(2,3)] by metis
qed

text \<open>Two sides of a stream and a few messages.\<close>

definition example_stream :: prudp_connection where
  "example_stream =
     set_queue (set_window (NewPRUDPConnection OtherAddr) 0
       ((NewSlidingWindow NewRC4Encryption)\<lparr>sequenceIDCounter := 1\<rparr>)) 0 NewPacketDispatchQueue"

definition example_template :: prudp_packet where
  "example_template =
     (NewPacket 0)\<lparr>p_type := DataPacket, p_flags := FlagReliable OR FlagNeedsAck OR FlagHasSize\<rparr>"

definition example_messages :: "packed_message list" where
  "example_messages = [NewRMCRequest\<lparr>m_ProtocolID := 0x6D, m_CallID := 7, m_Parameters := replicate 20 5\<rparr>,
     NewRMCSuccess [1, 2, 3], NewRMCError 0x0001000A]"

lemma has_flag_reliable: "has_flag example_template FlagReliable" "\<not> is_ack example_template"
  by (simp_all add: has_flag_def is_ack_def example_template_def)

lemma example_reliable: "reliable_data 0 example_template"
  using has_flag_reliable by (simp add: reliable_data_def) (simp add: example_template_def NewPacket_def)

lemma cipher_New: "cipher NewRC4Encryption = new_cipher default_key" "decipher NewRC4Encryption = new_cipher default_key"
  by (simp_all add: NewRC4Encryption_def SetKey_key stream_key_default)

lemma example_stream_state:
  "send_state example_stream 0 = Some (1, new_cipher default_key)"
  "recv_state example_stream 0 = Some (NewPacketDispatchQueue, new_cipher default_key, [])"
  by (simp_all add: example_stream_def send_state_def recv_state_def set_queue_def set_window_def
      NewSlidingWindow_def CopyAlgorithm_in_step in_step_New cipher_New GetIncomingFragmentBuffer_def
      NewPRUDPConnection_def)

lemma length_encodePacked:
  "packable m \<Longrightarrow> length (encodePacked m) \<le> length (m_Parameters m) + 16"
  by (auto simp: packable_def encodePacked_def encode_protocol_def encode_body_def Let_def)

lemma example_messages_ok:
  "\<forall>m \<in> set example_messages. packable m \<and> length (encodePacked m) < 256 * 8"
proof -
  have ok: "\<forall>m \<in> set example_messages. packable m \<and> length (m_Parameters m) \<le> 20"
    by (simp add: example_messages_def packable_def NewRMCRequest_def NewRMCSuccess_def NewRMCError_def
        NewRMCMessage_def Let_def)
  then show ?thesis using length_encodePacked by fastforce
qed

subsection \<open>Properties\<close>

text \<open>C13: a message arrives whole exactly if it is shorter than 256 times the fragment size (332800 bytes in this
  program). The fragment ID counts in eight bits, so the 256th full fragment gets the ID that ends a
  message, and a longer message arrives as several.\<close>

theorem message_whole_iff_short:
  assumes "0 < z"
  shows "assemble [] (fragments z data) = ([data], []) \<longleftrightarrow> length data < 256 * z"
  using assms assemble_fragments long_message_cut by (metis not_less)

theorem message_whole_iff_short_witness:
  "assemble [] (fragments FragmentSize (replicate 332800 7)) \<noteq> ([replicate 332800 7], []) \<and>
   assemble [] (fragments FragmentSize (replicate 332799 7)) = ([replicate 332799 7], [])"
  using message_whole_iff_short [of FragmentSize "replicate 332800 7"]
    message_whole_iff_short [of FragmentSize "replicate 332799 7"]
  by (simp add: FragmentSize_def)

text \<open>C15: the key of an unreliable packet depends on every unreliable packet before it. The base key is meant to be
  the same for all packets of a connection, but deriving the key of a packet changes it, so its first byte
  is the base plus the sum of all sequence IDs so far, and a packet that is lost or repeated garbles every
  one after it.\<close>

theorem unreliable_keys_accumulate:
  assumes "UnreliablePacketBaseKey pc \<noteq> []"
  shows "UnreliablePacketBaseKey (fold (\<lambda>p pc. fst (processUnreliableCrypto pc p)) ps pc) ! 0 =
    UnreliablePacketBaseKey pc ! 0 + sum_list (map (\<lambda>p. ucast (p_sequenceID p)) ps)"
  using assms
proof (induction ps arbitrary: pc)
  case (Cons p ps)
  let ?pc = "fst (processUnreliableCrypto pc p)"
  have base: "UnreliablePacketBaseKey ?pc = unique_key (UnreliablePacketBaseKey pc) p"
    by (simp add: processUnreliableCrypto_def Let_def)
  then have "UnreliablePacketBaseKey ?pc \<noteq> []" using Cons.prems by (simp add: unique_key_def)
  from Cons.IH [OF this] show ?case
    using Cons.prems by (simp add: base unique_key_def low_byte_sum add.assoc)
qed simp

theorem unreliable_keys_accumulate_witness:
  "UnreliablePacketBaseKey (fold (\<lambda>p pc. fst (processUnreliableCrypto pc p))
     [(NewPacket 1)\<lparr>p_sequenceID := 2\<rparr>, (NewPacket 1)\<lparr>p_sequenceID := 3\<rparr>] (NewPRUDPConnection OtherAddr)) ! 0 = 5"
  using unreliable_keys_accumulate [of "NewPRUDPConnection OtherAddr"
      "[(NewPacket 1)\<lparr>p_sequenceID := 2\<rparr>, (NewPacket 1)\<lparr>p_sequenceID := 3\<rparr>]"]
  by (simp add: NewPRUDPConnection_def NewPacket_def)

end
