(* ===== verification/Lifecycle.thy ===== *)
theory Lifecycle
  imports Delivery Tickets MMDispatch
begin

text \<open>
  The secure endpoint (\<^verbatim>\<open>nex-go/prudp_endpoint.go\<close>): its table of connections, the handlers of SYN,
  CONNECT, DATA, DISCONNECT, PING and acknowledgements, the timers that remove a silent connection, and
  what the rest of the server sees of it: the requests of connected players and the end of a connection
  (the hook of \<^verbatim>\<open>matchmaking/protocol.go\<close>). The key of the table is the string made of the address, the
  stream type and the stream ID; here it is the triple. The bodies of requests are decoded by
  \<^verbatim>\<open>nex-protocols-go\<close>, which is not in the repository: the field \<^verbatim>\<open>decode_request_of\<close>.
\<close>

type_synonym conn_key = "net_addr \<times> u8 \<times> u8"

record secure_setup =
  ss_settings :: ticket_settings
  ss_account_env :: account_env
  ss_accounts :: accounts
  ss_ServerAccount :: nex_account
  ss_StreamID :: u8
  ss_IsSecure :: bool
  ss_EncryptedConnect :: bool
  ss_SupportedFunctions :: u32
  ConnectionSignatureCalculator :: "prudp_packet \<Rightarrow> net_addr \<Rightarrow> bytes"
  ss_windowOrder :: "u8 set \<Rightarrow> u8 list"
  ss_pendingOrder :: "u16 set \<Rightarrow> u16 list"
  decode_request_of :: "packed_message \<Rightarrow> (string option \<times> mm_request) option"

record secure_state =
  conn_table :: "conn_key \<rightharpoonup> prudp_connection"
  ConnectionIDCounter :: u32
  gatherings :: store

datatype effect =
    Sent prudp_packet
  | Received u64 packed_message
  | Ended u64

subsection \<open>SYN and CONNECT\<close>

definition handleSyn :: "secure_setup \<Rightarrow> prudp_connection \<Rightarrow> prudp_packet \<Rightarrow> prudp_connection \<times> prudp_packet" where
  "handleSyn C pc packet =
     (let connectionSignature = ConnectionSignatureCalculator C packet (pc_Address pc);
          pc = (Reset pc)\<lparr>Signature := connectionSignature\<rparr>;
          ack = AddFlag FlagHasSize (reply_to packet SynPacket);
          ack = ack\<lparr>p_connectionSignature := connectionSignature\<rparr>;
          ack = (if p_version packet = 1
                 then ack\<lparr>p_MaximumSubstreamID := p_MaximumSubstreamID packet, p_MinorVersion := p_MinorVersion packet,
                        p_SupportedFunctions := ss_SupportedFunctions C AND p_SupportedFunctions packet\<rparr>
                 else ack)
      in (pc\<lparr>ConnectionState := StateConnecting\<rparr>, ack))"

text \<open>The windows and queues of the connection are made anew before the ticket is looked at.\<close>

definition prepare_streams :: "prudp_connection \<Rightarrow> prudp_packet \<Rightarrow> prudp_connection" where
  "prepare_streams pc packet =
     (let pc = pc\<lparr>ServerConnectionSignature := p_connectionSignature packet, SessionID := p_sessionID packet,
                 ServerSessionID := p_sessionID packet\<rparr>
      in if p_version packet = 1
         then (InitializePacketDispatchQueues (InitializeSlidingWindows pc (p_MaximumSubstreamID packet))
                 (p_MaximumSubstreamID packet))\<lparr>
                 OutgoingUnreliableSequenceIDCounter := p_InitialUnreliableSequenceID packet\<rparr>
         else InitializePacketDispatchQueues (InitializeSlidingWindows pc 0) 0)"

definition connect_ack :: "secure_setup \<Rightarrow> prudp_connection \<Rightarrow> prudp_packet \<Rightarrow> prudp_packet" where
  "connect_ack C pc packet =
     (let ack = AddFlag FlagHasSize (reply_to packet ConnectPacket);
          ack = ack\<lparr>p_connectionSignature :=
                     replicate (length (ConnectionSignatureCalculator C packet (pc_Address pc))) 0,
                   p_sessionID := ServerSessionID pc, p_sequenceID := 1\<rparr>
      in if p_version packet = 1
         then ack\<lparr>p_MaximumSubstreamID := p_MaximumSubstreamID packet, p_MinorVersion := p_MinorVersion packet,
                p_SupportedFunctions := p_SupportedFunctions packet\<rparr>
         else ack)"

definition crypt_connect ::
  "secure_setup \<Rightarrow> (rc4_algorithm \<Rightarrow> bytes \<Rightarrow> rc4_algorithm \<times> bytes) \<Rightarrow> prudp_connection \<Rightarrow> bytes \<Rightarrow>
   prudp_connection \<times> bytes" where
  "crypt_connect C f pc payload =
     (if ss_EncryptedConnect C then
        (case f (pc_Algorithm pc) payload of (alg, out) \<Rightarrow> (pc\<lparr>pc_Algorithm := alg\<rparr>, out))
      else (pc, payload))"

text \<open>None is a panic while the ticket is read. A refused CONNECT is not answered.\<close>

definition handleConnectPacket ::
  "secure_setup \<Rightarrow> timestamp \<Rightarrow> prudp_connection \<Rightarrow> prudp_packet \<Rightarrow> (prudp_connection \<times> prudp_packet list) option" where
  "handleConnectPacket C clock pc packet =
     (if ConnectionState pc < StateConnecting then Some (pc, [])
      else
        (let pc = prepare_streams pc packet; ack = connect_ack C pc packet in
         if \<not> ss_IsSecure C then
           Some (pc\<lparr>ConnectionState := StateConnected, heartbeatTimer := True\<rparr>, [ack])
         else
           (case crypt_connect C DecryptStream pc (p_payload packet) of
              (pc, decrypted) \<Rightarrow>
                (case ReadKerberosTicket (ss_settings C) (ss_account_env C) (ss_accounts C) (ss_ServerAccount C)
                        clock decrypted of
                   Panic \<Rightarrow> None
                 | Failed _ \<Rightarrow> Some (pc, [])
                 | Done (sessionKey, userPID, checkValue) \<Rightarrow>
                     (let pc = SetSessionKey (ss_windowOrder C) (pc\<lparr>pc_pid := userPID\<rparr>) sessionKey in
                      case crypt_connect C EncryptStream pc (write_buffer (le_bytes 4 (unat (checkValue + 1)))) of
                        (pc, payload) \<Rightarrow>
                          Some (pc\<lparr>ConnectionState := StateConnected, heartbeatTimer := True\<rparr>,
                                [ack\<lparr>p_payload := payload\<rparr>]))))))"

subsection \<open>DATA and PING\<close>

definition received :: "prudp_connection \<Rightarrow> data_event list \<Rightarrow> effect list" where
  "received pc evs = map (\<lambda>ev. Received (pc_pid pc) (ev_message ev)) evs"

definition handleData :: "prudp_connection \<Rightarrow> prudp_packet \<Rightarrow> (prudp_connection \<times> effect list) option" where
  "handleData pc packet =
     (if ConnectionState pc < StateConnected then Some (pc, [])
      else if has_flag packet FlagReliable then
        map_option (\<lambda>(pc', acks, evs). (pc', map Sent acks @ received pc evs)) (HandleReliable pc packet)
      else
        (case HandleUnreliable pc packet of
           (pc', acks, evs) \<Rightarrow> Some (pc', map Sent acks @ received pc evs)))"

definition handlePing :: "prudp_connection \<Rightarrow> prudp_packet \<Rightarrow> prudp_connection \<times> effect list" where
  "handlePing pc packet =
     (if ConnectionState pc < StateConnected then (pc, [])
      else
        (case (if has_flag packet FlagNeedsAck then AcknowledgePacket pc packet else (pc, [])) of
           (pc, acks) \<Rightarrow>
             ((if has_flag packet FlagReliable then queue_packet pc packet else pc), map Sent acks)))"

subsection \<open>Acknowledgements\<close>

text \<open>The sequence IDs listed in an aggregate acknowledgement. A read that fails yields 0 and consumes
  nothing; the old form reads until nothing remains.\<close>

fun read_ids :: "nat \<Rightarrow> bytes \<Rightarrow> u16 list" where
  "read_ids 0 bs = []"
| "read_ids (Suc n) bs =
     (case read_u16 bs of None \<Rightarrow> 0 # read_ids n bs | Some (x, r) \<Rightarrow> x # read_ids n r)"

partial_function (option) read_ids_to_end :: "bytes \<Rightarrow> u16 list \<Rightarrow> u16 list option" where
  "read_ids_to_end bs sequenceIDs =
     (if bs = [] then Some sequenceIDs
      else
        (case read_u16 bs of
           None \<Rightarrow> read_ids_to_end bs (sequenceIDs @ [0])
         | Some (x, r) \<Rightarrow> read_ids_to_end r (sequenceIDs @ [x])))"

text \<open>The substream, the base and the other IDs.\<close>

definition parse_multi_ack :: "prudp_packet \<Rightarrow> (u8 \<times> u16 \<times> u16 list) option" where
  "parse_multi_ack packet =
     (if p_substreamID packet = 1 \<or> p_version packet = 2 then
        (let (substreamID, r) = (case read_u8 (p_payload packet) of None \<Rightarrow> (0, p_payload packet) | Some x \<Rightarrow> x);
             (count, r) = (case read_u8 r of None \<Rightarrow> (0, r) | Some x \<Rightarrow> x);
             (baseSequenceID, r) = (case read_u16 r of None \<Rightarrow> (0, r) | Some x \<Rightarrow> x)
         in Some (substreamID, baseSequenceID, read_ids (unat count) r))
      else
        map_option (\<lambda>ids. (0, p_sequenceID packet, ids)) (read_ids_to_end (p_payload packet) []))"

definition acknowledge_ids :: "(u16 set \<Rightarrow> u16 list) \<Rightarrow> u16 \<Rightarrow> u16 list \<Rightarrow> sliding_window \<Rightarrow> sliding_window" where
  "acknowledge_ids ord baseSequenceID ids sw =
     fold (\<lambda>i sw. AcknowledgePending sw i)
       (ids @ filter (\<lambda>i. i \<le> baseSequenceID \<and> i \<notin> set ids) (ord (dom (pending sw)))) sw"

definition update_window ::
  "prudp_connection \<Rightarrow> u8 \<Rightarrow> (sliding_window \<Rightarrow> sliding_window) \<Rightarrow> prudp_connection" where
  "update_window pc substreamID f =
     (case SlidingWindow pc substreamID of (pc, sw) \<Rightarrow> set_window pc substreamID (f sw))"

definition handleMultiAcknowledgment ::
  "(u16 set \<Rightarrow> u16 list) \<Rightarrow> prudp_connection \<Rightarrow> prudp_packet \<Rightarrow> prudp_connection option" where
  "handleMultiAcknowledgment ord pc packet =
     map_option (\<lambda>(substreamID, baseSequenceID, ids).
        update_window pc substreamID (acknowledge_ids ord baseSequenceID ids))
       (parse_multi_ack packet)"

text \<open>The measured round-trip time is not part of the state.\<close>

definition handleAcknowledgment ::
  "(u16 set \<Rightarrow> u16 list) \<Rightarrow> prudp_connection \<Rightarrow> prudp_packet \<Rightarrow> prudp_connection option" where
  "handleAcknowledgment ord pc packet =
     (if ConnectionState pc < StateConnected then Some pc
      else if has_flag packet FlagMultiAck then handleMultiAcknowledgment ord pc packet
      else if p_type packet = PingPacket then Some pc
      else Some (update_window pc (p_substreamID packet) (\<lambda>sw. AcknowledgePending sw (p_sequenceID packet))))"

subsection \<open>The table\<close>

definition key_of :: "prudp_connection \<Rightarrow> conn_key" where
  "key_of pc = (pc_Address pc, StreamType pc, StreamID pc)"

definition set_conn :: "secure_state \<Rightarrow> conn_key \<Rightarrow> prudp_connection \<Rightarrow> secure_state" where
  "set_conn st k pc = st\<lparr>conn_table := (conn_table st)(k \<mapsto> pc)\<rparr>"

text \<open>\<^verbatim>\<open>Connections.GetOrSetDefault\<close> in \<^verbatim>\<open>processPacket\<close>.\<close>

definition connection_for :: "secure_state \<Rightarrow> prudp_packet \<Rightarrow> net_addr \<Rightarrow> secure_state \<times> prudp_connection" where
  "connection_for st packet address =
     (let k = (address, p_sourceType packet, p_sourceID packet) in
      case conn_table st k of
        Some pc \<Rightarrow> (st, pc)
      | None \<Rightarrow>
          (let v = ConnectionIDCounter st + 1;
               pc = (NewPRUDPConnection address)\<lparr>pc_ID := v, DefaultPRUDPVersion := p_version packet,
                      StreamType := p_sourceType packet, StreamID := p_sourceID packet\<rparr>
           in (set_conn (st\<lparr>ConnectionIDCounter := v\<rparr>) k pc, pc)))"

text \<open>The entry goes, the connection is reset and its end is announced.\<close>

definition CleanupConnection :: "secure_state \<Rightarrow> prudp_connection \<Rightarrow> secure_state \<times> effect list" where
  "CleanupConnection st connection =
     (st\<lparr>conn_table := (conn_table st)(key_of connection := None)\<rparr>, [Ended (pc_pid (Reset connection))])"

definition handleDisconnect ::
  "secure_state \<Rightarrow> prudp_connection \<Rightarrow> prudp_packet \<Rightarrow> secure_state \<times> effect list" where
  "handleDisconnect st pc packet =
     (let acks = (if has_flag packet FlagNeedsAck then snd (AcknowledgePacket pc packet) else [])
      in case conn_table st (pc_Address pc, p_sourceType packet, p_sourceID packet) of
           None \<Rightarrow> (st, map Sent acks)
         | Some connection \<Rightarrow>
             (case CleanupConnection st connection of (st, es) \<Rightarrow> (st, map Sent acks @ es)))"

text \<open>\<^verbatim>\<open>PRUDPServer.processPacket\<close>: what reaches an endpoint. The largest stream type is \<^verbatim>\<open>StreamTypeRelay\<close>.\<close>

definition valid_ports :: "u8 \<Rightarrow> prudp_packet \<Rightarrow> bool" where
  "valid_ports streamID packet \<longleftrightarrow>
     p_destinationID packet = streamID \<and>
     p_destinationType packet = p_sourceType packet \<and> p_sourceType packet \<le> 11 \<and>
     p_sourceID packet \<le> (if p_version packet = 2 then 31 else 15)"

definition processPacket ::
  "secure_setup \<Rightarrow> timestamp \<Rightarrow> secure_state \<Rightarrow> prudp_packet \<Rightarrow> net_addr \<Rightarrow> (secure_state \<times> effect list) option" where
  "processPacket C clock st packet address =
     (case connection_for st packet address of
        (st, pc) \<Rightarrow>
          (let put = (\<lambda>pc'. set_conn st (address, p_sourceType packet, p_sourceID packet) pc') in
           if is_ack packet then
             map_option (\<lambda>pc'. (put pc', [])) (handleAcknowledgment (ss_pendingOrder C) pc packet)
           else if p_type packet = SynPacket then
             (case handleSyn C pc packet of (pc', ack) \<Rightarrow> Some (put pc', [Sent ack]))
           else if p_type packet = ConnectPacket then
             map_option (\<lambda>(pc', acks). (put pc', map Sent acks)) (handleConnectPacket C clock pc packet)
           else if p_type packet = DataPacket then
             map_option (\<lambda>(pc', es). (put pc', es)) (handleData pc packet)
           else if p_type packet = DisconnectPacket then Some (handleDisconnect st pc packet)
           else if p_type packet = PingPacket then
             (case handlePing pc packet of (pc', es) \<Rightarrow> Some (put pc', es))
           else Some (st, [])))"

subsection \<open>Timers\<close>

text \<open>\<^verbatim>\<open>TimeoutManager.start\<close> when the timer of a packet fires: the packet is sent again or, after
  \<^verbatim>\<open>MaxPacketRetransmissions\<close>, the connection is given up.\<close>

definition MaxPacketRetransmissions :: u32 where "MaxPacketRetransmissions = 0x14"

definition resend ::
  "secure_state \<Rightarrow> prudp_connection \<Rightarrow> u8 \<Rightarrow> prudp_packet \<Rightarrow> secure_state \<times> effect list" where
  "resend st pc substreamID packet =
     (if ConnectionState pc \<noteq> StateConnected then (st, [])
      else
        (case slidingWindows pc substreamID of
           None \<Rightarrow> (st, [])
         | Some sw \<Rightarrow>
             (case pending sw (p_sequenceID packet) of
                None \<Rightarrow> (st, [])
              | Some _ \<Rightarrow>
                  (if p_sendCount packet < MaxPacketRetransmissions then
                     (let packet = packet\<lparr>p_sendCount := p_sendCount packet + 1\<rparr>
                      in (set_conn st (key_of pc) (set_window pc substreamID (SchedulePacketTimeout sw packet)),
                          [Sent packet]))
                   else CleanupConnection st pc))))"

text \<open>The ping of a silent connection; without an answer the next timer removes the connection.\<close>

definition sendPing :: "u8 \<Rightarrow> prudp_connection \<Rightarrow> prudp_connection \<times> prudp_packet" where
  "sendPing streamID pc =
     sendPacket pc (AddFlag FlagNeedsAck ((NewPacket (DefaultPRUDPVersion pc))\<lparr>
       p_type := PingPacket, p_sourceType := StreamType pc, p_sourceID := streamID,
       p_destinationType := StreamType pc, p_destinationID := StreamID pc, p_substreamID := 0\<rparr>))"

subsection \<open>The server\<close>

text \<open>What a lookup in the table sees of a connection.\<close>

definition view_of :: "prudp_connection \<Rightarrow> connection" where
  "view_of pc =
     \<lparr>conn_ID = pc_ID pc, conn_PID = pc_pid pc, conn_Connected = (ConnectionState pc = StateConnected),
      conn_StationURLs = StationURLs pc, conn_DefaultPRUDPVersion = DefaultPRUDPVersion pc,
      conn_StreamType = StreamType pc, conn_StreamID = StreamID pc, conn_Address = pc_Address pc\<rparr>"

definition endpoint_view :: "(conn_key set \<Rightarrow> conn_key list) \<Rightarrow> u8 \<Rightarrow> secure_state \<Rightarrow> endpoint" where
  "endpoint_view ord streamID st =
     \<lparr>Connections = map (\<lambda>(k, pc). view_of pc) (range_map (conn_table st) (ord (dom (conn_table st)))),
      ep_StreamID = streamID\<rparr>"

text \<open>The store's part of one effect: a request of a player, or the hook on the end of a connection.
  A message of another protocol does not reach the store.\<close>

definition run_effect :: "secure_setup \<Rightarrow> mm_env \<Rightarrow> effect \<Rightarrow> store \<Rightarrow> store" where
  "run_effect C E e st =
     (case e of
        Sent _ \<Rightarrow> st
      | Received p message \<Rightarrow>
          (if m_IsRequest message then
             (case decode_request_of C message of
                None \<Rightarrow> st
              | Some (err, rq) \<Rightarrow> fst (handle E st p (m_CallID message) err rq))
           else st)
      | Ended p \<Rightarrow> fst (RemoveConnectionLocked E 0 st p Disconnect))"

definition run_effects :: "secure_setup \<Rightarrow> mm_env \<Rightarrow> secure_state \<times> effect list \<Rightarrow> secure_state" where
  "run_effects C E r =
     (case r of (st, es) \<Rightarrow> st\<lparr>gatherings := fold (run_effect C E) es (gatherings st)\<rparr>)"

definition serve ::
  "secure_setup \<Rightarrow> mm_env \<Rightarrow> timestamp \<Rightarrow> secure_state \<Rightarrow> prudp_packet \<Rightarrow> net_addr \<Rightarrow> secure_state option" where
  "serve C E clock st packet address =
     (if valid_ports (ss_StreamID C) packet then map_option (run_effects C E) (processPacket C clock st packet address)
      else Some st)"

definition initial_state :: secure_state where
  "initial_state = \<lparr>conn_table = Map.empty, ConnectionIDCounter = 0, gatherings = NewStore\<rparr>"

text \<open>
  Every step of the server. With \<^verbatim>\<open>K\<close> no connection is connected again as another player while its
  player is in a gathering. The last step is one turn of \<^verbatim>\<open>unregisterGatherings\<close>, as in \<^verbatim>\<open>MMSystem\<close>.
\<close>

definition plays :: "store \<Rightarrow> u64 \<Rightarrow> bool" where
  "plays st p \<longleftrightarrow> (\<exists>k s. sessions st k = Some s \<and> p \<in> set (Participants s))"

definition same_players :: "secure_state \<Rightarrow> secure_state \<Rightarrow> bool" where
  "same_players st st' \<longleftrightarrow>
     (\<forall>k pc pc'. conn_table st k = Some pc \<longrightarrow> conn_table st' k = Some pc' \<longrightarrow> plays (gatherings st) (pc_pid pc) \<longrightarrow>
        pc_pid pc' = pc_pid pc)"

inductive secure_step :: "secure_setup \<Rightarrow> bool \<Rightarrow> secure_state \<Rightarrow> secure_state \<Rightarrow> bool"
  for C :: secure_setup and K :: bool where
  ss_packet: "env_ok E \<Longrightarrow> serve C E clock st packet address = Some st' \<Longrightarrow> (K \<longrightarrow> same_players st st') \<Longrightarrow>
    secure_step C K st st'"
| ss_ping: "conn_table st k = Some pc \<Longrightarrow> heartbeatTimer pc \<Longrightarrow>
    secure_step C K st (set_conn st k (fst (sendPing streamID pc)))"
| ss_silent: "env_ok E \<Longrightarrow> conn_table st k = Some pc \<Longrightarrow> heartbeatTimer pc \<Longrightarrow>
    secure_step C K st (run_effects C E (CleanupConnection st pc))"
| ss_resend: "env_ok E \<Longrightarrow> conn_table st k = Some pc \<Longrightarrow>
    secure_step C K st (run_effects C E (resend st pc substreamID packet))"
| ss_unregister: "destroyGathering E (gatherings st) p g = (s', ns, r) \<Longrightarrow>
    secure_step C K st (st\<lparr>gatherings := s'\<rparr>)"

inductive_cases secure_stepE: "secure_step C K st st'"

end
