(* ===== verification/LifecycleTheorems.thy ===== *)
theory LifecycleTheorems
  imports Lifecycle TicketTheorems MMSystem
begin

text \<open>
  What holds of the secure server in every reachable state: who is connected, who can be in a
  gathering, and what the connection IDs are worth.
\<close>

subsection \<open>What an operation leaves of a connection\<close>

definition identity_of :: "prudp_connection \<Rightarrow> conn_key \<times> u32 \<times> u64 \<times> u8 \<times> bool" where
  "identity_of pc = (key_of pc, pc_ID pc, pc_pid pc, ConnectionState pc, heartbeatTimer pc)"

lemma identity_of_eq:
  "identity_of pc = identity_of pc' \<longleftrightarrow> key_of pc = key_of pc' \<and> pc_ID pc = pc_ID pc' \<and>
     pc_pid pc = pc_pid pc' \<and> ConnectionState pc = ConnectionState pc' \<and> heartbeatTimer pc = heartbeatTimer pc'"
  by (simp add: identity_of_def)

lemma identity_windows [frame_simps]:
  "identity_of (fst (SlidingWindow pc s)) = identity_of pc"
  "identity_of (set_window pc s sw) = identity_of pc"
  "identity_of (fst (PacketDispatchQueue pc s)) = identity_of pc"
  "identity_of (set_queue pc s q) = identity_of pc"
  "identity_of (SetIncomingFragmentBuffer pc s b) = identity_of pc"
  "identity_of (ClearOutgoingBuffer pc s) = identity_of pc"
  "identity_of (fst (processUnreliableCrypto pc p)) = identity_of pc"
  by (simp_all add: SlidingWindow_def CreateSlidingWindow_def set_window_def PacketDispatchQueue_def
      CreatePacketDispatchQueue_def set_queue_def SetIncomingFragmentBuffer_def ClearOutgoingBuffer_def
      processUnreliableCrypto_def identity_of_def key_of_def Let_def split: option.split)

lemma identity_lookups:
  "SlidingWindow pc s = (pc', sw) \<Longrightarrow> identity_of pc' = identity_of pc"
  "PacketDispatchQueue pc s = (pc', q) \<Longrightarrow> identity_of pc' = identity_of pc"
  "processUnreliableCrypto pc p = (pc', out) \<Longrightarrow> identity_of pc' = identity_of pc"
  using identity_windows(1) [of pc s] identity_windows(3) [of pc s] identity_windows(7) [of pc p] by simp_all

lemma identity_queue_packet [frame_simps]: "identity_of (queue_packet pc p) = identity_of pc"
  by (auto simp: queue_packet_def frame_simps split: prod.split dest: identity_lookups)

lemma identity_decrypt: "decryptPayload pc p = (pc', out) \<Longrightarrow> identity_of pc' = identity_of pc"
  by (auto simp: decryptPayload_def frame_simps split: prod.splits if_splits dest: identity_lookups)

lemma identity_dispatch: "dispatch_data s pc p = (pc', es) \<Longrightarrow> identity_of pc' = identity_of pc"
  by (auto simp: dispatch_data_def frame_simps Let_def split: prod.splits if_splits dest: identity_decrypt)

lemma identity_loop:
  assumes "dispatch_loop s pc evs = Some r"
  shows "identity_of (fst r) = identity_of pc"
proof (rule dispatch_loop.raw_induct [of "\<lambda>s pc evs r. identity_of (fst r) = identity_of pc", OF _ assms])
  fix loop s pc evs r
  assume IH: "\<And>s pc evs r. loop s pc evs = Some r \<Longrightarrow> identity_of (fst r) = identity_of pc"
    and step: "(case PacketDispatchQueue pc s of (pc, pdq) \<Rightarrow>
        case GetNextToDispatch pdq of None \<Rightarrow> Some (pc, evs)
        | Some nextPacket \<Rightarrow> (case dispatch_data s pc nextPacket of
            (pc, es) \<Rightarrow> loop s (set_queue pc s (Dispatched pdq nextPacket)) (evs @ es))) = Some r"
  obtain pc1 q where q: "PacketDispatchQueue pc s = (pc1, q)" by force
  then have pc1: "identity_of pc1 = identity_of pc" by (rule identity_lookups)
  show "identity_of (fst r) = identity_of pc"
  proof (cases "GetNextToDispatch q")
    case None
    then show ?thesis using step q pc1 by auto
  next
    case (Some p)
    obtain pc2 es where d: "dispatch_data s pc1 p = (pc2, es)" by force
    then have "identity_of pc2 = identity_of pc1" by (rule identity_dispatch)
    moreover have "loop s (set_queue pc2 s (Dispatched q p)) (evs @ es) = Some r"
      using step q Some d by simp
    ultimately show ?thesis using IH pc1 by (metis identity_windows(4))
  qed
qed

lemma identity_acknowledge: "AcknowledgePacket pc p = (pc', acks) \<Longrightarrow> pc' = pc"
  using AcknowledgePacket_keeps [of pc p] by simp

lemma identity_reliable: "HandleReliable pc p = Some (pc', acks, evs) \<Longrightarrow> identity_of pc' = identity_of pc"
  by (auto simp: HandleReliable_def frame_simps split: prod.splits if_splits
      dest!: identity_loop identity_acknowledge)

lemma identity_unreliable: "HandleUnreliable pc p = (pc', acks, evs) \<Longrightarrow> identity_of pc' = identity_of pc"
  by (auto simp: HandleUnreliable_def split: prod.splits if_splits
      dest!: identity_acknowledge identity_lookups)

lemma identity_data: "handleData pc p = Some (pc', es) \<Longrightarrow> identity_of pc' = identity_of pc"
  by (auto simp: handleData_def split: if_splits prod.splits dest: identity_reliable identity_unreliable)

lemma identity_ping: "handlePing pc p = (pc', es) \<Longrightarrow> identity_of pc' = identity_of pc"
  by (auto simp: handlePing_def frame_simps split: if_splits prod.splits dest!: identity_acknowledge)

lemma identity_update_window [frame_simps]: "identity_of (update_window pc s f) = identity_of pc"
  by (auto simp: update_window_def frame_simps split: prod.split dest: identity_lookups)

lemma identity_acknowledgment: "handleAcknowledgment ord pc p = Some pc' \<Longrightarrow> identity_of pc' = identity_of pc"
  by (auto simp: handleAcknowledgment_def handleMultiAcknowledgment_def frame_simps split: if_splits)

lemma identity_assign: "assign_sequence pc p = (pc', p') \<Longrightarrow> identity_of pc' = identity_of pc"
  by (auto simp: assign_sequence_def frame_simps Let_def split: prod.splits if_splits dest: identity_lookups)
    (simp_all add: identity_of_def key_of_def)

lemma identity_encrypt: "encrypt_payload pc p = (pc', p') \<Longrightarrow> identity_of pc' = identity_of pc"
  by (auto simp: encrypt_payload_def frame_simps split: prod.splits if_splits dest: identity_lookups)

lemma identity_sendPacket [frame_simps]: "identity_of (fst (sendPacket pc p)) = identity_of pc"
  by (auto simp: sendPacket_def schedule_resend_def frame_simps Let_def split: prod.splits
      dest!: identity_assign identity_encrypt identity_lookups)

text \<open>SYN keeps everything but the state; CONNECT may change the player, and then connects.\<close>

lemma fold_identity:
  "(\<And>i pc. identity_of (f i pc) = identity_of pc) \<Longrightarrow> identity_of (fold f xs pc) = identity_of pc"
  by (induction xs arbitrary: pc) simp_all

lemma identity_prepare: "identity_of (prepare_streams pc packet) = identity_of pc"
proof -
  have w: "identity_of (InitializeSlidingWindows pc s) = identity_of pc" for pc s
    unfolding InitializeSlidingWindows_def
    by (subst fold_identity) (simp_all add: CreateSlidingWindow_def identity_of_def key_of_def Let_def)
  have q: "identity_of (InitializePacketDispatchQueues pc s) = identity_of pc" for pc s
    unfolding InitializePacketDispatchQueues_def
    by (subst fold_identity) (simp_all add: CreatePacketDispatchQueue_def identity_of_def key_of_def Let_def)
  have c: "identity_of (pc\<lparr>OutgoingUnreliableSequenceIDCounter := v\<rparr>) = identity_of pc" for pc v
    by (simp add: identity_of_def key_of_def)
  have i: "identity_of (pc\<lparr>ServerConnectionSignature := a, SessionID := b, ServerSessionID := d\<rparr>) = identity_of pc" for a b d
    by (simp add: identity_of_def key_of_def)
  show ?thesis by (simp add: prepare_streams_def Let_def w q c i)
qed

lemma identity_crypt: "crypt_connect C f pc x = (pc', out) \<Longrightarrow> identity_of pc' = identity_of pc"
  by (auto simp: crypt_connect_def identity_of_def key_of_def split: if_splits prod.splits)

lemma identity_session_key: "identity_of (SetSessionKey ord pc k) = identity_of pc"
  by (simp add: SetSessionKey_def identity_of_def key_of_def split: prod.split)

lemma handleSyn_identity:
  "handleSyn C pc packet = (pc', ack) \<Longrightarrow>
   key_of pc' = key_of pc \<and> pc_ID pc' = pc_ID pc \<and> pc_pid pc' = pc_pid pc \<and>
   ConnectionState pc' = StateConnecting \<and> heartbeatTimer pc' = heartbeatTimer pc"
  by (auto simp: handleSyn_def Reset_def key_of_def Let_def)

definition admitted :: "secure_setup \<Rightarrow> u64 \<Rightarrow> bool" where
  "admitted C p \<longleftrightarrow>
     (\<exists>clock payload sk check.
        ReadKerberosTicket (ss_settings C) (ss_account_env C) (ss_accounts C) (ss_ServerAccount C) clock payload =
          Done (sk, p, check))"

lemma handleConnectPacket_identity:
  assumes "handleConnectPacket C clock pc packet = Some (pc', acks)" and "ss_IsSecure C"
  shows "identity_of pc' = identity_of pc \<or>
    (\<not> ConnectionState pc < StateConnecting \<and> key_of pc' = key_of pc \<and> pc_ID pc' = pc_ID pc \<and>
     admitted C (pc_pid pc') \<and> ConnectionState pc' = StateConnected \<and> heartbeatTimer pc')"
proof (cases "ConnectionState pc < StateConnecting")
  case True
  then show ?thesis using assms(1) by (simp add: handleConnectPacket_def)
next
  case False
  let ?pc = "prepare_streams pc packet"
  obtain pc1 decrypted where d: "crypt_connect C DecryptStream ?pc (p_payload packet) = (pc1, decrypted)" by force
  then have pc1: "identity_of pc1 = identity_of pc" using identity_crypt identity_prepare by metis
  show ?thesis
  proof (cases "ReadKerberosTicket (ss_settings C) (ss_account_env C) (ss_accounts C) (ss_ServerAccount C) clock decrypted")
    case Panic
    then show ?thesis using assms False d by (simp add: handleConnectPacket_def Let_def)
  next
    case (Failed e)
    then show ?thesis using assms False d pc1 by (simp add: handleConnectPacket_def Let_def)
  next
    case (Done r)
    obtain sk p check where r: "r = (sk, p, check)" by (cases r)
    let ?pc2 = "SetSessionKey (ss_windowOrder C) (pc1\<lparr>pc_pid := p\<rparr>) sk"
    obtain pc3 payload where e: "crypt_connect C EncryptStream ?pc2 (write_buffer (le_bytes 4 (unat (check + 1)))) = (pc3, payload)"
      by force
    then have "identity_of pc3 = identity_of (pc1\<lparr>pc_pid := p\<rparr>)"
      using identity_crypt identity_session_key by metis
    moreover have "pc' = pc3\<lparr>ConnectionState := StateConnected, heartbeatTimer := True\<rparr>"
      using assms False d Done r e by (simp add: handleConnectPacket_def Let_def)
    moreover have "admitted C p" using Done r by (auto simp: admitted_def)
    ultimately show ?thesis using pc1 False by (auto simp: identity_of_def key_of_def)
  qed
qed

subsection \<open>Who can be in a gathering\<close>

lemma member_of_iff: "member_of st p k \<longleftrightarrow> (\<exists>s. sessions st k = Some s \<and> p \<in> set (Participants s))"
  by (auto simp: member_of_def split: option.split)

lemma after_leave_members:
  "after_leave p s = Some s' \<Longrightarrow> q \<in> set (Participants s') \<Longrightarrow> q \<in> set (Participants s) \<and> q \<noteq> p"
  by (auto simp: after_leave_def Let_def split: if_splits)

lemma lobby_step_members: "lobby_step E V p st st' \<Longrightarrow> member_of st' q k \<Longrightarrow> q = p \<or> member_of st q k"
  by (erule lobby_stepE)
    (auto simp: member_of_iff same_identity_def bind_eq_Some_conv dest: after_leave_members split: if_splits)

lemma lobby_create_members: "lobby_create p st st' \<Longrightarrow> member_of st' q k \<Longrightarrow> q = p \<or> member_of st q k"
  by (erule lobby_createE) (auto simp: member_of_iff fresh_lobby_def split: if_splits)

lemma lobby_steps_members: "lobby_steps E V p st st' \<Longrightarrow> member_of st' q k \<Longrightarrow> q = p \<or> member_of st q k"
  by (induction rule: rtranclp_induct) (auto dest: lobby_step_members)

lemma lobby_trace_members: "lobby_trace E V p st st' \<Longrightarrow> member_of st' q k \<Longrightarrow> q = p \<or> member_of st q k"
  by (auto simp: lobby_trace_def dest: lobby_steps_members lobby_create_members)

lemma destroyed_members:
  "destroyGathering E st p g = (st', ns, r) \<Longrightarrow> member_of st' q k \<Longrightarrow> member_of st q k"
  by (auto simp: destroyGathering_def GetLocked_Inr delete_session_def member_of_iff
      split: sum.splits if_splits)

lemma run_request:
  assumes "env_ok E" and "store_inv st"
  shows "store_inv (run_effect C E (Received p m) st)"
    and "member_of (run_effect C E (Received p m) st) q k \<Longrightarrow> q = p \<or> member_of st q k"
proof -
  have "\<exists>V. lobby_trace E V p st (run_effect C E (Received p m) st)"
  proof (cases "if m_IsRequest m then decode_request_of C m else None")
    case None
    then show ?thesis by (auto simp: run_effect_def split: if_splits)
  next
    case (Some d)
    then obtain err rq where d: "m_IsRequest m" "decode_request_of C m = Some (err, rq)"
      by (cases d) (auto split: if_splits)
    obtain st' ns r where h: "handle E st p (m_CallID m) err rq = (st', ns, r)" by (metis prod.exhaust)
    then have "run_effect C E (Received p m) st = st'" using d by (simp add: run_effect_def)
    then show ?thesis using handle_trace [OF assms h] by blast
  qed
  then show "store_inv (run_effect C E (Received p m) st)"
    "member_of (run_effect C E (Received p m) st) q k \<Longrightarrow> q = p \<or> member_of st q k"
    using lobby_trace_inv assms(2) lobby_trace_members by blast+
qed

text \<open>The effects of a packet that ends no connection, all of one player.\<close>

definition effects_of :: "u64 \<Rightarrow> effect list \<Rightarrow> bool" where
  "effects_of p es \<longleftrightarrow> (\<forall>e \<in> set es. (\<exists>pkt. e = Sent pkt) \<or> (\<exists>m. e = Received p m))"

lemma run_requests:
  assumes "env_ok E" and "store_inv st" and "effects_of p es"
  shows "store_inv (fold (run_effect C E) es st)"
    and "member_of (fold (run_effect C E) es st) q k \<Longrightarrow> q = p \<or> member_of st q k"
proof -
  have "store_inv (fold (run_effect C E) es st) \<and>
      (member_of (fold (run_effect C E) es st) q k \<longrightarrow> q = p \<or> member_of st q k)"
    using assms(2,3)
  proof (induction es arbitrary: st)
    case (Cons e es)
    then consider pkt where "e = Sent pkt" | m where "e = Received p m" by (auto simp: effects_of_def)
    then have one: "store_inv (run_effect C E e st)"
      "member_of (run_effect C E e st) q k \<longrightarrow> q = p \<or> member_of st q k"
      using Cons.prems(1) run_request [OF assms(1)]
      by (cases; auto simp: run_effect_def [of _ _ "Sent _"])+
    have "effects_of p es" using Cons.prems(2) by (simp add: effects_of_def)
    from Cons.IH [OF one(1) this] one(2) show ?case by auto
  qed simp
  then show "store_inv (fold (run_effect C E) es st)"
    "member_of (fold (run_effect C E) es st) q k \<Longrightarrow> q = p \<or> member_of st q k" by blast+
qed

lemma run_only_sent: "\<forall>e \<in> set es. \<exists>pkt. e = Sent pkt \<Longrightarrow> fold (run_effect C E) es st = st"
  by (induction es) (auto simp: run_effect_def)

lemma run_ended:
  assumes "env_ok E" and "store_inv st" and "\<forall>e \<in> set es. \<exists>pkt. e = Sent pkt"
  shows "store_inv (fold (run_effect C E) (es @ [Ended p]) st)"
    and "member_of (fold (run_effect C E) (es @ [Ended p]) st) q k \<Longrightarrow> q \<noteq> p \<and> member_of st q k"
proof -
  obtain st' ns where r: "RemoveConnectionLocked E 0 st p Disconnect = (st', ns)" by force
  then have st': "fold (run_effect C E) (es @ [Ended p]) st = st'"
    using run_only_sent [OF assms(3)] by (simp add: run_effect_def)
  show "store_inv (fold (run_effect C E) (es @ [Ended p]) st)"
    using dropped(2) [OF assms(1,2) r] st' by simp
  show "member_of (fold (run_effect C E) (es @ [Ended p]) st) q k \<Longrightarrow> q \<noteq> p \<and> member_of st q k"
    using dropped(1) [OF assms(1,2) r] lobby_step_members [OF drop_step [OF assms(1,2) r, of True]] st' by auto
qed

subsection \<open>The connections of the table\<close>

definition conn_ok :: "secure_setup \<Rightarrow> prudp_connection \<Rightarrow> bool" where
  "conn_ok C pc \<longleftrightarrow>
     (pc_pid pc \<noteq> 0 \<or> StateConnected \<le> ConnectionState pc \<longrightarrow> admitted C (pc_pid pc))"

definition table_ok :: "secure_setup \<Rightarrow> (conn_key \<rightharpoonup> prudp_connection) \<Rightarrow> bool" where
  "table_ok C T \<longleftrightarrow> (\<forall>k pc. T k = Some pc \<longrightarrow> key_of pc = k \<and> conn_ok C pc)"

lemma conn_ok_identity: "identity_of pc' = identity_of pc \<Longrightarrow> conn_ok C pc' = conn_ok C pc"
  by (simp add: identity_of_eq conn_ok_def)

lemma table_okD: "table_ok C T \<Longrightarrow> T k = Some pc \<Longrightarrow> key_of pc = k \<and> conn_ok C pc"
  unfolding table_ok_def by blast

lemma table_ok_upd: "table_ok C T \<Longrightarrow> key_of pc = k \<Longrightarrow> conn_ok C pc \<Longrightarrow> table_ok C (T(k \<mapsto> pc))"
  by (simp add: table_ok_def)

lemma table_ok_remove: "table_ok C T \<Longrightarrow> table_ok C (T(k := None))"
  by (auto simp: table_ok_def split: if_splits)

text \<open>What \<^verbatim>\<open>GetOrSetDefault\<close> returns is in the table; only a new connection changes it.\<close>

lemma connection_for_cases:
  assumes "connection_for st packet address = (st0, pc)"
  obtains (old) "st0 = st" "conn_table st (address, p_sourceType packet, p_sourceID packet) = Some pc"
  | (new) "conn_table st (key_of pc) = None" "st0 = set_conn (st\<lparr>ConnectionIDCounter := pc_ID pc\<rparr>) (key_of pc) pc"
      "pc_ID pc = ConnectionIDCounter st + 1" "pc_pid pc = 0" "ConnectionState pc = StateNotConnected"
      "key_of pc = (address, p_sourceType packet, p_sourceID packet)"
  using assms
  by (auto simp: connection_for_def Let_def NewPRUDPConnection_def key_of_def split: option.splits)

lemma connection_for_table:
  assumes "connection_for st packet address = (st0, pc)" and "table_ok C (conn_table st)"
  shows "table_ok C (conn_table st0) \<and> conn_table st0 (key_of pc) = Some pc \<and>
    key_of pc = (address, p_sourceType packet, p_sourceID packet) \<and> gatherings st0 = gatherings st \<and>
    (\<forall>k c. conn_table st k = Some c \<longrightarrow> conn_table st0 k = Some c)"
  using assms(1)
proof (cases rule: connection_for_cases)
  case old
  then show ?thesis using assms(2) by (auto dest: table_okD)
next
  case new
  then have "conn_ok C pc" by (simp add: conn_ok_def word_le_nat_alt)
  then show ?thesis using new assms(2) by (auto simp: set_conn_def intro: table_ok_upd)
qed

text \<open>A packet either updates the connection it came on, with requests of that connection's player only, or
  ends a connection.\<close>

definition packet_update :: "secure_setup \<Rightarrow> prudp_connection \<Rightarrow> prudp_connection \<Rightarrow> effect list \<Rightarrow> bool" where
  "packet_update C pc pc' es \<longleftrightarrow>
     key_of pc' = key_of pc \<and> pc_ID pc' = pc_ID pc \<and>
     (pc_pid pc' = pc_pid pc \<or> \<not> ConnectionState pc < StateConnecting) \<and>
     (conn_ok C pc \<longrightarrow> conn_ok C pc') \<and>
     ((\<forall>e \<in> set es. \<exists>pkt. e = Sent pkt) \<or>
      effects_of (pc_pid pc) es \<and> pc_pid pc' = pc_pid pc \<and> StateConnected \<le> ConnectionState pc)"

lemma packet_update_identity:
  "identity_of pc' = identity_of pc \<Longrightarrow> \<forall>e \<in> set es. \<exists>pkt. e = Sent pkt \<Longrightarrow> packet_update C pc pc' es"
  by (simp add: packet_update_def identity_of_eq conn_ok_def)

lemma handleData_update:
  assumes "handleData pc packet = Some (pc', es)"
  shows "packet_update C pc pc' es"
proof (cases "ConnectionState pc < StateConnected")
  case True
  then show ?thesis using assms by (auto simp: handleData_def intro: packet_update_identity)
next
  case False
  then have "effects_of (pc_pid pc) es"
    using assms by (auto simp: handleData_def effects_of_def received_def split: if_splits prod.splits)
  with False identity_data [OF assms] show ?thesis
    by (auto simp: packet_update_def identity_of_eq conn_ok_def)
qed

lemma handlePing_update: "handlePing pc packet = (pc', es) \<Longrightarrow> packet_update C pc pc' es"
  by (rule packet_update_identity [OF identity_ping])
    (auto simp: handlePing_def split: if_splits prod.splits)

lemma handleSyn_update: "handleSyn C' pc packet = (pc', ack) \<Longrightarrow> packet_update C pc pc' [Sent ack]"
  using handleSyn_identity [of C' pc packet pc' ack]
  by (simp add: packet_update_def conn_ok_def word_le_nat_alt)

lemma handleConnect_update:
  "handleConnectPacket C clock pc packet = Some (pc', acks) \<Longrightarrow> ss_IsSecure C \<Longrightarrow>
   packet_update C pc pc' (map Sent acks)"
  using handleConnectPacket_identity [of C clock pc packet pc' acks]
  by (auto simp: packet_update_def identity_of_eq conn_ok_def)

lemma processPacket_cases:
  assumes "processPacket C clock st packet address = Some (st', es)" and "ss_IsSecure C"
    and "connection_for st packet address = (st0, pc)"
  obtains (update) pc' where "st' = set_conn st0 (address, p_sourceType packet, p_sourceID packet) pc'"
      "packet_update C pc pc' es"
  | (ended) k c acks where "conn_table st0 k = Some c" "es = map Sent acks @ [Ended (pc_pid c)]"
      "st' = st0\<lparr>conn_table := (conn_table st0)(key_of c := None)\<rparr>"
  | (same) "st' = st0" "\<forall>e \<in> set es. \<exists>pkt. e = Sent pkt"
proof -
  note p = assms(1) [unfolded processPacket_def assms(3) prod.case Let_def]
  show thesis
  proof (cases "is_ack packet")
    case True
    then obtain pc' where "handleAcknowledgment (ss_pendingOrder C) pc packet = Some pc'" "es = []"
      "st' = set_conn st0 (address, p_sourceType packet, p_sourceID packet) pc'" using p by auto
    then show thesis using update packet_update_identity [OF identity_acknowledgment] by simp
  next
    case False
    then consider "p_type packet = SynPacket" | "p_type packet = ConnectPacket" | "p_type packet = DataPacket"
      | "p_type packet = DisconnectPacket" | "p_type packet = PingPacket"
      | "p_type packet \<notin> {SynPacket, ConnectPacket, DataPacket, DisconnectPacket, PingPacket}" by auto
    then show thesis
    proof cases
      case 1
      obtain pc' ack where syn: "handleSyn C pc packet = (pc', ack)" by force
      then show thesis using p False 1 update [of pc'] handleSyn_update [OF syn, of C] by simp
    next
      case 2
      then obtain pc' acks where con: "handleConnectPacket C clock pc packet = Some (pc', acks)"
        "es = map Sent acks" "st' = set_conn st0 (address, p_sourceType packet, p_sourceID packet) pc'" using p False by auto
      then show thesis using update [of pc'] handleConnect_update [OF con(1) assms(2)] by simp
    next
      case 3
      then obtain pc' where dat: "handleData pc packet = Some (pc', es)" "st' = set_conn st0 (address, p_sourceType packet, p_sourceID packet) pc'"
        using p False by auto
      then show thesis using update [of pc'] handleData_update [OF dat(1), of C] by simp
    next
      case 4
      then have "handleDisconnect st0 pc packet = (st', es)" using p False by simp
      then show thesis
      proof (cases "conn_table st0 (pc_Address pc, p_sourceType packet, p_sourceID packet)")
        case None
        have "st' = st0" "\<forall>e \<in> set es. \<exists>pkt. e = Sent pkt"
          using None \<open>handleDisconnect st0 pc packet = (st', es)\<close> by (auto simp: handleDisconnect_def Let_def)
        then show thesis by (rule same)
      next
        case (Some c)
        then show thesis
          using \<open>handleDisconnect st0 pc packet = (st', es)\<close> ended [OF Some]
          by (auto simp: handleDisconnect_def CleanupConnection_def Reset_def Let_def)
      qed
    next
      case 5
      obtain pc' es' where png: "handlePing pc packet = (pc', es')" by force
      then show thesis using p False 5 update [of pc'] handlePing_update [OF png, of C] by simp
    next
      case 6
      then show thesis using p False by (auto intro: same)
    qed
  qed
qed

subsection \<open>The invariant\<close>

lemma plays_member: "plays st p \<longleftrightarrow> (\<exists>k. member_of st p k)"
  by (simp add: plays_def member_of_iff)

text \<open>Everybody who plays came in with a ticket and, with \<^verbatim>\<open>K\<close>, still has a connection.\<close>

definition connected_as :: "secure_state \<Rightarrow> u64 \<Rightarrow> bool" where
  "connected_as st p \<longleftrightarrow> p \<in> pc_pid ` ran (conn_table st)"

definition secure_inv :: "secure_setup \<Rightarrow> bool \<Rightarrow> secure_state \<Rightarrow> bool" where
  "secure_inv C K st \<longleftrightarrow>
     store_inv (gatherings st) \<and> table_ok C (conn_table st) \<and>
     (\<forall>p. plays (gatherings st) p \<longrightarrow> admitted C p \<and> (K \<longrightarrow> connected_as st p))"

lemma connected_asI: "conn_table st k = Some pc \<Longrightarrow> pc_pid pc = p \<Longrightarrow> connected_as st p"
  unfolding connected_as_def by (auto intro: ranI)

lemma connected_asE:
  assumes "connected_as st p"
  obtains k pc where "conn_table st k = Some pc" "pc_pid pc = p"
  using assms unfolding connected_as_def ran_def by blast

lemma connected_as_other:
  assumes "connected_as st0 p" and "conn_table st0 k = Some pc" and "pc_pid pc \<noteq> p"
    and "conn_table st = (conn_table st0)(k := v)"
  shows "connected_as st p"
proof -
  obtain j c where j: "conn_table st0 j = Some c" "pc_pid c = p" by (rule connected_asE [OF assms(1)])
  then have "j \<noteq> k" using assms(2,3) by force
  then have "conn_table st j = Some c" using j(1) assms(4) by simp
  then show ?thesis using j(2) by (rule connected_asI)
qed

lemma packet_update_inv:
  assumes "packet_update C pc pc' es" and "secure_inv C K st0" and "conn_table st0 (key_of pc) = Some pc"
    and "env_ok E" and "K \<Longrightarrow> plays (gatherings st0) (pc_pid pc) \<longrightarrow> pc_pid pc' = pc_pid pc"
  shows "secure_inv C K (run_effects C E (set_conn st0 (key_of pc) pc', es))"
proof -
  let ?st = "run_effects C E (set_conn st0 (key_of pc) pc', es)"
  have inv: "store_inv (gatherings st0)" "table_ok C (conn_table st0)"
    "\<And>p. plays (gatherings st0) p \<Longrightarrow> admitted C p \<and> (K \<longrightarrow> connected_as st0 p)"
    using assms(2) by (auto simp: secure_inv_def)
  have g: "gatherings ?st = fold (run_effect C E) es (gatherings st0)"
    by (simp add: run_effects_def set_conn_def)
  have t: "conn_table ?st = (conn_table st0)(key_of pc \<mapsto> pc')" by (simp add: run_effects_def set_conn_def)
  have upd: "key_of pc' = key_of pc" "conn_ok C pc \<longrightarrow> conn_ok C pc'"
    using assms(1) by (simp_all add: packet_update_def)
  then have table: "table_ok C (conn_table ?st)"
    using inv(2) table_okD [OF inv(2) assms(3)] by (simp add: t table_ok_upd)
  have kept: "connected_as ?st p" if "plays (gatherings st0) p" K for p
  proof (cases "pc_pid pc = p")
    case True
    have "conn_table ?st (key_of pc) = Some pc'" by (simp add: t)
    then show ?thesis using True assms(5) that by (auto intro: connected_asI)
  next
    case False
    then show ?thesis using connected_as_other [OF _ assms(3) False t] inv(3) that by blast
  qed
  consider "\<forall>e \<in> set es. \<exists>pkt. e = Sent pkt"
    | "effects_of (pc_pid pc) es" "pc_pid pc' = pc_pid pc" "StateConnected \<le> ConnectionState pc"
    using assms(1) by (auto simp: packet_update_def)
  then show ?thesis
  proof cases
    case 1
    then show ?thesis
      using g table inv kept by (simp add: secure_inv_def run_only_sent)
  next
    case 2
    have self: "admitted C (pc_pid pc)" "connected_as ?st (pc_pid pc)"
      using table_okD [OF inv(2) assms(3)] 2 connected_asI [of ?st "key_of pc" pc'] by (auto simp: conn_ok_def t)
    note run = run_requests [OF assms(4) inv(1) 2(1)]
    have "admitted C p \<and> (K \<longrightarrow> connected_as ?st p)" if p: "plays (gatherings ?st) p" for p
    proof (cases "p = pc_pid pc")
      case False
      then have "plays (gatherings st0) p" using p run(2) by (auto simp: g plays_member)
      then show ?thesis using inv(3) kept by blast
    qed (use self in blast)
    then show ?thesis using table run(1) by (simp add: secure_inv_def g)
  qed
qed

lemma ended_inv:
  assumes "secure_inv C K st0" and "conn_table st0 k = Some c" and "env_ok E"
  shows "secure_inv C K (run_effects C E
    (st0\<lparr>conn_table := (conn_table st0)(key_of c := None)\<rparr>, map Sent acks @ [Ended (pc_pid c)]))"
proof -
  let ?es = "map Sent acks" and ?st = "run_effects C E
    (st0\<lparr>conn_table := (conn_table st0)(key_of c := None)\<rparr>, map Sent acks @ [Ended (pc_pid c)])"
  have inv: "store_inv (gatherings st0)" "table_ok C (conn_table st0)"
    "\<And>p. plays (gatherings st0) p \<Longrightarrow> admitted C p \<and> (K \<longrightarrow> connected_as st0 p)"
    using assms(1) by (auto simp: secure_inv_def)
  have k: "key_of c = k" using table_okD [OF inv(2) assms(2)] by simp
  have g: "gatherings ?st = fold (run_effect C E) (?es @ [Ended (pc_pid c)]) (gatherings st0)"
    by (simp add: run_effects_def)
  have t: "conn_table ?st = (conn_table st0)(k := None)" by (simp add: run_effects_def k)
  have "\<forall>e \<in> set ?es. \<exists>pkt. e = Sent pkt" by auto
  note run = run_ended [OF assms(3) inv(1) this, of C "pc_pid c"]
  have "admitted C p \<and> (K \<longrightarrow> connected_as ?st p)" if p: "plays (gatherings ?st) p" for p
  proof -
    have p0: "plays (gatherings st0) p" "p \<noteq> pc_pid c"
      using p run(2) unfolding g plays_member by blast+
    have "connected_as ?st p" if "connected_as st0 p"
      using connected_as_other [OF that assms(2) _ t] p0(2) by simp
    then show ?thesis using inv(3) [OF p0(1)] by blast
  qed
  then show ?thesis
    using run(1) table_ok_remove [OF inv(2)] unfolding secure_inv_def g t by blast
qed

lemma serve_inv:
  assumes "serve C E clock st packet address = Some st'" and "secure_inv C K st" and "ss_IsSecure C"
    and "env_ok E" and "K \<longrightarrow> same_players st st'"
  shows "secure_inv C K st'"
proof (cases "valid_ports (ss_StreamID C) packet")
  case False
  then show ?thesis using assms(1,2) by (simp add: serve_def)
next
  case True
  then obtain st1 es where p: "processPacket C clock st packet address = Some (st1, es)"
    "st' = run_effects C E (st1, es)" using assms(1) by (auto simp: serve_def)
  obtain st0 pc where cf: "connection_for st packet address = (st0, pc)" by force
  have "table_ok C (conn_table st)" using assms(2) by (simp add: secure_inv_def)
  note found = connection_for_table [OF cf this]
  have inv0: "secure_inv C K st0"
  proof -
    have "connected_as st0 p" if "connected_as st p" for p
      by (rule connected_asE [OF that]) (use found connected_asI in blast)
    then show ?thesis using assms(2) found by (simp add: secure_inv_def)
  qed
  show ?thesis
    using p(1) assms(3) cf
  proof (cases rule: processPacket_cases)
    case (update pc')
    have key: "(address, p_sourceType packet, p_sourceID packet) = key_of pc" using found by simp
    have keep: "pc_pid pc' = pc_pid pc" if K and plays: "plays (gatherings st0) (pc_pid pc)"
      using cf
    proof (cases rule: connection_for_cases)
      case old
      have "conn_table st' (key_of pc) = Some pc'"
        using p(2) update(1) key by (simp add: run_effects_def set_conn_def)
      moreover have "conn_table st (key_of pc) = Some pc" "plays (gatherings st) (pc_pid pc)"
        using old plays key by auto
      ultimately show ?thesis using assms(5) that(1) unfolding same_players_def by blast
    next
      case new
      then show ?thesis using update(2) by (simp add: packet_update_def word_less_nat_alt)
    qed
    have "conn_table st0 (key_of pc) = Some pc" using found by blast
    note inv' = packet_update_inv [OF update(2) inv0 this assms(4)]
    show ?thesis unfolding p(2) update(1) key by (rule inv') (use keep in blast)
  next
    case (ended k c acks)
    then show ?thesis using ended_inv [OF inv0 ended(1) assms(4), of acks] p(2) by simp
  next
    case same
    then show ?thesis using inv0 p(2) by (simp add: run_effects_def run_only_sent)
  qed
qed

lemma quiet_update:
  assumes "identity_of pc' = identity_of pc" and "conn_table st k = Some pc" and "secure_inv C K st"
  shows "secure_inv C K (set_conn st k pc')"
proof -
  have t: "table_ok C (conn_table st)" using assms(3) by (simp add: secure_inv_def)
  note ok = table_okD [OF t assms(2)]
  have "connected_as (set_conn st k pc') p" if "connected_as st p" for p
  proof (cases "pc_pid pc = p")
    case True
    then show ?thesis using assms(1) by (intro connected_asI [of _ k pc']) (simp_all add: set_conn_def identity_of_eq)
  next
    case False
    then show ?thesis
      using connected_as_other [OF that assms(2), of "set_conn st k pc'" "Some pc'"] by (simp add: set_conn_def)
  qed
  moreover have "key_of pc' = k" using ok assms(1) by (simp add: identity_of_eq)
  moreover have "conn_ok C pc'" using ok conn_ok_identity [OF assms(1)] by simp
  moreover have "table_ok C ((conn_table st)(k \<mapsto> pc'))"
    by (rule table_ok_upd [OF t]) fact+
  ultimately show ?thesis
    using assms(3) by (simp add: secure_inv_def) (simp add: set_conn_def)
qed

lemma run_effects_sent: "run_effects C E (st, map Sent ps) = st"
  by (simp add: run_effects_def run_only_sent)

lemma resend_cases:
  assumes "key_of pc = k"
  shows "resend st pc s packet = CleanupConnection st pc \<or>
    (\<exists>ps pc'. resend st pc s packet = (set_conn st k pc', map Sent ps) \<and> identity_of pc' = identity_of pc) \<or>
    resend st pc s packet = (st, [])"
proof -
  let ?p = "packet\<lparr>p_sendCount := p_sendCount packet + 1\<rparr>"
  have "resend st pc s packet = CleanupConnection st pc \<or> resend st pc s packet = (st, []) \<or>
    (\<exists>sw. resend st pc s packet = (set_conn st (key_of pc) (set_window pc s sw), map Sent [?p]))"
    by (auto simp: resend_def Let_def split: option.split)
  then show ?thesis using assms identity_windows(2) [of pc s] by blast
qed

lemma secure_step_inv:
  assumes "secure_step C K st st'" and "secure_inv C K st" and "ss_IsSecure C"
  shows "secure_inv C K st'"
  using assms(1)
proof (cases rule: secure_step.cases)
  case (ss_packet E clock packet address)
  then show ?thesis using serve_inv assms(2,3) by blast
next
  case (ss_ping k pc streamID)
  have "identity_of (fst (sendPing streamID pc)) = identity_of pc"
    by (simp add: sendPing_def frame_simps)
  then show ?thesis using quiet_update ss_ping assms(2) by simp
next
  case (ss_silent E k pc)
  then show ?thesis
    using ended_inv [OF assms(2) ss_silent(3,2), of "[]"] by (simp add: CleanupConnection_def Reset_def)
next
  case (ss_resend E k pc s packet)
  have "table_ok C (conn_table st)" using assms(2) by (simp add: secure_inv_def)
  then have k: "key_of pc = k" using table_okD ss_resend(3) by blast
  from resend_cases [OF k, of st s packet] show ?thesis
  proof (elim disjE exE conjE)
    assume "resend st pc s packet = CleanupConnection st pc"
    then show ?thesis
      using ended_inv [OF assms(2) ss_resend(3,2), of "[]"] ss_resend(1)
      by (simp add: CleanupConnection_def Reset_def)
  next
    fix ps pc'
    assume "resend st pc s packet = (set_conn st k pc', map Sent ps)" "identity_of pc' = identity_of pc"
    then show ?thesis
      using quiet_update [OF _ ss_resend(3) assms(2)] ss_resend(1) by (simp add: run_effects_sent)
  next
    assume "resend st pc s packet = (st, [])"
    then show ?thesis using run_effects_sent [of C E st "[]"] ss_resend(1) assms(2) by simp
  qed
next
  case (ss_unregister E p g s' ns r)
  have "store_inv s'"
    using lobby_trace_inv [OF steps_trace [OF destroyGathering_steps [OF ss_unregister(2)]]] assms(2)
    by (simp add: secure_inv_def)
  moreover have "plays s' q \<Longrightarrow> plays (gatherings st) q" for q
    using destroyed_members [OF ss_unregister(2)] by (auto simp: plays_member)
  ultimately show ?thesis
    using assms(2) ss_unregister(1) by (auto simp: secure_inv_def connected_as_def)
qed

lemma secure_inv_initial: "secure_inv C K initial_state"
  using NewStore_inv by (simp add: secure_inv_def initial_state_def table_ok_def plays_def NewStore_def)

interpretation secure: invariant_system "\<lambda>st. st = initial_state" "\<lambda>st st'. ss_IsSecure C \<and> secure_step C K st st'"
  "secure_inv C K" for C K
  by unfold_locales (auto simp: secure_inv_initial intro: secure_step_inv)

lemma secure_reachable:
  assumes "(secure_step C K)\<^sup>*\<^sup>* initial_state st" and "ss_IsSecure C"
  shows "secure_inv C K st"
proof -
  have "(\<lambda>st st'. ss_IsSecure C \<and> secure_step C K st st')\<^sup>*\<^sup>* initial_state st"
    using assms by (simp add: rtranclp_mono)
  then show ?thesis by (rule secure.inv_reachable [OF refl])
qed

subsection \<open>Connection IDs\<close>

text \<open>The IDs in the table are among those handed out so far, each once.\<close>

definition IDs_ok :: "u32 \<Rightarrow> ('k \<rightharpoonup> prudp_connection) \<Rightarrow> bool" where
  "IDs_ok v T \<longleftrightarrow>
     (\<forall>k pc. T k = Some pc \<longrightarrow> unat (pc_ID pc) \<le> unat v) \<and>
     (\<forall>k k' pc pc'. T k = Some pc \<longrightarrow> T k' = Some pc' \<longrightarrow> pc_ID pc = pc_ID pc' \<longrightarrow> k = k')"

lemma IDs_okI:
  assumes "\<And>k pc. T k = Some pc \<Longrightarrow> unat (pc_ID pc) \<le> unat v"
    and "\<And>k k' pc pc'. T k = Some pc \<Longrightarrow> T k' = Some pc' \<Longrightarrow> pc_ID pc = pc_ID pc' \<Longrightarrow> k = k'"
  shows "IDs_ok v T"
  using assms unfolding IDs_ok_def by blast

lemma IDs_okD:
  assumes "IDs_ok v T" and "T k = Some pc"
  shows "unat (pc_ID pc) \<le> unat v" and "T k' = Some pc' \<Longrightarrow> pc_ID pc = pc_ID pc' \<Longrightarrow> k = k'"
  using assms unfolding IDs_ok_def by blast+

lemma IDs_ok_mono:
  assumes "IDs_ok v T" and "\<And>j c. T' j = Some c \<Longrightarrow> \<exists>c'. T j = Some c' \<and> pc_ID c' = pc_ID c"
  shows "IDs_ok v T'"
proof (rule IDs_okI)
  fix k pc
  assume "T' k = Some pc"
  from assms(2) [OF this] obtain c where "T k = Some c" "pc_ID c = pc_ID pc" by blast
  then show "unat (pc_ID pc) \<le> unat v" using IDs_okD(1) [OF assms(1)] by metis
next
  fix k k' pc pc'
  assume "T' k = Some pc" "T' k' = Some pc'" "pc_ID pc = pc_ID pc'"
  moreover from assms(2) [OF this(1)] obtain c where "T k = Some c" "pc_ID c = pc_ID pc" by blast
  moreover from assms(2) [OF \<open>T' k' = Some pc'\<close>] obtain c' where "T k' = Some c'" "pc_ID c' = pc_ID pc'" by blast
  ultimately show "k = k'" using IDs_okD(2) [OF assms(1), of k c k' c'] by simp
qed

lemma IDs_ok_same:
  assumes "IDs_ok v T" and "T k = Some pc" and "pc_ID pc' = pc_ID pc"
  shows "IDs_ok v (T(k \<mapsto> pc'))"
  by (rule IDs_ok_mono [OF assms(1)]) (use assms(2,3) in \<open>auto split: if_splits\<close>)

lemma IDs_ok_remove: "IDs_ok v T \<Longrightarrow> IDs_ok v (T(k := None))"
  by (erule IDs_ok_mono) (auto split: if_splits)

lemma IDs_ok_new:
  assumes "IDs_ok v T" and "unat (v + 1) = unat v + 1" and "pc_ID pc = v + 1"
  shows "IDs_ok (v + 1) (T(k \<mapsto> pc))"
proof (rule IDs_okI)
  have old: "unat (pc_ID c) < unat (v + 1)" if "T j = Some c" for j c
    using IDs_okD(1) [OF assms(1) that] assms(2) by simp
  then show "unat (pc_ID c) \<le> unat (v + 1)" if "(T(k \<mapsto> pc)) j = Some c" for j c
    using that assms(3) by (force split: if_splits)
  have differ: "pc_ID c \<noteq> pc_ID pc" if "T j = Some c" for j c
    using old [OF that] assms(3) by auto
  show "j = j'" if "(T(k \<mapsto> pc)) j = Some c" "(T(k \<mapsto> pc)) j' = Some c'" "pc_ID c = pc_ID c'" for j j' c c'
    using that differ [of j c] differ [of j' c'] IDs_okD(2) [OF assms(1), of j c j' c']
    by (simp split: if_splits)
qed

lemma IDs_ok_empty: "IDs_ok v Map.empty"
  by (simp add: IDs_ok_def)

definition IDs_within :: "nat \<Rightarrow> secure_state \<Rightarrow> bool" where
  "IDs_within n st \<longleftrightarrow> IDs_ok (ConnectionIDCounter st) (conn_table st) \<and> unat (ConnectionIDCounter st) \<le> n"

lemma IDs_within_quiet:
  assumes "IDs_within n st" and "conn_table st k = Some pc" and "pc_ID pc' = pc_ID pc"
  shows "IDs_within n (set_conn st k pc')"
  using assms(1) IDs_ok_same [of _ "conn_table st", OF _ assms(2,3)] by (simp add: IDs_within_def set_conn_def)

lemma IDs_within_remove: "IDs_within n st \<Longrightarrow> IDs_within n (st\<lparr>conn_table := (conn_table st)(k := None)\<rparr>)"
  by (simp add: IDs_within_def IDs_ok_remove)

lemma IDs_within_effects [simp]: "IDs_within n (run_effects C E (st, es)) = IDs_within n st"
  by (simp add: IDs_within_def run_effects_def)

lemma connection_for_IDs:
  assumes "connection_for st packet address = (st0, pc)" and "IDs_within n st" and "n + 1 < 2 ^ 32"
  shows "IDs_within (n + 1) st0"
  using assms(1)
proof (cases rule: connection_for_cases)
  case old
  then show ?thesis using assms(2) by (simp add: IDs_within_def)
next
  case new
  have "unat (ConnectionIDCounter st + 1) = unat (ConnectionIDCounter st) + 1"
    using assms(2,3) by (simp add: IDs_within_def unat_word_ariths)
  then show ?thesis
    using new(2,3) assms(2) IDs_ok_new [of "ConnectionIDCounter st" "conn_table st" pc "key_of pc"]
    by (simp add: IDs_within_def set_conn_def)
qed

lemma serve_IDs:
  assumes "serve C E clock st packet address = Some st'" and "secure_inv C K st" and "ss_IsSecure C"
    and "IDs_within n st" and "n + 1 < 2 ^ 32"
  shows "IDs_within (n + 1) st'"
proof (cases "valid_ports (ss_StreamID C) packet")
  case False
  then show ?thesis using assms(1,4) by (simp add: serve_def IDs_within_def)
next
  case True
  then obtain st1 es where p: "processPacket C clock st packet address = Some (st1, es)"
    "st' = run_effects C E (st1, es)" using assms(1) by (auto simp: serve_def)
  obtain st0 pc where cf: "connection_for st packet address = (st0, pc)" by force
  have "table_ok C (conn_table st)" using assms(2) by (simp add: secure_inv_def)
  note found = connection_for_table [OF cf this]
  note ids = connection_for_IDs [OF cf assms(4,5)]
  show ?thesis
    using p(1) assms(3) cf
  proof (cases rule: processPacket_cases)
    case (update pc')
    have "(address, p_sourceType packet, p_sourceID packet) = key_of pc" "conn_table st0 (key_of pc) = Some pc"
      using found by auto
    moreover have "pc_ID pc' = pc_ID pc" using update(2) by (simp add: packet_update_def)
    ultimately show ?thesis using IDs_within_quiet [OF ids] update(1) p(2) by simp
  next
    case (ended k c acks)
    then show ?thesis using IDs_within_remove [OF ids] p(2) by simp
  next
    case same
    then show ?thesis using ids p(2) by simp
  qed
qed

lemma secure_step_IDs:
  assumes "secure_step C K st st'" and "secure_inv C K st" and "ss_IsSecure C"
    and "IDs_within n st" and "n + 1 < 2 ^ 32"
  shows "IDs_within (n + 1) st'"
proof -
  have more: "IDs_within n s \<Longrightarrow> IDs_within (n + 1) s" for s by (simp add: IDs_within_def)
  have quiet: "IDs_within (n + 1) (set_conn st k pc')" if "conn_table st k = Some pc" "identity_of pc' = identity_of pc" for k pc pc'
    using IDs_within_quiet [OF assms(4) that(1)] that(2) more by (simp add: identity_of_eq)
  have cleanup: "IDs_within (n + 1) (run_effects C E (CleanupConnection st pc))" for E pc
    using IDs_within_remove [OF assms(4)] more by (simp add: CleanupConnection_def)
  show ?thesis
    using assms(1)
  proof (cases rule: secure_step.cases)
    case (ss_packet E clock packet address)
    then show ?thesis using serve_IDs assms(2-5) by blast
  next
    case (ss_ping k pc streamID)
    then show ?thesis using quiet by (simp add: sendPing_def frame_simps)
  next
    case (ss_silent E k pc)
    then show ?thesis using cleanup by simp
  next
    case (ss_resend E k pc s packet)
    have "table_ok C (conn_table st)" using assms(2) by (simp add: secure_inv_def)
    then have k: "key_of pc = k" using table_okD ss_resend(3) by blast
    from resend_cases [OF k, of st s packet] show ?thesis
      using cleanup quiet [OF ss_resend(3)] ss_resend(1) more [OF assms(4)] by auto
  next
    case (ss_unregister E p g s' ns r)
    then show ?thesis using assms(4) by (simp add: IDs_within_def)
  qed
qed

lemma secure_run_IDs:
  assumes "(secure_step C K ^^ n) initial_state st" and "ss_IsSecure C" and "n < 2 ^ 32"
  shows "IDs_within n st \<and> secure_inv C K st"
  using assms(1,3)
proof (induction n arbitrary: st)
  case 0
  then have "st = initial_state" by simp
  then show ?case
    using secure_inv_initial IDs_ok_empty by (simp add: IDs_within_def) (simp add: initial_state_def)
next
  case (Suc n)
  then obtain mid where "(secure_step C K ^^ n) initial_state mid" "secure_step C K mid st" by auto
  then show ?case
    using Suc secure_step_IDs [of C K mid st n] secure_step_inv [of C K mid st] assms(2) by simp
qed

subsection \<open>From a console to a handler\<close>

lemma substreams_0: "substreams 0 = [0]"
  by (simp add: substreams_def)

lemma prepare_streams_single:
  assumes "p_version packet = 1 \<longrightarrow> p_MaximumSubstreamID packet = 0"
  shows "slidingWindows (prepare_streams pc packet) = [0 \<mapsto> NewSlidingWindow (pc_Algorithm pc)]"
    and "packetDispatchQueues (prepare_streams pc packet) = [0 \<mapsto> NewPacketDispatchQueue]"
    and "incomingFragmentBuffers (prepare_streams pc packet) = incomingFragmentBuffers pc"
  using assms
  by (simp_all add: prepare_streams_def InitializeSlidingWindows_def InitializePacketDispatchQueues_def
      substreams_0 CreateSlidingWindow_def CreatePacketDispatchQueue_def Let_def)

lemma visits_single:
  assumes "visits_all ord"
  shows "ord {x} = [x]"
proof -
  have ord: "distinct (ord {x})" "set (ord {x}) = {x}" using assms by (simp_all add: visits_all_def)
  then obtain ys where ys: "ord {x} = x # ys" by (cases "ord {x}") auto
  have "ys = []"
  proof (cases ys)
    case (Cons z zs)
    then have "z = x" using ord ys by simp
    then show ?thesis using ord ys Cons by simp
  qed simp
  then show ?thesis using ys by simp
qed

text \<open>After a CONNECT with a genuine ticket substream 0 expects packet 2 under the session key.\<close>

lemma connect_starts_streams:
  assumes "ss_IsSecure C" and "\<not> ss_EncryptedConnect C" and "visits_all (ss_windowOrder C)"
    and "p_version packet = 1 \<longrightarrow> p_MaximumSubstreamID packet = 0" and "StateConnecting \<le> ConnectionState pc" and "stream_key sk"
    and "ReadKerberosTicket (ss_settings C) (ss_account_env C) (ss_accounts C) (ss_ServerAccount C) clock
      (p_payload packet) = Done (sk, p, check)"
  shows "\<exists>pc' ack. handleConnectPacket C clock pc packet = Some (pc', [ack]) \<and>
    key_of pc' = key_of pc \<and> pc_pid pc' = p \<and> ConnectionState pc' = StateConnected \<and>
    recv_state pc' 0 = Some (NewPacketDispatchQueue, new_cipher sk, GetIncomingFragmentBuffer pc 0)"
proof -
  let ?pc = "(prepare_streams pc packet)\<lparr>pc_pid := p\<rparr>"
  let ?pc' = "(SetSessionKey (ss_windowOrder C) ?pc sk)\<lparr>ConnectionState := StateConnected, heartbeatTimer := True\<rparr>"
  note single = prepare_streams_single [OF assms(4), of pc]
  have order: "ss_windowOrder C {0} = [0]" by (rule visits_single [OF assms(3)])
  have "\<not> ConnectionState pc < StateConnecting" using assms(5) by (simp only: not_less)
  then have "\<exists>ack. handleConnectPacket C clock pc packet = Some (?pc', [ack])"
    using assms(1,2,7) by (simp only: handleConnectPacket_def crypt_connect_def Let_def if_False prod.case outcome.case
      simp_thms ex_simps) blast
  moreover have "recv_state ?pc' 0 =
      Some (NewPacketDispatchQueue, new_cipher sk, GetIncomingFragmentBuffer pc 0)"
    using assms(6) single order
    by (simp add: recv_state_def SetSessionKey_def SetCipherKey_def SetKey_key GetIncomingFragmentBuffer_def Let_def)
  moreover have "identity_of (prepare_streams pc packet) = identity_of pc" by (rule identity_prepare)
  then have "key_of ?pc' = key_of pc" "pc_pid ?pc' = p"
    by (simp_all add: SetSessionKey_def key_of_def identity_of_def split: prod.split)
  moreover have "ConnectionState ?pc' = StateConnected" by simp
  ultimately show ?thesis by blast
qed

text \<open>A request in one packet, under the cipher the substream starts with.\<close>

definition one_packet :: "prudp_packet \<Rightarrow> rc4_cipher \<Rightarrow> packed_message \<Rightarrow> bool" where
  "one_packet d c m \<longleftrightarrow> reliable_data 0 d \<and> p_sequenceID d = 2 \<and> p_fragmentID d = 0 \<and>
     p_payload d = XORKeyStream c (encodePacked m) \<and> packable m"

lemma one_packet_received:
  assumes "one_packet d c m" and "recv_state pc 0 = Some (NewPacketDispatchQueue, c, [])"
    and "ConnectionState pc = StateConnected"
  shows "\<exists>pc' acks. handleData pc d = Some (pc', map Sent acks @ [Received (pc_pid pc) m])"
proof -
  let ?fs = "[(0, encodePacked m)] :: (u8 \<times> bytes) list"
  have data: "reliable_data 0 d" using assms(1) by (simp add: one_packet_def)
  have wire: "stream_of 0 c ?fs [d]" using assms(1) by (simp add: stream_of_def one_packet_def)
  have start: "tracks 0 [d] c ?fs {} 0 pc" using assms(2) by (simp add: tracks_def NewPacketDispatchQueue_def)
  obtain pc' acks evs n where r: "HandleReliable pc d = Some (pc', acks, evs)"
    "tracks 0 [d] c ?fs {0} n pc'" "delivered ?fs n = delivered ?fs 0 @ map ev_message evs"
    "n < length ?fs \<longrightarrow> n \<notin> {0}"
    using HandleReliable_tracks [OF wire start, of 0] by auto
  have "n = 1" using r(2,4) by (auto simp: tracks_def le_Suc_eq)
  then have "map ev_message evs = [m]"
    using r(3) assms(1) by (simp add: delivered_def one_packet_def FromBytes_encodePacked)
  then have "received pc evs = [Received (pc_pid pc) m]" by (auto simp: received_def)
  then show ?thesis
    using r(1) assms(3) data by (auto simp: handleData_def reliable_data_def)
qed

end
