(* ===== verification/SecureTheorems.thy ===== *)
theory SecureTheorems
  imports LifecycleTheorems MMTheorems
begin

text \<open>
  The secure server as a whole: a console's way from its first packet to a matchmaking handler, who can
  be in a gathering, what the IDs of connections are worth, and what a CONNECT on a connection in use
  and a malformed acknowledgement do.
\<close>

subsection \<open>One packet\<close>

text \<open>A setup as \<^verbatim>\<open>StartSecureServer\<close> makes it: tickets are demanded, their bytes are not encrypted again
  (\<^verbatim>\<open>EncryptedConnect\<close> keeps its default), and the accounts are those of the process.\<close>

definition runs_secure :: "config \<Rightarrow> accounts \<Rightarrow> bool \<Rightarrow> secure_setup \<Rightarrow> bool" where
  "runs_secure c g h C \<longleftrightarrow>
     accounts_ok g \<and> ss_settings C = settings_of (secure_config c g) h \<and> ss_accounts C = g \<and>
     ss_ServerAccount C = SecureServerAccount g \<and> ss_IsSecure C = srv_IsSecureEndPoint (secure_config c g) \<and>
     ss_StreamID C = srv_EndpointStreamID (secure_config c g) \<and> \<not> ss_EncryptedConnect C \<and>
     visits_all (ss_windowOrder C)"

lemma runs_secureD:
  assumes "runs_secure c g h C"
  shows "accounts_ok g" and "ss_settings C = settings_of (secure_config c g) h" and "ss_accounts C = g"
    and "ss_ServerAccount C = SecureServerAccount g" and "ss_IsSecure C" and "\<not> ss_EncryptedConnect C"
    and "visits_all (ss_windowOrder C)"
  using assms by (simp_all add: runs_secure_def) (simp add: secure_config_def)

definition ticket_for :: "secure_setup \<Rightarrow> timestamp \<Rightarrow> bytes \<Rightarrow> bytes \<Rightarrow> u64 \<Rightarrow> bool" where
  "ticket_for C clock payload sk p \<longleftrightarrow>
     (\<exists>check. admits (ss_settings C) (ss_ServerAccount C) clock payload sk p check)"

lemma ticket_read:
  assumes "runs_secure c g h C"
  shows "ticket_for C clock payload sk p \<longleftrightarrow>
    (\<exists>check. ReadKerberosTicket (ss_settings C) (ss_account_env C) (ss_accounts C) (ss_ServerAccount C) clock payload =
       Done (sk, p, check))"
  using ReadKerberosTicket_Done [OF runs_secureD(1,2) [OF assms]] runs_secureD(3,4) [OF assms]
  by (simp add: ticket_for_def)

lemma ticket_key: "runs_secure c g h C \<Longrightarrow> ticket_for C clock payload sk p \<Longrightarrow> stream_key sk"
  using runs_secureD(2) by (auto simp: ticket_for_def admits_def stream_key_def)

definition packet_key :: "prudp_packet \<Rightarrow> net_addr \<Rightarrow> conn_key" where
  "packet_key packet address = (address, p_sourceType packet, p_sourceID packet)"

definition incoming :: "secure_setup \<Rightarrow> u16 \<Rightarrow> prudp_packet \<Rightarrow> bool" where
  "incoming C ty packet \<longleftrightarrow> valid_ports (ss_StreamID C) packet \<and> \<not> is_ack packet \<and> p_type packet = ty"

definition single_stream :: "prudp_packet \<Rightarrow> bool" where
  "single_stream packet \<longleftrightarrow> (p_version packet = 1 \<longrightarrow> p_MaximumSubstreamID packet = 0)"

lemma connection_known:
  "conn_table st (packet_key packet address) = Some pc \<Longrightarrow> connection_for st packet address = (st, pc)"
  by (simp add: connection_for_def packet_key_def)

lemma serve_known:
  assumes "incoming C ty packet" and "conn_table st (packet_key packet address) = Some pc"
  shows "ty = ConnectPacket \<Longrightarrow> handleConnectPacket C clock pc packet = Some (pc', acks) \<Longrightarrow>
      serve C E clock st packet address = Some (set_conn st (packet_key packet address) pc')"
    and "ty = DataPacket \<Longrightarrow> handleData pc packet = Some (pc', es) \<Longrightarrow>
      serve C E clock st packet address = Some (run_effects C E (set_conn st (packet_key packet address) pc', es))"
  using assms(1) connection_known [OF assms(2)]
  by (simp_all add: serve_def processPacket_def incoming_def run_effects_sent flip: packet_key_def)

lemma serve_syn:
  assumes "incoming C SynPacket packet" and "conn_table st (packet_key packet address) = None"
  shows "\<exists>st' pc. serve C E clock st packet address = Some st' \<and>
    conn_table st' = (conn_table st)(packet_key packet address \<mapsto> pc) \<and> gatherings st' = gatherings st \<and>
    key_of pc = packet_key packet address \<and> ConnectionState pc = StateConnecting \<and>
    GetIncomingFragmentBuffer pc 0 = []"
proof -
  obtain st0 pc where new: "connection_for st packet address = (st0, pc)"
    "conn_table st0 = (conn_table st)(packet_key packet address \<mapsto> pc)" "gatherings st0 = gatherings st"
    "key_of pc = packet_key packet address" "GetIncomingFragmentBuffer pc 0 = []"
    using assms(2) by (simp add: connection_for_def packet_key_def set_conn_def key_of_def NewPRUDPConnection_def
        GetIncomingFragmentBuffer_def Let_def)
  obtain pc' ack where syn: "handleSyn C pc packet = (pc', ack)" by force
  then have "GetIncomingFragmentBuffer pc' 0 = []"
    using new(5) by (auto simp: handleSyn_def Reset_def GetIncomingFragmentBuffer_def Let_def)
  moreover have "serve C E clock st packet address = Some (set_conn st0 (packet_key packet address) pc')"
    using assms(1) new(1) syn run_effects_sent [of C E _ "[ack]"]
    by (simp add: serve_def processPacket_def incoming_def flip: packet_key_def)
  ultimately show ?thesis
    using handleSyn_identity [OF syn] new(2-4) by (auto simp: set_conn_def)
qed

lemma serve_connect:
  assumes "runs_secure c g h C" and "incoming C ConnectPacket packet" and "single_stream packet"
    and "conn_table st k = Some pc" and "packet_key packet address = k" and "StateConnecting \<le> ConnectionState pc"
    and "ticket_for C clock (p_payload packet) sk p"
  shows "\<exists>st' pc'. serve C E clock st packet address = Some st' \<and>
    conn_table st' = (conn_table st)(k \<mapsto> pc') \<and> gatherings st' = gatherings st \<and>
    key_of pc' = key_of pc \<and> pc_pid pc' = p \<and> ConnectionState pc' = StateConnected \<and>
    recv_state pc' 0 = Some (NewPacketDispatchQueue, new_cipher sk, GetIncomingFragmentBuffer pc 0)"
proof -
  obtain check where read: "ReadKerberosTicket (ss_settings C) (ss_account_env C) (ss_accounts C)
      (ss_ServerAccount C) clock (p_payload packet) = Done (sk, p, check)"
    using assms(7) ticket_read [OF assms(1)] by blast
  obtain pc' ack where con: "handleConnectPacket C clock pc packet = Some (pc', [ack])"
    "key_of pc' = key_of pc \<and> pc_pid pc' = p \<and> ConnectionState pc' = StateConnected \<and>
     recv_state pc' 0 = Some (NewPacketDispatchQueue, new_cipher sk, GetIncomingFragmentBuffer pc 0)"
    using connect_starts_streams [OF runs_secureD(5-7) [OF assms(1)] _ assms(6) ticket_key [OF assms(1,7)] read]
      assms(3) by (auto simp: single_stream_def)
  have "conn_table st (packet_key packet address) = Some pc" using assms(4,5) by simp
  from serve_known(1) [OF assms(2) this refl con(1)] con(2) assms(5)
  show ?thesis by (intro exI [of _ "set_conn st k pc'"] exI [of _ pc']) (simp add: set_conn_def)
qed

lemma serve_data:
  assumes "incoming C DataPacket d" and "conn_table st k = Some pc" and "packet_key d address = k"
    and "one_packet d c m" and "recv_state pc 0 = Some (NewPacketDispatchQueue, c, [])"
    and "ConnectionState pc = StateConnected"
  shows "\<exists>st' pc'. serve C E clock st d address = Some st' \<and> conn_table st' = (conn_table st)(k \<mapsto> pc') \<and>
    pc_pid pc' = pc_pid pc \<and>
    gatherings st' = run_effect C E (Received (pc_pid pc) m) (gatherings st)"
proof -
  obtain pc' acks where dat: "handleData pc d = Some (pc', map Sent acks @ [Received (pc_pid pc) m])"
    using one_packet_received [OF assms(4-6)] by blast
  have same: "pc_pid pc' = pc_pid pc" using identity_data [OF dat] by (simp add: identity_of_eq)
  have only: "fold (run_effect C E) (map Sent acks) s = s" for s by (rule run_only_sent) auto
  have "conn_table st (packet_key d address) = Some pc" using assms(2,3) by simp
  from serve_known(2) [OF assms(1) this refl dat]
  have "serve C E clock st d address =
      Some (run_effects C E (set_conn st k pc', map Sent acks @ [Received (pc_pid pc) m]))"
    using assms(3) by simp
  moreover have "gatherings (run_effects C E (set_conn st k pc', map Sent acks @ [Received (pc_pid pc) m])) =
      run_effect C E (Received (pc_pid pc) m) (gatherings st)"
    using only by (simp add: run_effects_def set_conn_def del: fold_map)
  moreover have "conn_table (run_effects C E (set_conn st k pc', es)) = (conn_table st)(k \<mapsto> pc')" for es
    by (simp add: run_effects_def set_conn_def)
  ultimately show ?thesis using same by blast
qed

lemma run_request_effect:
  "m_IsRequest m \<Longrightarrow> decode_request_of C m = Some (err, rq) \<Longrightarrow>
   run_effect C E (Received p m) st = fst (handle E st p (m_CallID m) err rq)"
  by (simp add: run_effect_def)

subsection \<open>SYN, CONNECT, a request\<close>

lemma handshake:
  assumes "runs_secure c g h C"
    and "incoming C SynPacket syn" and "incoming C ConnectPacket con" and "single_stream con"
    and "packet_key syn address = k" and "packet_key con address = k" and "conn_table st k = None"
    and "ticket_for C t' (p_payload con) sk p"
  shows "\<exists>st1 st2 pc. serve C E t st syn address = Some st1 \<and> serve C E' t' st1 con address = Some st2 \<and>
    gatherings st1 = gatherings st \<and> gatherings st2 = gatherings st \<and>
    conn_table st2 = (conn_table st)(k \<mapsto> pc) \<and> pc_pid pc = p \<and> ConnectionState pc = StateConnected \<and>
    recv_state pc 0 = Some (NewPacketDispatchQueue, new_cipher sk, [])"
proof -
  obtain st1 pc1 where one: "serve C E t st syn address = Some st1"
    "conn_table st1 = (conn_table st)(k \<mapsto> pc1)" "gatherings st1 = gatherings st" "ConnectionState pc1 = StateConnecting"
    "GetIncomingFragmentBuffer pc1 0 = []"
    using serve_syn [OF assms(2), of st address E t] assms(5,7) by auto
  have "StateConnecting \<le> ConnectionState pc1" by (simp add: one(4))
  moreover have "conn_table st1 k = Some pc1" by (simp add: one(2))
  ultimately show ?thesis
    using serve_connect [OF assms(1,3,4) _ assms(6) _ assms(8), of st1 pc1 E'] one by auto
qed

subsection \<open>A CONNECT without a ticket\<close>

text \<open>It leaves a connected connection connected, with new streams under the key every connection starts with.\<close>

lemma refused_connect:
  assumes "runs_secure c g h C" and "single_stream packet" and "p_payload packet = []"
    and "StateConnecting \<le> ConnectionState pc" and "pc_Algorithm pc = NewRC4Encryption"
  shows "\<exists>pc'. handleConnectPacket C clock pc packet = Some (pc', []) \<and> identity_of pc' = identity_of pc \<and>
    recv_state pc' 0 = Some (NewPacketDispatchQueue, new_cipher default_key, GetIncomingFragmentBuffer pc 0)"
proof -
  have single: "p_version packet = 1 \<longrightarrow> p_MaximumSubstreamID packet = 0"
    using assms(2) by (simp add: single_stream_def)
  have "ReadKerberosTicket (ss_settings C) (ss_account_env C) (ss_accounts C) (ss_ServerAccount C) clock [] =
      Failed PayloadUnread"
    by (simp add: ReadKerberosTicket_def read_buffer_def read_le_def read_bytes_def)
  moreover have "\<not> ConnectionState pc < StateConnecting" using assms(4) by (simp only: not_less)
  ultimately have "handleConnectPacket C clock pc packet = Some (prepare_streams pc packet, [])"
    using assms(3) runs_secureD(5,6) [OF assms(1)]
    by (simp only: handleConnectPacket_def crypt_connect_def Let_def if_False if_True prod.case outcome.case simp_thms)
  moreover have "recv_state (prepare_streams pc packet) 0 =
      Some (NewPacketDispatchQueue, new_cipher default_key, GetIncomingFragmentBuffer pc 0)"
    using prepare_streams_single [OF single, of pc] assms(5)
    by (simp add: recv_state_def NewSlidingWindow_def CopyAlgorithm_in_step in_step_New cipher_New
        GetIncomingFragmentBuffer_def)
  ultimately show ?thesis using identity_prepare by blast
qed

subsection \<open>Aggregate acknowledgements\<close>

lemma read_u16_cases:
  "read_u16 bs = None \<longleftrightarrow> length bs < 2"
  "read_u16 bs = Some (x, r) \<Longrightarrow> length bs = length r + 2"
  by (auto simp: read_u16_def read_le_def read_bytes_def split: if_splits)

lemma ids_end_even: "read_ids_to_end bs ids = Some r \<Longrightarrow> even (length bs)"
proof (rule read_ids_to_end.raw_induct [of "\<lambda>bs ids r. even (length bs)"], goal_cases)
  case (1 loop bs ids r)
  then show ?case by (auto dest: read_u16_cases(2) split: if_splits option.splits)
qed

lemma even_ids_end: "even (length bs) \<Longrightarrow> \<exists>r. read_ids_to_end bs ids = Some r"
proof (induction "length bs" arbitrary: bs ids rule: less_induct)
  case less
  show ?case
  proof (cases "read_u16 bs")
    case None
    then have "length bs < 2" by (simp add: read_u16_cases(1))
    with less.prems have "bs = []" by (cases bs) auto
    then show ?thesis by (simp add: read_ids_to_end.simps)
  next
    case (Some xr)
    obtain x r where xr: "xr = (x, r)" by force
    then have l: "length bs = length r + 2" using Some read_u16_cases(2) by simp
    then obtain r' where "read_ids_to_end r (ids @ [x]) = Some r'" using less by force
    moreover have "bs \<noteq> []" using l by auto
    ultimately show ?thesis using Some xr by (subst read_ids_to_end.simps) simp
  qed
qed

subsection \<open>A concrete input\<close>

definition example_call :: packed_message where
  "example_call = NewRMCRequest\<lparr>m_ProtocolID := 0x6D, m_MethodID := 6\<rparr>"

definition example_setup :: secure_setup where
  "example_setup =
     \<lparr>ss_settings = settings_of example_secure True, ss_account_env = example_accounts_env,
      ss_accounts = example_accounts example_settings,
      ss_ServerAccount = SecureServerAccount (example_accounts example_settings), ss_StreamID = 1,
      ss_IsSecure = True, ss_EncryptedConnect = False, ss_SupportedFunctions = 0,
      ConnectionSignatureCalculator = (\<lambda>packet address. p_connectionSignature packet),
      ss_windowOrder = sorted_list_of_set, ss_pendingOrder = sorted_list_of_set,
      decode_request_of = (\<lambda>m. if m_MethodID m = 6 then Some (None, example_create) else None)\<rparr>"

lemma example_runs_secure: "runs_secure default_config (example_accounts example_settings) True example_setup"
  by (simp add: runs_secure_def example_setup_def example_accounts_ok visits_all_sorted)
    (simp add: secure_config_def)

text \<open>A ticket for any player whose PID fits in four bytes.\<close>

lemma example_ticket:
  assumes "narrow_pid p"
  shows "\<exists>payload. ticket_for example_setup example_time payload (replicate 32 0) p"
proof -
  let ?a = "SecureServerAccount (example_accounts example_settings)" and ?S = "settings_of example_secure True"
  let ?ti = "\<lparr>Issued = FromTimestamp example_time, SourcePID = p, td_SessionKey = replicate 32 0\<rparr>"
  let ?key = "DeriveKerberosKey (acc_PID ?a) (bytes_of_string (acc_Password ?a))"
  obtain t where t: "Encrypt ?key (internal_bytes ?S ?ti) = Done t"
    "length t = length (internal_bytes ?S ?ti) + 16"
    using Encrypt_usable [of ?key "internal_bytes ?S ?ti"] by auto
  have "usable_key (replicate 32 0)" by (simp add: usable_key_def)
  then obtain r where r: "Encrypt (replicate 32 0) (request_data ?S p 5 9) = Done r"
    "length r = length (request_data ?S p 5 9) + 16"
    using Encrypt_usable by blast
  have "length t < 2 ^ 32 \<and> length r < 2 ^ 32"
    using t(2) r(2) by (simp add: internal_bytes_def request_data_def write_pid_settings)
  then have "admits ?S ?a example_time (write_buffer t @ write_buffer r) (replicate 32 0) p 9"
    using in_time [OF example_time_ok] Standard_FromTimestamp [OF example_time_ok] assms
    by (intro admitsI [OF t(1) r(1)]) simp_all
  then show ?thesis by (auto simp: ticket_for_def example_setup_def)
qed

definition example_packet :: "u16 \<Rightarrow> bytes \<Rightarrow> prudp_packet" where
  "example_packet ty payload =
     (NewPacket 1)\<lparr>p_type := ty, p_flags := 0xE, p_sourceType := 10, p_sourceID := 15,
        p_destinationType := 10, p_destinationID := 1, p_payload := payload\<rparr>"

definition example_data :: "bytes \<Rightarrow> prudp_packet" where
  "example_data key =
     (example_packet DataPacket (XORKeyStream (new_cipher key) (encodePacked example_call)))\<lparr>p_sequenceID := 2\<rparr>"

lemma example_key [simp]:
  "packet_key (example_packet ty payload) a = (a, 10, 15)" "packet_key (example_data key) a = (a, 10, 15)"
  by (simp_all add: packet_key_def example_packet_def example_data_def)

lemma example_incoming:
  "incoming example_setup ty (example_packet ty payload)" "incoming example_setup DataPacket (example_data key)"
  "single_stream (example_packet ty payload)" "p_payload (example_packet ty payload) = payload"
  by (simp_all add: incoming_def valid_ports_def example_setup_def example_packet_def example_data_def is_ack_def
      has_flag_def single_stream_def NewPacket_def word_le_nat_alt)

lemma example_one_packet: "one_packet (example_data key) (new_cipher key) example_call"
  by (simp add: one_packet_def reliable_data_def example_data_def example_packet_def is_ack_def has_flag_def
      NewPacket_def packable_def example_call_def NewRMCRequest_def NewRMCMessage_def)

lemma example_decoded: "m_IsRequest example_call" "m_CallID example_call = 0"
  "decode_request_of example_setup example_call = Some (None, example_create)"
  by (simp_all add: example_call_def example_setup_def NewRMCRequest_def NewRMCMessage_def)

text \<open>A player in a gathering, connected from the port of those packets.\<close>

definition example_conn :: prudp_connection where
  "example_conn = (NewPRUDPConnection OtherAddr)\<lparr>ConnectionState := StateConnected, pc_ID := 1, pc_pid := 7,
     StreamType := 10, StreamID := 15\<rparr>"

definition example_busy :: secure_state where
  "example_busy = \<lparr>conn_table = [(OtherAddr, 10, 15) \<mapsto> example_conn], ConnectionIDCounter = 1,
     gatherings = example_store\<rparr>"

lemma example_plays: "plays (gatherings example_busy) 7"
  unfolding plays_def
  by (rule exI [of _ 1], rule exI [of _ example_lobby])
    (simp add: example_busy_def example_store_def example_lobby_def)

lemma example_busy_facts:
  "conn_table example_busy (OtherAddr, 10, 15) = Some example_conn" "ConnectionState example_conn = StateConnected"
  "pc_pid example_conn = 7" "pc_Algorithm example_conn = NewRC4Encryption"
  "GetIncomingFragmentBuffer example_conn 0 = []" "StateConnecting \<le> ConnectionState example_conn"
  by (simp_all add: example_busy_def example_conn_def NewPRUDPConnection_def GetIncomingFragmentBuffer_def
      word_le_nat_alt)

lemma example_gathering: "\<exists>s. sessions example_created 1 = Some s \<and> Participants s = [8]"
  by (rule example_created_facts) blast

text \<open>The first three packets of a console, from the start of the server.\<close>

lemma example_first_packets:
  assumes "ticket_for example_setup example_time payload (replicate 32 0) 8"
  shows "\<exists>st. (secure_step example_setup True)\<^sup>*\<^sup>* initial_state st \<and> gatherings st = example_created"
proof -
  let ?con = "example_packet ConnectPacket payload" and ?syn = "example_packet SynPacket []"
  have ticket: "ticket_for example_setup example_time (p_payload ?con) (replicate 32 0) 8"
    using assms by (simp add: example_incoming)
  have "conn_table initial_state (OtherAddr, 10, 15) = None" by (simp add: initial_state_def)
  from handshake [OF example_runs_secure example_incoming(1) [of _ "[]"] example_incoming(1) example_incoming(3) example_key(1)
      example_key(1) this ticket, where E = example_env and E' = example_env and t = example_time]
  obtain st1 st2 pc where two: "serve example_setup example_env example_time initial_state ?syn OtherAddr = Some st1"
    "serve example_setup example_env example_time st1 ?con OtherAddr = Some st2"
    "gatherings st1 = NewStore" "gatherings st2 = NewStore"
    "conn_table st2 (OtherAddr, 10, 15) = Some pc" "pc_pid pc = 8" "ConnectionState pc = StateConnected"
    "recv_state pc 0 = Some (NewPacketDispatchQueue, new_cipher (replicate 32 0), [])"
    by (auto simp: initial_state_def)
  from serve_data [OF example_incoming(2) two(5) example_key(2) example_one_packet two(8,7)]
  obtain st3 where three: "serve example_setup example_env example_time st2 (example_data (replicate 32 0)) OtherAddr = Some st3"
    "gatherings st3 = run_effect example_setup example_env (Received 8 example_call) NewStore"
    using two(4,6) by metis
  have "gatherings st3 = example_created"
    using three(2) run_request_effect [OF example_decoded(1,3)] example_decoded(2)
    by (simp add: example_created_def example_request_def)
  moreover have "same_players s s'" if "gatherings s = NewStore" for s s'
    using that by (simp add: same_players_def plays_def NewStore_def)
  moreover have "gatherings initial_state = NewStore" by (simp add: initial_state_def)
  ultimately have "secure_step example_setup True initial_state st1" "secure_step example_setup True st1 st2"
    "secure_step example_setup True st2 st3" "gatherings st3 = example_created"
    using two(3,4) by (auto intro: ss_packet [OF example_env_ok two(1)] ss_packet [OF example_env_ok two(2)]
        ss_packet [OF example_env_ok three(1)])
  then show ?thesis by (meson rtranclp.rtrancl_into_rtrancl rtranclp.rtrancl_refl)
qed

subsection \<open>Properties\<close>

text \<open>C9: a console's request reaches its handler. The SYN of a console that is not connected, the CONNECT with a
  ticket for a player, and a request in a reliable packet, encrypted under the session key of that ticket
  and numbered first, leave the gatherings exactly as the handler of the request does, called for that
  player, and the player is connected.\<close>

theorem request_reaches_handler:
  assumes "runs_secure c g h C"
    and "incoming C SynPacket syn" and "incoming C ConnectPacket con" and "single_stream con"
    and "incoming C DataPacket d" and "packet_key syn address = k" and "packet_key con address = k"
    and "packet_key d address = k" and "conn_table st k = None"
    and "ticket_for C t2 (p_payload con) sk p"
    and "one_packet d (new_cipher sk) m" and "m_IsRequest m" and "decode_request_of C m = Some (err, rq)"
  shows "\<exists>st1 st2 st3. serve C E t1 st syn address = Some st1 \<and> serve C E t2 st1 con address = Some st2 \<and>
    serve C E t3 st2 d address = Some st3 \<and>
    gatherings st3 = fst (handle E (gatherings st) p (m_CallID m) err rq) \<and> connected_as st3 p"
proof -
  obtain st1 st2 pc where two: "serve C E t1 st syn address = Some st1" "serve C E t2 st1 con address = Some st2"
    "gatherings st2 = gatherings st" "conn_table st2 = (conn_table st)(k \<mapsto> pc)" "pc_pid pc = p"
    "ConnectionState pc = StateConnected" "recv_state pc 0 = Some (NewPacketDispatchQueue, new_cipher sk, [])"
    using handshake [OF assms(1-4,6,7,9,10)] by blast
  have "conn_table st2 k = Some pc" by (simp add: two(4))
  from serve_data [OF assms(5) this assms(8,11) two(7,6)]
  obtain st3 pc' where "serve C E t3 st2 d address = Some st3" "conn_table st3 = (conn_table st2)(k \<mapsto> pc')"
    "pc_pid pc' = pc_pid pc" "gatherings st3 = run_effect C E (Received (pc_pid pc) m) (gatherings st2)" by blast
  moreover from this have "connected_as st3 p" using two(5) by (intro connected_asI [of _ k pc']) simp_all
  ultimately show ?thesis using two run_request_effect [OF assms(12,13)] by auto
qed

theorem request_reaches_handler_witness:
  "\<exists>payload st1 st2 st3 s.
     serve example_setup example_env example_time initial_state (example_packet SynPacket []) OtherAddr = Some st1 \<and>
     serve example_setup example_env example_time st1 (example_packet ConnectPacket payload) OtherAddr = Some st2 \<and>
     serve example_setup example_env example_time st2 (example_data (replicate 32 0)) OtherAddr = Some st3 \<and>
     sessions (gatherings st3) 1 = Some s \<and> Participants s = [8] \<and> connected_as st3 8"
proof -
  obtain payload where "ticket_for example_setup example_time payload (replicate 32 0) 8"
    using example_ticket [of 8] by (auto simp: narrow_pid_def)
  then have ticket: "ticket_for example_setup example_time (p_payload (example_packet ConnectPacket payload))
      (replicate 32 0) 8" by (simp add: example_incoming)
  have "conn_table initial_state (OtherAddr, 10, 15) = None" by (simp add: initial_state_def)
  from request_reaches_handler [OF example_runs_secure example_incoming(1) [of _ "[]"] example_incoming(1) example_incoming(3)
      example_incoming(2) example_key(1) example_key(1) example_key(2) this ticket example_one_packet example_decoded(1,3)]
  show ?thesis using example_gathering example_decoded(2)
    by (simp add: initial_state_def example_created_def example_request_def) metis
qed



text \<open>C12: a CONNECT on a connection in use, with a ticket of another player, gives the connection to that player at
  once. The end of the first player's connection is never announced, so it stays in its gathering without
  a connection that could ever take it out.\<close>

theorem reconnect_leaves_ghost:
  assumes "runs_secure c g h C"
    and "conn_table st k = Some pc" and "pc_pid pc = p" and "StateConnecting \<le> ConnectionState pc"
    and "\<forall>j pc'. conn_table st j = Some pc' \<longrightarrow> j \<noteq> k \<longrightarrow> pc_pid pc' \<noteq> p"
    and "plays (gatherings st) p"
    and "incoming C ConnectPacket con" and "single_stream con" and "packet_key con address = k"
    and "ticket_for C clock (p_payload con) sk q" and "q \<noteq> p"
  shows "\<exists>st'. serve C E clock st con address = Some st' \<and>
    plays (gatherings st') p \<and> \<not> connected_as st' p \<and> connected_as st' q"
proof -
  obtain st' pc' where st': "serve C E clock st con address = Some st'"
    "conn_table st' = (conn_table st)(k \<mapsto> pc')" "gatherings st' = gatherings st" "pc_pid pc' = q"
    using serve_connect [OF assms(1,7,8,2,9,4,10)] by blast
  have "\<not> connected_as st' p"
  proof
    assume "connected_as st' p"
    then obtain j c where j: "conn_table st' j = Some c" "pc_pid c = p" by (rule connected_asE)
    then have "j \<noteq> k" using st'(2,4) assms(11) by auto
    then show False using j st'(2) assms(5) by simp
  qed
  moreover have "connected_as st' q" using st'(2,4) by (intro connected_asI [of _ k pc']) simp_all
  ultimately show ?thesis using st'(1,3) assms(6) by metis
qed

theorem reconnect_leaves_ghost_witness:
  "\<exists>payload st'. serve example_setup example_env example_time example_busy
       (example_packet ConnectPacket payload) OtherAddr = Some st' \<and>
     plays (gatherings st') 7 \<and> \<not> connected_as st' 7 \<and> connected_as st' 5"
proof -
  obtain payload where "ticket_for example_setup example_time payload (replicate 32 0) 5"
    using example_ticket [of 5] by (auto simp: narrow_pid_def)
  then have ticket: "ticket_for example_setup example_time (p_payload (example_packet ConnectPacket payload))
      (replicate 32 0) 5" by (simp add: example_incoming)
  have only: "\<forall>j pc'. conn_table example_busy j = Some pc' \<longrightarrow> j \<noteq> (OtherAddr, 10, 15) \<longrightarrow> pc_pid pc' \<noteq> 7"
    by (auto simp: example_busy_def)
  have "(5 :: u64) \<noteq> 7" by simp
  from reconnect_leaves_ghost [OF example_runs_secure example_busy_facts(1,3,6) only example_plays
      example_incoming(1,3) example_key(1) ticket this]
  show ?thesis by blast
qed

text \<open>C11: a CONNECT with an empty payload, on a connection in use, replaces the session key by the key every
  connection starts with, and the connection stays connected. A packet encrypted under that key, which
  is in the source code, is then handled as a request of the connection's player: whoever can send from
  the player's address can act as the player.\<close>

theorem forged_request_accepted:
  assumes "runs_secure c g h C"
    and "conn_table st k = Some pc" and "ConnectionState pc = StateConnected"
    and "pc_Algorithm pc = NewRC4Encryption" and "GetIncomingFragmentBuffer pc 0 = []"
    and "incoming C ConnectPacket con" and "single_stream con" and "packet_key con address = k"
    and "p_payload con = []"
    and "incoming C DataPacket d" and "packet_key d address = k" and "one_packet d (new_cipher default_key) m"
    and "m_IsRequest m" and "decode_request_of C m = Some (err, rq)"
  shows "\<exists>st1 st2. serve C E t1 st con address = Some st1 \<and> serve C E t2 st1 d address = Some st2 \<and>
    gatherings st2 = fst (handle E (gatherings st) (pc_pid pc) (m_CallID m) err rq)"
proof -
  have "StateConnecting \<le> ConnectionState pc" by (simp add: assms(3) word_le_nat_alt)
  from refused_connect [OF assms(1,7,9) this assms(4)] obtain pc' where
    con: "handleConnectPacket C t1 pc con = Some (pc', [])" "identity_of pc' = identity_of pc"
      "recv_state pc' 0 = Some (NewPacketDispatchQueue, new_cipher default_key, [])"
    using assms(5) by auto
  have pc': "pc_pid pc' = pc_pid pc" "ConnectionState pc' = StateConnected"
    using con(2) assms(3) by (simp_all add: identity_of_eq)
  have "conn_table st (packet_key con address) = Some pc" using assms(2,8) by simp
  from serve_known(1) [OF assms(6) this refl con(1)] have
    one: "serve C E t1 st con address = Some (set_conn st k pc')" using assms(8) by simp
  have "conn_table (set_conn st k pc') k = Some pc'" by (simp add: set_conn_def)
  from serve_data [OF assms(10) this assms(11,12) con(3) pc'(2), where E = E and clock = t2] one
  show ?thesis using run_request_effect [OF assms(13,14)] pc'(1) by (auto simp: set_conn_def)
qed

theorem forged_request_accepted_witness:
  "\<exists>st1 st2. serve example_setup example_env example_time example_busy (example_packet ConnectPacket []) OtherAddr = Some st1 \<and>
     serve example_setup example_env example_time st1 (example_data default_key) OtherAddr = Some st2 \<and>
     gatherings st2 = fst (handle example_env example_store 7 0 None example_create)"
  using forged_request_accepted [OF example_runs_secure example_busy_facts(1,2,4,5) example_incoming(1,3)
      example_key(1) example_incoming(4) example_incoming(2) example_key(2) example_one_packet example_decoded(1,3)]
  by (simp add: example_busy_facts(3) example_decoded(2)) (simp add: example_busy_def)

text \<open>C14: no two connections of the table have the same ID before 2^32 steps, whatever arrives.\<close>

theorem connection_IDs_unique:
  assumes "ss_IsSecure C" and "(secure_step C K ^^ n) initial_state st" and "n < 2 ^ 32"
    and "conn_table st k = Some pc" and "conn_table st k' = Some pc'" and "pc_ID pc = pc_ID pc'"
  shows "k = k'"
proof -
  have "IDs_ok (ConnectionIDCounter st) (conn_table st)"
    using secure_run_IDs [OF assms(2,1,3)] by (simp add: IDs_within_def)
  from IDs_okD(2) [OF this assms(4-6)] show ?thesis .
qed

theorem connection_IDs_unique_witness:
  "\<exists>st pc pc'. conn_table st (OtherAddr, 10, 15) = Some pc \<and> conn_table st (UDPAddr [] 80, 10, 15) = Some pc' \<and>
     (secure_step example_setup False ^^ 2) initial_state st \<and> pc_ID pc \<noteq> pc_ID pc'"
proof -
  let ?syn = "example_packet SynPacket []"
  obtain st1 pc where one: "serve example_setup example_env example_time initial_state ?syn OtherAddr = Some st1"
    "conn_table st1 = (conn_table initial_state)((OtherAddr, 10, 15) \<mapsto> pc)"
    using serve_syn [OF example_incoming(1), of initial_state "[]" OtherAddr example_env example_time]
    by (auto simp: initial_state_def)
  have "conn_table st1 (packet_key ?syn (UDPAddr [] 80)) = None" using one(2) by (simp add: initial_state_def)
  then obtain st2 pc' where two: "serve example_setup example_env example_time st1 ?syn (UDPAddr [] 80) = Some st2"
    "conn_table st2 = (conn_table st1)((UDPAddr [] 80, 10, 15) \<mapsto> pc')"
    using serve_syn [OF example_incoming(1), of st1 "[]" "UDPAddr [] 80" example_env example_time] by auto
  have "secure_step example_setup False initial_state st1" "secure_step example_setup False st1 st2"
    by (rule ss_packet [OF example_env_ok one(1)], simp, rule ss_packet [OF example_env_ok two(1)], simp)
  then have "(secure_step example_setup False ^^ 2) initial_state st2"
    by (auto simp: numeral_2_eq_2 intro: relcomppI)
  moreover have "ss_IsSecure example_setup" by (simp add: example_setup_def)
  moreover have "conn_table st2 (OtherAddr, 10, 15) = Some pc" "conn_table st2 (UDPAddr [] 80, 10, 15) = Some pc'"
    using one(2) two(2) by simp_all
  moreover have "(2 :: nat) < 2 ^ 32" by simp
  ultimately show ?thesis using connection_IDs_unique [of example_setup 2 False st2] by blast
qed

text \<open>C16: the handler of an aggregate acknowledgement returns unless the packet is of the old form and its payload
  has an odd number of bytes; then it reads zeros for ever, holding the connection's lock.\<close>

theorem aggregate_ack_hangs_iff_odd:
  "handleMultiAcknowledgment ord pc packet = None \<longleftrightarrow>
   p_substreamID packet \<noteq> 1 \<and> p_version packet \<noteq> 2 \<and> odd (length (p_payload packet))"
proof -
  have "read_ids_to_end (p_payload packet) [] = None \<longleftrightarrow> odd (length (p_payload packet))"
    using ids_end_even [of "p_payload packet" "[]"] even_ids_end [of "p_payload packet" "[]"]
    by (metis not_None_eq option.distinct(1))
  then show ?thesis
    by (simp add: handleMultiAcknowledgment_def parse_multi_ack_def Let_def split: prod.split)
qed

end
