(* ===== verification/Wire.thy ===== *)
theory Wire
  imports Prudp
begin

text \<open>
  Packets as bytes (\<^verbatim>\<open>nex-go/prudp_packet_v0.go\<close>, \<^verbatim>\<open>prudp_packet_v1.go\<close>, \<^verbatim>\<open>virtual_port.go\<close>) and
  what a datagram holds (\<^verbatim>\<open>handleSocketMessage\<close> in \<^verbatim>\<open>prudp_server.go\<close>). The settings of version 0 are
  the defaults, which this program keeps: not Quazal mode, a checksum of one byte. \<^verbatim>\<open>PRUDPLite\<close> packets
  come over a websocket only, and this program opens none. The signature of a received packet is
  stored and never looked at.
\<close>

subsection \<open>Virtual ports\<close>

definition set_port_type :: "u8 \<Rightarrow> u8 \<Rightarrow> u8" where
  "set_port_type streamType vp = (vp AND 0x0F) OR push_bit 4 streamType"

definition set_port_id :: "u8 \<Rightarrow> u8 \<Rightarrow> u8" where
  "set_port_id streamID vp = (vp AND 0xF0) OR (streamID AND 0x0F)"

definition port_StreamType :: "u8 \<Rightarrow> u8" where "port_StreamType vp = drop_bit 4 vp"

definition port_StreamID :: "u8 \<Rightarrow> u8" where "port_StreamID vp = vp AND 0xF"

definition virtual_port :: "u8 \<Rightarrow> u8 \<Rightarrow> u8" where
  "virtual_port streamType streamID = set_port_id streamID (set_port_type streamType 0)"

text \<open>The type and the flags share sixteen bits.\<close>

definition type_and_flags :: "prudp_packet \<Rightarrow> u16" where
  "type_and_flags p = p_type p OR push_bit 4 (p_flags p)"

definition set_type_and_flags :: "u16 \<Rightarrow> prudp_packet \<Rightarrow> prudp_packet" where
  "set_type_and_flags x p = p\<lparr>p_flags := drop_bit 4 x, p_type := x AND 0xF\<rparr>"

definition set_ports :: "u8 \<Rightarrow> u8 \<Rightarrow> prudp_packet \<Rightarrow> prudp_packet" where
  "set_ports source destination p =
     p\<lparr>p_sourceType := port_StreamType source, p_sourceID := port_StreamID source,
       p_destinationType := port_StreamType destination, p_destinationID := port_StreamID destination\<rparr>"

definition source_port :: "prudp_packet \<Rightarrow> u8" where
  "source_port p = virtual_port (p_sourceType p) (p_sourceID p)"

definition destination_port :: "prudp_packet \<Rightarrow> u8" where
  "destination_port p = virtual_port (p_destinationType p) (p_destinationID p)"

text \<open>\<^verbatim>\<open>sum\<close> adds bytes in 32 bits.\<close>

definition sum_bytes :: "bytes \<Rightarrow> u32" where "sum_bytes data = sum_list (map ucast data)"

subsection \<open>Version 1\<close>

definition encode_options :: "prudp_packet \<Rightarrow> bytes" where
  "encode_options p =
     (if p_type p = SynPacket \<or> p_type p = ConnectPacket then
        [0, 4] @ le_bytes 4 (unat (p_MinorVersion p OR push_bit 8 (p_SupportedFunctions p))) @
        [1, 16] @ p_connectionSignature p @
        (if p_type p = ConnectPacket then [3, 2] @ le_bytes 2 (unat (p_InitialUnreliableSequenceID p)) else []) @
        [4, 1, p_MaximumSubstreamID p]
      else []) @
     (if p_type p = DataPacket then [2, 1, p_fragmentID p] else [])"

definition encode_header :: "u8 \<Rightarrow> prudp_packet \<Rightarrow> bytes" where
  "encode_header optionsLength p =
     [1, optionsLength] @ le_bytes 2 (length (p_payload p) mod 65536) @ [source_port p, destination_port p] @
     le_bytes 2 (unat (type_and_flags p)) @ [p_sessionID p, p_substreamID p] @ le_bytes 2 (unat (p_sequenceID p))"

definition BytesV1 :: "prudp_packet \<Rightarrow> bytes" where
  "BytesV1 p =
     (let options = encode_options p
      in [0xEA, 0xD0] @ encode_header (of_nat (length options)) p @ p_signature p @ options @ p_payload p)"

text \<open>One option: its ID and its size, which is skipped, and the data the ID asks for. An ID that means nothing
  for the type of the packet has no data: what follows it is read as the next option.\<close>

definition decode_option :: "u8 \<Rightarrow> prudp_packet \<Rightarrow> bytes \<Rightarrow> (prudp_packet \<times> bytes) option" where
  "decode_option optionID p r =
     (if p_type p = SynPacket \<or> p_type p = ConnectPacket then
        (if optionID = 0 then
           map_option (\<lambda>(v, r). (p\<lparr>p_SupportedFunctions := drop_bit 8 v, p_MinorVersion := v AND 0xFF\<rparr>, r)) (read_u32 r)
         else if optionID = 1 then
           map_option (\<lambda>(signature, r). (p\<lparr>p_connectionSignature := signature\<rparr>, r)) (read_bytes 16 r)
         else if optionID = 4 then
           map_option (\<lambda>(n, r). (p\<lparr>p_MaximumSubstreamID := n\<rparr>, r)) (read_u8 r)
         else if p_type p = ConnectPacket \<and> optionID = 3 then
           map_option (\<lambda>(n, r). (p\<lparr>p_InitialUnreliableSequenceID := n\<rparr>, r)) (read_u16 r)
         else Some (p, r))
      else if p_type p = DataPacket \<and> optionID = 2 then
        map_option (\<lambda>(n, r). (p\<lparr>p_fragmentID := n\<rparr>, r)) (read_u8 r)
      else Some (p, r))"

lemma read_shrinks:
  "read_u8 bs = Some (x, r) \<Longrightarrow> length r < length bs" "read_u16 bs = Some (y, r) \<Longrightarrow> length r < length bs"
  "read_u32 bs = Some (z, r) \<Longrightarrow> length r < length bs" "read_bytes n bs = Some (b, r) \<Longrightarrow> length r \<le> length bs"
  by (auto simp: read_u8_def read_u16_def read_u32_def read_le_def read_bytes_def split: list.splits if_splits)

lemma decode_option_shrinks: "decode_option i p bs = Some (q, r) \<Longrightarrow> length r \<le> length bs"
  by (auto simp: decode_option_def split: if_splits dest!: read_shrinks)

function decode_options :: "bytes \<Rightarrow> prudp_packet \<Rightarrow> prudp_packet option" where
  "decode_options [] p = Some p"
| "decode_options (optionID # r) p =
     (case r of
        [] \<Rightarrow> None
      | _ # r \<Rightarrow>
          (case decode_option optionID p r of
             None \<Rightarrow> None
           | Some (p, r) \<Rightarrow> decode_options r p))"
  by pat_completeness auto
termination
  by (relation "measure (\<lambda>(bs, _). length bs)") (auto dest: decode_option_shrinks)

definition decode_headerV1 :: "bytes \<Rightarrow> prudp_packet \<Rightarrow> (u8 \<times> u16 \<times> prudp_packet \<times> bytes) option" where
  "decode_headerV1 bs p =
     (if length bs < 12 then None
      else
        Option.bind (read_u8 bs) (\<lambda>(version, r).
        if version \<noteq> 1 then None
        else
          Option.bind (read_u8 r) (\<lambda>(optionsLength, r).
          Option.bind (read_u16 r) (\<lambda>(payloadLength, r).
          Option.bind (read_u8 r) (\<lambda>(source, r).
          Option.bind (read_u8 r) (\<lambda>(destination, r).
          Option.bind (read_u16 r) (\<lambda>(typeAndFlags, r).
          Option.bind (read_u8 r) (\<lambda>(sessionID, r).
          Option.bind (read_u8 r) (\<lambda>(substreamID, r).
          map_option (\<lambda>(sequenceID, r).
            (optionsLength, payloadLength,
             (set_type_and_flags typeAndFlags (set_ports source destination p))\<lparr>
               p_sessionID := sessionID, p_substreamID := substreamID, p_sequenceID := sequenceID\<rparr>, r))
            (read_u16 r))))))))))"

text \<open>The packet and the rest of the datagram.\<close>

definition decodeV1 :: "bytes \<Rightarrow> (prudp_packet \<times> bytes) option" where
  "decodeV1 bs =
     Option.bind (read_bytes 2 bs) (\<lambda>(magic, r).
     if magic \<noteq> [0xEA, 0xD0] then None
     else
       Option.bind (decode_headerV1 r (NewPacket 1)) (\<lambda>(optionsLength, payloadLength, p, r).
       Option.bind (read_bytes 16 r) (\<lambda>(signature, r).
       Option.bind (read_bytes (unat optionsLength) r) (\<lambda>(options, r).
       Option.bind (decode_options options (p\<lparr>p_signature := signature\<rparr>)) (\<lambda>p.
       map_option (\<lambda>(payload, r). (p\<lparr>p_payload := payload\<rparr>, r)) (read_bytes (unat payloadLength) r))))))"

subsection \<open>Version 0\<close>

text \<open>The checksum: the 32-bit words of the packet as written, the bytes after the last whole word, and the
  access key.\<close>

definition checksumV0 :: "bytes \<Rightarrow> bytes \<Rightarrow> u8" where
  "checksumV0 accessKey data =
     (let words = map (\<lambda>i. of_nat (of_le (take 4 (drop (4 * i) data))) :: u32) [0..<length data div 4];
          temp = sum_list words;
          checksum = sum_bytes accessKey + sum_bytes (drop (length data - length data mod 4) data) +
            sum_bytes (le_bytes 4 (unat temp))
      in ucast (checksum AND 0xFF))"

definition bodyV0 :: "prudp_packet \<Rightarrow> bytes" where
  "bodyV0 p =
     [source_port p, destination_port p] @ le_bytes 2 (unat (type_and_flags p)) @ [p_sessionID p] @ p_signature p @
     le_bytes 2 (unat (p_sequenceID p)) @
     (if p_type p = SynPacket \<or> p_type p = ConnectPacket then p_connectionSignature p else []) @
     (if p_type p = DataPacket then [p_fragmentID p] else []) @
     (if has_flag p FlagHasSize then le_bytes 2 (length (p_payload p) mod 65536) else []) @
     p_payload p"

definition BytesV0 :: "bytes \<Rightarrow> prudp_packet \<Rightarrow> bytes" where
  "BytesV0 accessKey p = (let body = bodyV0 p in body @ [checksumV0 accessKey body])"

definition decode_headV0 :: "bytes \<Rightarrow> (prudp_packet \<times> bytes) option" where
  "decode_headV0 bs =
     (if length bs < 12 then None
      else
        Option.bind (read_u8 bs) (\<lambda>(source, r).
        Option.bind (read_u8 r) (\<lambda>(destination, r).
        Option.bind (read_u16 r) (\<lambda>(typeAndFlags, r).
        Option.bind (read_u8 r) (\<lambda>(sessionID, r).
        Option.bind (read_bytes 4 r) (\<lambda>(signature, r).
        map_option (\<lambda>(sequenceID, r).
          ((set_type_and_flags typeAndFlags (set_ports source destination (NewPacket 0)))\<lparr>
             p_sessionID := sessionID, p_signature := signature, p_sequenceID := sequenceID\<rparr>, r))
          (read_u16 r)))))))"

text \<open>The size of the payload: written, or all that remains but the checksum, in sixteen bits.\<close>

definition payload_size :: "prudp_packet \<Rightarrow> bytes \<Rightarrow> (u16 \<times> bytes) option" where
  "payload_size p r =
     (if has_flag p FlagHasSize then read_u16 r else Some (of_nat (length r) - 1, r))"

definition decodeV0 :: "bytes \<Rightarrow> bytes \<Rightarrow> (prudp_packet \<times> bytes) option" where
  "decodeV0 accessKey bs =
     Option.bind (decode_headV0 bs) (\<lambda>(p, r).
     Option.bind (if p_type p = SynPacket \<or> p_type p = ConnectPacket
                  then map_option (\<lambda>(signature, r). (p\<lparr>p_connectionSignature := signature\<rparr>, r)) (read_bytes 4 r)
                  else Some (p, r)) (\<lambda>(p, r).
     Option.bind (if p_type p = DataPacket
                  then map_option (\<lambda>(n, r). (p\<lparr>p_fragmentID := n\<rparr>, r)) (read_u8 r)
                  else Some (p, r)) (\<lambda>(p, r).
     Option.bind (payload_size p r) (\<lambda>(payloadSize, r).
     Option.bind (read_bytes (unat payloadSize) r) (\<lambda>(payload, r).
     Option.bind (read_u8 r) (\<lambda>(checksum, r').
     if checksum = checksumV0 accessKey (take (length bs - length r) bs)
     then Some (p\<lparr>p_payload := payload\<rparr>, r') else None))))))"

subsection \<open>Datagrams\<close>

text \<open>Packets are read until one does not decode; those before it are kept. A packet that decodes has consumed
  something, so the comparison of the lengths never fails.\<close>

lemma bind_SomeE:
  assumes "Option.bind m f = Some y"
  obtains x where "m = Some x" "f x = Some y"
  using assms by (cases m) auto

lemma headerV1_shrinks: "decode_headerV1 bs p = Some (a, b, q, r) \<Longrightarrow> length r < length bs"
  unfolding decode_headerV1_def
  by (clarsimp split: if_splits elim!: bind_SomeE dest!: read_shrinks)

lemma headV0_shrinks: "decode_headV0 bs = Some (q, r) \<Longrightarrow> length r < length bs"
  unfolding decode_headV0_def
  by (clarsimp split: if_splits elim!: bind_SomeE dest!: read_shrinks)

lemma decodeV1_shrinks: "decodeV1 bs = Some (p, r) \<Longrightarrow> length r < length bs"
  unfolding decodeV1_def
  by (clarsimp split: if_splits elim!: bind_SomeE dest!: read_shrinks headerV1_shrinks)

lemma decodeV0_shrinks: "decodeV0 key bs = Some (p, r) \<Longrightarrow> length r < length bs"
  unfolding decodeV0_def payload_size_def
  by (clarsimp split: if_splits elim!: bind_SomeE dest!: read_shrinks headV0_shrinks)

function packets_of :: "(bytes \<Rightarrow> ('a \<times> bytes) option) \<Rightarrow> bytes \<Rightarrow> 'a list" where
  "packets_of dec bs =
     (if bs = [] then []
      else
        (case dec bs of
           None \<Rightarrow> []
         | Some (p, r) \<Rightarrow> if length r < length bs then p # packets_of dec r else []))"
  by auto
termination
  by (relation "measure (\<lambda>(_, bs). length bs)") auto

definition handleSocketMessage :: "bytes \<Rightarrow> bytes \<Rightarrow> prudp_packet list" where
  "handleSocketMessage accessKey packetData =
     (if length packetData < 2 then []
      else if take 2 packetData = [0xEA, 0xD0] then packets_of decodeV1 packetData
      else packets_of (decodeV0 accessKey) packetData)"

subsection \<open>Signatures\<close>

record wire_settings =
  ws_AccessKey :: bytes
  V0LegacyConnectionSignature :: bool
  V1LegacyConnectionSignature :: bool

definition CalculateSignatureV1 :: "wire_settings \<Rightarrow> prudp_packet \<Rightarrow> bytes \<Rightarrow> bytes \<Rightarrow> bytes" where
  "CalculateSignatureV1 W p sessionKey connectionSignature =
     (let connectionSignature =
            (if p_type p = ConnectPacket \<and> V1LegacyConnectionSignature W then [] else connectionSignature)
      in HMAC_MD5 (md5 (ws_AccessKey W))
           (drop 4 (encode_header 0 p) @ sessionKey @ le_bytes 4 (unat (sum_bytes (ws_AccessKey W))) @
            connectionSignature @ encode_options p @ p_payload p))"

definition data_signatureV0 :: "wire_settings \<Rightarrow> prudp_packet \<Rightarrow> bytes \<Rightarrow> bytes" where
  "data_signatureV0 W p sessionKey =
     (let data = (if ws_AccessKey W \<noteq> bytes_of_string ''ridfebb9''
                  then sessionKey @ le_bytes 2 (unat (p_sequenceID p)) @ [p_fragmentID p] @ p_payload p
                  else p_payload p)
      in if data \<noteq> [] then take 4 (HMAC_MD5 (md5 (ws_AccessKey W)) data) else [0x78, 0x56, 0x34, 0x12])"

definition CalculateSignatureV0 :: "wire_settings \<Rightarrow> prudp_packet \<Rightarrow> bytes \<Rightarrow> bytes \<Rightarrow> bytes" where
  "CalculateSignatureV0 W p sessionKey connectionSignature =
     (if \<not> V0LegacyConnectionSignature W \<and>
         (p_type p = DataPacket \<or> p_type p = DisconnectPacket \<and> ws_AccessKey W \<noteq> bytes_of_string ''ridfebb9'')
      then data_signatureV0 W p sessionKey
      else if connectionSignature \<noteq> [] then connectionSignature
      else [0, 0, 0, 0])"

text \<open>The end of \<^verbatim>\<open>sendPacket\<close>: the packet is signed and its bytes leave.\<close>

definition sign :: "wire_settings \<Rightarrow> prudp_connection \<Rightarrow> prudp_packet \<Rightarrow> prudp_packet" where
  "sign W pc p =
     (let connectionSignature = (if V1LegacyConnectionSignature W then Signature pc else ServerConnectionSignature pc)
      in p\<lparr>p_signature :=
            (if p_version p = 1 then CalculateSignatureV1 W p (pc_SessionKey pc) connectionSignature
             else CalculateSignatureV0 W p (pc_SessionKey pc) connectionSignature)\<rparr>)"

definition wire_bytes :: "wire_settings \<Rightarrow> prudp_connection \<Rightarrow> prudp_packet \<Rightarrow> bytes" where
  "wire_bytes W pc p =
     (if p_version p = 1 then BytesV1 (sign W pc p) else BytesV0 (ws_AccessKey W) (sign W pc p))"

subsection \<open>Round trips\<close>

text \<open>The packets a version can carry: its fields fit, and what it does not write is as in a new packet.\<close>

definition fits :: "prudp_packet \<Rightarrow> bool" where
  "fits p \<longleftrightarrow>
     take_bit 4 (p_type p) = p_type p \<and> take_bit 12 (p_flags p) = p_flags p \<and>
     take_bit 4 (p_sourceType p) = p_sourceType p \<and> take_bit 4 (p_sourceID p) = p_sourceID p \<and>
     take_bit 4 (p_destinationType p) = p_destinationType p \<and> take_bit 4 (p_destinationID p) = p_destinationID p \<and>
     length (p_payload p) < 65536 \<and> p_sendCount p = 0"

definition starts :: "prudp_packet \<Rightarrow> bool" where
  "starts p \<longleftrightarrow> p_type p = SynPacket \<or> p_type p = ConnectPacket"

definition carriedV1 :: "prudp_packet \<Rightarrow> bool" where
  "carriedV1 p \<longleftrightarrow> fits p \<and> p_version p = 1 \<and>
     (if starts p
      then length (p_connectionSignature p) = 16 \<and> take_bit 8 (p_MinorVersion p) = p_MinorVersion p \<and>
        take_bit 24 (p_SupportedFunctions p) = p_SupportedFunctions p
      else p_connectionSignature p = [] \<and> p_MinorVersion p = 0 \<and> p_SupportedFunctions p = 0 \<and>
        p_MaximumSubstreamID p = 0) \<and>
     (p_type p \<noteq> ConnectPacket \<longrightarrow> p_InitialUnreliableSequenceID p = 0) \<and>
     (p_type p \<noteq> DataPacket \<longrightarrow> p_fragmentID p = 0)"

definition carriedV0 :: "prudp_packet \<Rightarrow> bool" where
  "carriedV0 p \<longleftrightarrow> fits p \<and> p_version p = 0 \<and> has_flag p FlagHasSize \<and>
     (if starts p then length (p_connectionSignature p) = 4 else p_connectionSignature p = []) \<and>
     (p_type p \<noteq> DataPacket \<longrightarrow> p_fragmentID p = 0) \<and> p_substreamID p = 0 \<and> p_MinorVersion p = 0 \<and>
     p_SupportedFunctions p = 0 \<and> p_MaximumSubstreamID p = 0 \<and> p_InitialUnreliableSequenceID p = 0"

lemma read_u8_Cons [simp]: "read_u8 (b # r) = Some (b, r)"
  by (simp add: read_u8_def)

lemma read_u16_le [simp]: "n < 65536 \<Longrightarrow> read_u16 (le_bytes 2 n @ r) = Some (of_nat n, r)"
  by (simp add: read_u16_def read_le_append)

lemma read_u16_word [simp]: "read_u16 (le_bytes 2 (unat x) @ r) = Some (x, r)" for x :: u16
  by (simp add: u16_codec.dec_enc)

lemma read_u32_word [simp]: "read_u32 (le_bytes 4 (unat x) @ r) = Some (x, r)" for x :: u32
  by (simp add: u32_codec.dec_enc)

lemma read_bytes_exact: "length x = n \<Longrightarrow> read_bytes n (x @ r) = Some (x, r)"
  by (simp add: read_bytes_def)

lemma nibble: "(0xF :: 'a :: len word) = mask 4" "(0xF0 :: u8) = push_bit 4 (mask 4)"
  by (simp_all add: mask_eq_exp_minus_1)

lemma take_bit_bound: "take_bit n x = x \<Longrightarrow> bit x k \<Longrightarrow> k < n" for x :: "'a :: len word"
  by (metis bit_take_bit_iff)

lemma virtual_port_parts:
  assumes "take_bit 4 t = t" and "take_bit 4 i = i"
  shows "port_StreamType (virtual_port t i) = t" and "port_StreamID (virtual_port t i) = i"
  unfolding virtual_port_def set_port_id_def set_port_type_def port_StreamType_def port_StreamID_def nibble
  by (rule bit_word_eqI; use assms in \<open>auto simp: bit_simps dest: take_bit_bound\<close>)+

lemma type_and_flags_parts:
  assumes "take_bit 4 (p_type p) = p_type p" and "take_bit 12 (p_flags p) = p_flags p"
  shows "drop_bit 4 (type_and_flags p) = p_flags p" and "type_and_flags p AND 0xF = p_type p"
  unfolding type_and_flags_def nibble
  by (rule bit_word_eqI; use assms in \<open>auto simp: bit_simps dest: take_bit_bound\<close>)+

lemma functions_parts:
  assumes "take_bit 8 m = m" and "take_bit 24 f = f"
  shows "drop_bit 8 (m OR push_bit 8 f :: u32) = f" and "(m OR push_bit 8 f) AND 0xFF = m"
proof -
  have low: "(0xFF :: u32) = mask 8" by (simp add: mask_eq_exp_minus_1)
  show "drop_bit 8 (m OR push_bit 8 f :: u32) = f" "(m OR push_bit 8 f) AND 0xFF = m"
    unfolding low by (rule bit_word_eqI; use assms in \<open>auto simp: bit_simps dest: take_bit_bound\<close>)+
qed

lemma options_start:
  assumes "carriedV1 q" and "starts q" and "p_type p = p_type q"
  shows "decode_options (encode_options q) p =
    Some (p\<lparr>p_SupportedFunctions := p_SupportedFunctions q, p_MinorVersion := p_MinorVersion q,
      p_connectionSignature := p_connectionSignature q,
      p_InitialUnreliableSequenceID :=
        (if p_type q = ConnectPacket then p_InitialUnreliableSequenceID q else p_InitialUnreliableSequenceID p),
      p_MaximumSubstreamID := p_MaximumSubstreamID q\<rparr>)"
proof -
  have sig: "read_bytes 16 (p_connectionSignature q @ r) = Some (p_connectionSignature q, r)" for r
    using assms(1,2) by (simp add: carriedV1_def read_bytes_exact)
  have fun_parts: "drop_bit 8 (p_MinorVersion q OR push_bit 8 (p_SupportedFunctions q)) = p_SupportedFunctions q"
    "(p_MinorVersion q OR push_bit 8 (p_SupportedFunctions q)) AND 0xFF = p_MinorVersion q"
    using functions_parts assms(1,2) by (simp_all add: carriedV1_def)
  note fun_parts' = fun_parts(1) [simplified]
  from assms(2) consider "p_type q = SynPacket" | "p_type q = ConnectPacket" by (auto simp: starts_def)
  then show ?thesis
    by cases (use assms(3) in \<open>simp_all add: encode_options_def decode_option_def sig fun_parts(2) fun_parts'\<close>)
qed

lemma options_data:
  "p_type q = DataPacket \<Longrightarrow> p_type p = p_type q \<Longrightarrow>
   decode_options (encode_options q) p = Some (p\<lparr>p_fragmentID := p_fragmentID q\<rparr>)"
  by (simp add: encode_options_def decode_option_def)

lemma options_other:
  "\<not> starts q \<Longrightarrow> p_type q \<noteq> DataPacket \<Longrightarrow> decode_options (encode_options q) p = Some p"
  by (simp add: encode_options_def starts_def)

lemma length_options: "carriedV1 q \<Longrightarrow> length (encode_options q) < 256"
  by (simp add: encode_options_def carriedV1_def starts_def)

lemma header_roundtrip:
  assumes "fits q"
  shows "decode_headerV1 (encode_header n q @ r) p =
    Some (n, of_nat (length (p_payload q)),
      p\<lparr>p_sourceType := p_sourceType q, p_sourceID := p_sourceID q, p_destinationType := p_destinationType q,
        p_destinationID := p_destinationID q, p_flags := p_flags q, p_type := p_type q,
        p_sessionID := p_sessionID q, p_substreamID := p_substreamID q, p_sequenceID := p_sequenceID q\<rparr>, r)"
proof -
  have f: "take_bit 4 (p_type q) = p_type q" "take_bit 12 (p_flags q) = p_flags q"
    "take_bit 4 (p_sourceType q) = p_sourceType q" "take_bit 4 (p_sourceID q) = p_sourceID q"
    "take_bit 4 (p_destinationType q) = p_destinationType q" "take_bit 4 (p_destinationID q) = p_destinationID q"
    "length (p_payload q) < 65536"
    using assms by (simp_all add: fits_def)
  have len: "\<not> length (encode_header n q @ r) < 12" by (simp add: encode_header_def)
  show ?thesis
    unfolding decode_headerV1_def if_not_P [OF len]
    by (simp add: encode_header_def source_port_def destination_port_def virtual_port_parts f
        type_and_flags_parts set_ports_def set_type_and_flags_def)
qed

lemma decodeV1_Bytes:
  assumes "carriedV1 q" and "length (p_signature q) = 16"
  shows "decodeV1 (BytesV1 q @ r) = Some (q, r)"
proof -
  let ?n = "of_nat (length (encode_options q)) :: u8"
  let ?p = "(NewPacket 1)\<lparr>p_sourceType := p_sourceType q, p_sourceID := p_sourceID q,
    p_destinationType := p_destinationType q, p_destinationID := p_destinationID q, p_flags := p_flags q,
    p_type := p_type q, p_sessionID := p_sessionID q, p_substreamID := p_substreamID q,
    p_sequenceID := p_sequenceID q, p_signature := p_signature q\<rparr>"
  have fits: "fits q" using assms(1) by (simp add: carriedV1_def)
  then have "length (p_payload q) < 65536" by (simp add: fits_def)
  then have sizes: "unat ?n = length (encode_options q)" "unat (of_nat (length (p_payload q)) :: u16) = length (p_payload q)"
    using length_options [OF assms(1)] by (simp_all add: unat_of_nat)
  have opts: "map_option (p_payload_update (\<lambda>_. p_payload q)) (decode_options (encode_options q) ?p) = Some q"
  proof -
    consider "starts q" | "p_type q = DataPacket" | "\<not> starts q" "p_type q \<noteq> DataPacket" by blast
    then show ?thesis
    proof cases
      case 1
      have "p_type ?p = p_type q" by simp
      from options_start [OF assms(1) 1 this] show ?thesis
        using assms(1) 1 fits by (cases q) (auto simp: carriedV1_def fits_def NewPacket_def starts_def)
    next
      case 2
      have "p_type ?p = p_type q" by simp
      from options_data [OF 2 this] show ?thesis
        using assms(1) 2 fits by (cases q) (auto simp: carriedV1_def fits_def NewPacket_def starts_def)
    next
      case 3
      from options_other [OF this, of ?p] show ?thesis
        using assms(1) 3 fits by (cases q) (auto simp: carriedV1_def fits_def NewPacket_def starts_def)
    qed
  qed
  then obtain p where p: "decode_options (encode_options q) ?p = Some p" "p\<lparr>p_payload := p_payload q\<rparr> = q"
    by auto
  have magic: "read_bytes 2 (0xEA # 0xD0 # xs) = Some ([0xEA, 0xD0], xs)" for xs :: bytes
    by (simp add: read_bytes_def)
  show ?thesis
    using assms(2) p sizes
    by (simp add: decodeV1_def BytesV1_def Let_def magic header_roundtrip [OF fits] read_bytes_exact)
qed

interpretation packetV1: codec BytesV1 decodeV1 "\<lambda>q. carriedV1 q \<and> length (p_signature q) = 16"
  by unfold_locales (simp add: decodeV1_Bytes)

lemma decodeV0_Bytes:
  assumes "carriedV0 q" and "length (p_signature q) = 4"
  shows "decodeV0 key (BytesV0 key q @ r) = Some (q, r)"
proof -
  let ?body = "bodyV0 q" and ?sum = "checksumV0 key (bodyV0 q)"
  have q: "take_bit 4 (p_type q) = p_type q" "take_bit 12 (p_flags q) = p_flags q"
    "take_bit 4 (p_sourceType q) = p_sourceType q" "take_bit 4 (p_sourceID q) = p_sourceID q"
    "take_bit 4 (p_destinationType q) = p_destinationType q" "take_bit 4 (p_destinationID q) = p_destinationID q"
    "length (p_payload q) < 65536" "has_flag q FlagHasSize"
    using assms(1) by (simp_all add: carriedV0_def fits_def)
  let ?p = "(NewPacket 0)\<lparr>p_sourceType := p_sourceType q, p_sourceID := p_sourceID q,
    p_destinationType := p_destinationType q, p_destinationID := p_destinationID q, p_flags := p_flags q,
    p_type := p_type q, p_sessionID := p_sessionID q, p_signature := p_signature q, p_sequenceID := p_sequenceID q\<rparr>"
  let ?tail = "(if p_type q = SynPacket \<or> p_type q = ConnectPacket then p_connectionSignature q else []) @
     (if p_type q = DataPacket then [p_fragmentID q] else []) @
     le_bytes 2 (length (p_payload q)) @ p_payload q @ ?sum # r"
  have bytes: "BytesV0 key q @ r = [source_port q, destination_port q] @ le_bytes 2 (unat (type_and_flags q)) @
      [p_sessionID q] @ p_signature q @ le_bytes 2 (unat (p_sequenceID q)) @ ?tail"
    using q(7,8) by (simp add: BytesV0_def bodyV0_def Let_def)
  have long: "\<not> length (BytesV0 key q @ r) < 12" unfolding bytes using assms(2) by simp
  have head: "decode_headV0 (BytesV0 key q @ r) = Some (?p, ?tail)"
    unfolding decode_headV0_def if_not_P [OF long] unfolding bytes
    using assms(2) by (simp add: read_bytes_exact virtual_port_parts q type_and_flags_parts source_port_def
        destination_port_def set_ports_def set_type_and_flags_def)
  have size: "unat (of_nat (length (p_payload q)) :: u16) = length (p_payload q)" using q(7) by (simp add: unat_of_nat)
  have whole: "take (length (BytesV0 key q) - Suc 0) (BytesV0 key q) = ?body"
    by (simp add: BytesV0_def Let_def)
  have flag: "p_flags x = p_flags q \<Longrightarrow> has_flag x FlagHasSize" for x
    using q(8) by (simp add: has_flag_def)
  have read: "read_bytes (length (p_payload q)) (p_payload q @ xs) = Some (p_payload q, xs)" for xs
    by (simp add: read_bytes_exact)
  consider "starts q" | "p_type q = DataPacket" | "\<not> starts q" "p_type q \<noteq> DataPacket" by blast
  then show ?thesis
  proof cases
    case 1
    then have t: "p_type q = SynPacket \<or> p_type q = ConnectPacket" "p_type q \<noteq> DataPacket"
      by (auto simp: starts_def)
    have "read_bytes 4 (p_connectionSignature q @ xs) = Some (p_connectionSignature q, xs)" for xs
      using assms(1) 1 by (simp add: carriedV0_def read_bytes_exact)
    moreover have "?p\<lparr>p_connectionSignature := p_connectionSignature q, p_payload := p_payload q\<rparr> = q"
      using assms(1) 1 t by (cases q) (auto simp: carriedV0_def fits_def NewPacket_def)
    ultimately show ?thesis
      using t q(7,8) by (simp add: decodeV0_def head payload_size_def flag size read whole)
  next
    case 2
    have "?p\<lparr>p_fragmentID := p_fragmentID q, p_payload := p_payload q\<rparr> = q"
      using assms(1) 2 by (cases q) (auto simp: carriedV0_def fits_def NewPacket_def starts_def)
    then show ?thesis
      using 2 q(7,8) by (simp add: decodeV0_def head payload_size_def flag size read whole)
  next
    case 3
    have "?p\<lparr>p_payload := p_payload q\<rparr> = q"
      using assms(1) 3 by (cases q) (auto simp: carriedV0_def fits_def NewPacket_def)
    then show ?thesis
      using 3 q(7,8) by (simp add: decodeV0_def head payload_size_def flag size read whole starts_def)
  qed
qed

interpretation packetV0: codec "BytesV0 key" "decodeV0 key" "\<lambda>q. carriedV0 q \<and> length (p_signature q) = 4" for key
  by unfold_locales (simp add: decodeV0_Bytes)

context codec begin

lemma packets_of_concat:
  assumes "\<forall>x \<in> set xs. ok x \<and> enc x \<noteq> []"
  shows "packets_of dec (concat (map enc xs) @ rest) = xs @ packets_of dec rest"
  using assms
proof (induction xs)
  case (Cons x xs)
  then have "enc x @ concat (map enc xs) @ rest \<noteq> []"
    "dec (enc x @ concat (map enc xs) @ rest) = Some (x, concat (map enc xs) @ rest)" by (simp_all add: dec_enc)
  with Cons show ?case by (subst packets_of.simps) simp
qed simp

end

declare packets_of.simps [simp del]

text \<open>No player's port starts a packet of version 0 like one of version 1: stream type 14 does not exist.\<close>

definition packet_bytes :: "bytes \<Rightarrow> prudp_packet \<Rightarrow> bytes" where
  "packet_bytes accessKey p = (if p_version p = 1 then BytesV1 p else BytesV0 accessKey p)"

definition carried :: "prudp_packet \<Rightarrow> bool" where
  "carried p \<longleftrightarrow>
     (if p_version p = 1 then carriedV1 p \<and> length (p_signature p) = 16
      else carriedV0 p \<and> length (p_signature p) = 4 \<and> p_sourceType p \<le> 11)"

definition decoder :: "bytes \<Rightarrow> nat \<Rightarrow> bytes \<Rightarrow> (prudp_packet \<times> bytes) option" where
  "decoder accessKey version = (if version = 1 then decodeV1 else decodeV0 accessKey)"

lemma port_not_magic:
  assumes "take_bit 4 t = t" and "take_bit 4 i = i" and "t \<le> 11"
  shows "virtual_port t i \<noteq> 0xEA"
proof
  assume "virtual_port t i = 0xEA"
  then have "t = port_StreamType 0xEA" using virtual_port_parts(1) [OF assms(1,2)] by simp
  also have "\<dots> = 14" by (simp add: port_StreamType_def)
  finally show False using assms(3) by (simp add: word_le_nat_alt)
qed

lemma datagram_V1:
  assumes "\<forall>p \<in> set ps. carried p \<and> p_version p = 1" and "ps \<noteq> []"
  shows "handleSocketMessage key (concat (map (packet_bytes key) ps) @ rest) = ps @ packets_of decodeV1 rest"
proof -
  have eq: "map (packet_bytes key) ps = map BytesV1 ps" using assms(1) by (simp add: packet_bytes_def)
  have "packets_of decodeV1 (concat (map BytesV1 ps) @ rest) = ps @ packets_of decodeV1 rest"
    by (rule packetV1.packets_of_concat) (use assms(1) in \<open>simp add: carried_def BytesV1_def Let_def\<close>)
  moreover obtain xs where "concat (map BytesV1 ps) @ rest = 0xEA # 0xD0 # xs"
    using assms(2) by (cases ps) (simp_all add: BytesV1_def Let_def)
  ultimately show ?thesis unfolding eq by (simp add: handleSocketMessage_def)
qed

lemma datagram_V0:
  assumes "\<forall>p \<in> set ps. carried p \<and> p_version p \<noteq> 1" and "ps \<noteq> []"
  shows "handleSocketMessage key (concat (map (packet_bytes key) ps) @ rest) = ps @ packets_of (decodeV0 key) rest"
proof -
  have eq: "map (packet_bytes key) ps = map (BytesV0 key) ps" using assms(1) by (simp add: packet_bytes_def)
  have all: "packets_of (decodeV0 key) (concat (map (BytesV0 key) ps) @ rest) = ps @ packets_of (decodeV0 key) rest"
    by (rule packetV0.packets_of_concat) (use assms(1) in \<open>simp add: carried_def BytesV0_def Let_def\<close>)
  obtain p qs where ps: "ps = p # qs" using assms(2) by (cases ps) auto
  have "source_port p \<noteq> 0xEA"
    unfolding source_port_def
    by (rule port_not_magic) (use assms(1) ps in \<open>simp_all add: carried_def carriedV0_def fits_def split: if_splits\<close>)
  moreover obtain xs where "concat (map (BytesV0 key) ps) @ rest = source_port p # destination_port p # xs"
    by (simp add: ps BytesV0_def bodyV0_def Let_def)
  ultimately show ?thesis unfolding eq using all by (simp add: handleSocketMessage_def)
qed

end
