(* ===== verification/WireTheorems.thy ===== *)
theory WireTheorems
  imports Wire Delivery
begin

text \<open>
  What the bytes are worth: datagrams read back as the packets they were made of, and the messages of a
  reliable substream get through as bytes, whatever the network does to the datagrams.
\<close>

subsection \<open>Packets as they arrive\<close>

definition as_received :: "wire_settings \<Rightarrow> prudp_connection \<Rightarrow> prudp_packet \<Rightarrow> prudp_packet" where
  "as_received W pc p = (sign W pc p)\<lparr>p_sendCount := 0\<rparr>"

lemma wire_bytes_received: "wire_bytes W pc p = packet_bytes (ws_AccessKey W) (as_received W pc p)"
  by (simp add: wire_bytes_def packet_bytes_def as_received_def sign_def Let_def BytesV1_def BytesV0_def bodyV0_def
      encode_options_def encode_header_def type_and_flags_def source_port_def destination_port_def has_flag_def)

text \<open>A template whose data packets a version carries.\<close>

definition wire_template :: "wire_settings \<Rightarrow> prudp_packet \<Rightarrow> bool" where
  "wire_template W t \<longleftrightarrow> p_type t = DataPacket \<and>
     (p_version t = 1 \<and> carriedV1 (t\<lparr>p_payload := [], p_sendCount := 0\<rparr>) \<or>
      p_version t = 0 \<and> carriedV0 (t\<lparr>p_payload := [], p_sendCount := 0\<rparr>) \<and> p_sourceType t \<le> 11 \<and>
        \<not> V0LegacyConnectionSignature W)"

text \<open>What makes a data packet of a template: the fields that change on the way.\<close>

definition made_from :: "prudp_packet \<Rightarrow> prudp_packet \<Rightarrow> bool" where
  "made_from t p \<longleftrightarrow> length (p_payload p) < 65536 \<and>
     (\<exists>fid q sid d n g. p = t\<lparr>p_fragmentID := fid, p_sequenceID := q, p_sessionID := sid, p_payload := d,
        p_sendCount := n, p_signature := g\<rparr>)"

lemma length_signature:
  "p_version p = 1 \<Longrightarrow> length (p_signature (sign W pc p)) = 16"
  "p_version p \<noteq> 1 \<Longrightarrow> p_type p = DataPacket \<Longrightarrow> \<not> V0LegacyConnectionSignature W \<Longrightarrow>
   length (p_signature (sign W pc p)) = 4"
  by (simp_all add: sign_def CalculateSignatureV1_def CalculateSignatureV0_def data_signatureV0_def Let_def)

lemma made_from_carried:
  assumes "wire_template W t" and "made_from t p"
  shows "carried (as_received W pc p)" and "p_version (as_received W pc p) = p_version t"
proof -
  obtain fid q sid d n g where p: "p = t\<lparr>p_fragmentID := fid, p_sequenceID := q, p_sessionID := sid, p_payload := d,
      p_sendCount := n, p_signature := g\<rparr>" "length d < 65536"
    using assms(2) by (auto simp: made_from_def)
  have same: "p_version p = p_version t" "p_type p = p_type t" by (simp_all add: p)
  then show "p_version (as_received W pc p) = p_version t"
    by (simp add: as_received_def sign_def Let_def)
  have rec: "as_received W pc p = p\<lparr>p_signature := p_signature (sign W pc p), p_sendCount := 0\<rparr>"
    by (simp add: as_received_def sign_def Let_def)
  consider "p_version t = 1" "carriedV1 (t\<lparr>p_payload := [], p_sendCount := 0\<rparr>)" "p_type t = DataPacket"
    | "p_version t = 0" "carriedV0 (t\<lparr>p_payload := [], p_sendCount := 0\<rparr>)" "p_sourceType t \<le> 11"
      "p_type t = DataPacket" "\<not> V0LegacyConnectionSignature W"
    using assms(1) by (auto simp: wire_template_def)
  then show "carried (as_received W pc p)"
  proof cases
    case 1
    then have "carriedV1 (p\<lparr>p_signature := s, p_sendCount := 0\<rparr>)" for s
      using p(2) by (simp add: p(1) carriedV1_def fits_def starts_def)
    then show ?thesis using 1 same length_signature(1) [of p W pc] by (simp add: carried_def rec)
  next
    case 2
    then have "carriedV0 (p\<lparr>p_signature := s, p_sendCount := 0\<rparr>)" for s
      using p(2) by (simp add: p(1) carriedV0_def fits_def starts_def has_flag_def)
    moreover have "p_sourceType p \<le> 11" using 2 by (simp add: p(1))
    ultimately show ?thesis using 2 same length_signature(2) [of p W pc] by (simp add: carried_def rec)
  qed
qed

lemma on_wire_made_from:
  assumes "\<forall>f \<in> set fs. length (snd f) < 65536"
  shows "\<forall>p \<in> set (on_wire (stamped pc t) k c fs). made_from t p"
  using assms
proof (induction "stamped pc t" k c fs rule: on_wire.induct)
  case (2 k c f fs)
  have "made_from t ((stamped pc t)\<lparr>p_fragmentID := fst f, p_sequenceID := k + 1, p_payload := XORKeyStream c (snd f)\<rparr>)"
    unfolding made_from_def
    by (intro conjI exI [of _ "fst f"] exI [of _ "k + 1"] exI [of _ "ServerSessionID pc"]
        exI [of _ "XORKeyStream c (snd f)"] exI [of _ "1"] exI [of _ "p_signature t"])
      (use 2 in \<open>simp_all add: stamped_def\<close>)
  then show ?case using 2 by simp
qed simp

lemma fragment_loop_size: "\<forall>f \<in> set (fragment_loop z n fid data). length (snd f) \<le> z"
  by (induction z n fid data rule: fragment_loop.induct) auto

lemma stream_of_received: "stream_of s c fs pkts \<Longrightarrow> stream_of s c fs (map (as_received W pc) pkts)"
  by (auto simp: stream_of_def as_received_def sign_def Let_def reliable_data_def has_flag_def is_ack_def)

lemma datagram_read:
  assumes "wire_template W t" and "\<forall>p \<in> set ps. made_from t p" and "ps \<noteq> []"
  shows "handleSocketMessage (ws_AccessKey W) (concat (map (wire_bytes W pc) ps)) = map (as_received W pc) ps"
proof -
  let ?qs = "map (as_received W pc) ps"
  have eq: "map (wire_bytes W pc) ps = map (packet_bytes (ws_AccessKey W)) ?qs"
    by (simp add: wire_bytes_received)
  have all: "\<forall>q \<in> set ?qs. carried q \<and> p_version q = p_version t"
    using made_from_carried [OF assms(1)] assms(2) by auto
  have none: "packets_of dec [] = []" for dec :: "bytes \<Rightarrow> (prudp_packet \<times> bytes) option"
    by (simp add: packets_of.simps)
  show ?thesis
  proof (cases "p_version t = 1")
    case True
    have "\<forall>q \<in> set ?qs. carried q \<and> p_version q = 1" using all True by auto
    from datagram_V1 [OF this, of "ws_AccessKey W" "[]"] show ?thesis
      unfolding eq none using assms(3) by (simp only: append_Nil2 list.map_disc_iff not_False_eq_True)
  next
    case False
    have "\<forall>q \<in> set ?qs. carried q \<and> p_version q \<noteq> 1" using all False by auto
    from datagram_V0 [OF this, of "ws_AccessKey W" "[]"] show ?thesis
      unfolding eq none using assms(3) by (simp only: append_Nil2 list.map_disc_iff not_False_eq_True)
  qed
qed

subsection \<open>Properties\<close>

text \<open>C8: a datagram reads back as the packets that were written into it, followed by what can be read of
  the rest, so a bad packet costs those after it and none before it.\<close>

theorem datagram_reads_back:
  assumes "\<forall>p \<in> set ps. carried p \<and> p_version p = v" and "ps \<noteq> []"
  shows "handleSocketMessage key (concat (map (packet_bytes key) ps) @ rest) = ps @ packets_of (decoder key v) rest"
  using assms datagram_V1 [of ps key rest] datagram_V0 [of ps key rest] by (cases "v = 1") (auto simp: decoder_def)

definition example_connect :: prudp_packet where
  "example_connect =
     (NewPacket 1)\<lparr>p_type := ConnectPacket, p_flags := 0xE, p_sourceType := 10, p_sourceID := 15,
       p_destinationType := 10, p_destinationID := 1, p_payload := [1, 2, 3], p_signature := replicate 16 7,
       p_connectionSignature := replicate 16 9, p_MinorVersion := 4, p_SupportedFunctions := 5,
       p_InitialUnreliableSequenceID := 77\<rparr>"

definition example_wire :: wire_settings where
  "example_wire = \<lparr>ws_AccessKey = [], V0LegacyConnectionSignature = False, V1LegacyConnectionSignature = False\<rparr>"

lemma example_wire_template: "wire_template example_wire example_template"
  by (simp add: wire_template_def example_template_def carriedV0_def fits_def starts_def NewPacket_def has_flag_def
      example_wire_def word_le_nat_alt)

theorem datagram_reads_back_witness:
  "handleSocketMessage [] (concat (map (packet_bytes []) [example_connect, example_connect]) @ [0xEA]) =
     [example_connect, example_connect]"
  using datagram_reads_back [of "[example_connect, example_connect]" 1 "[]" "[0xEA]"]
  by (simp add: carried_def carriedV1_def fits_def starts_def example_connect_def NewPacket_def packets_of.simps
      decoder_def decodeV1_def read_bytes_def)

text \<open>C7: reliable delivery, as bytes. The messages sent on a substream are cut into fragments, numbered, encrypted,
  signed and written into datagrams, several to one perhaps; the network delivers any of these datagrams, in
  any order and any number of times each, and the server handles the packets in them in any order. The
  receiver hands on a prefix of the messages that were sent, in their order and unchanged, and all of them as
  soon as every packet has arrived, as long as fewer than 65536 packets are sent.\<close>

theorem reliable_messages_in_order:
  assumes "0 < z" and "z < 65536" and "reliable_data s t" and "wire_template W t"
    and "\<forall>m \<in> set ms. packable m \<and> length (encodePacked m) < 256 * z"
    and "send_state sender s = Some (1, c)" and "recv_state receiver s = Some (NewPacketDispatchQueue, c, [])"
    and "transmit z sender t (map encodePacked ms) = Some (sender', pkts)" and "length pkts < 65536"
    and "\<forall>g \<in> set groups. g \<noteq> [] \<and> set g \<subseteq> set pkts"
    and "set arrivals =
      (\<Union>g \<in> set groups. set (handleSocketMessage (ws_AccessKey W) (concat (map (wire_bytes W signer) g))))"
  shows "\<exists>receiver' evs k. receive_all receiver arrivals = Some (receiver', evs) \<and>
    map ev_message evs = take k ms \<and> (set pkts \<subseteq> set (concat groups) \<longrightarrow> map ev_message evs = ms)"
proof -
  let ?fs = "concat (map (fragments z) (map encodePacked ms))"
  let ?t = "stamped sender t" and ?in = "as_received W signer"
  have pkts: "pkts = on_wire ?t 1 c ?fs"
    using transmit_on_wire [OF assms(3,1,6), of "map encodePacked ms"] assms(8) by auto
  have short: "length ?fs < 65536" using assms(9) by (simp only: pkts length_on_wire)
  have stream: "stream_of s c ?fs (map ?in pkts)"
    unfolding pkts by (rule stream_of_received [OF on_wire_stream [OF reliable_data_stamped [OF assms(3)] short]])
  have asm: "assemble [] ?fs = (map encodePacked ms, [])"
    using assms(1,5) by (intro assemble_all) auto
  have "\<forall>f \<in> set ?fs. length (snd f) < 65536"
    using fragment_loop_size [of z] assms(2) by (force simp: fragments_def)
  from on_wire_made_from [OF this] have made: "\<forall>p \<in> set pkts. made_from t p" unfolding pkts .
  have "handleSocketMessage (ws_AccessKey W) (concat (map (wire_bytes W signer) g)) = map ?in g" if "g \<in> set groups" for g
    using datagram_read [OF assms(4)] made assms(10) that by blast
  then have arrived: "set arrivals = ?in ` set (concat groups)" using assms(11) by auto
  also have "\<dots> \<subseteq> set (map ?in pkts)" using assms(10) by auto
  finally have "set arrivals \<subseteq> set (map ?in pkts)" .
  moreover have "set (map ?in pkts) \<subseteq> set arrivals" if "set pkts \<subseteq> set (concat groups)"
    using that unfolding arrived by (simp add: image_mono del: set_concat)
  moreover have "\<forall>m \<in> set ms. packable m" using assms(5) by blast
  ultimately show ?thesis using delivery [OF stream asm _ assms(7)] by blast
qed

text \<open>Every packet in a datagram of its own, backwards, and then all of them once more in one datagram.\<close>

theorem reliable_messages_in_order_witness:
  "\<exists>sender' pkts receiver' evs.
     transmit 8 example_stream example_template (map encodePacked example_messages) = Some (sender', pkts) \<and>
     receive_all example_stream
       (concat (map (handleSocketMessage []) (map (wire_bytes example_wire example_stream) (rev pkts) @
          [concat (map (wire_bytes example_wire example_stream) pkts)]))) = Some (receiver', evs) \<and>
     map ev_message evs = example_messages"
proof -
  define pkts where "pkts = on_wire (stamped example_stream example_template) 1 (new_cipher default_key)
    (concat (map (fragments 8) (map encodePacked example_messages)))"
  let ?groups = "map (\<lambda>p. [p]) (rev pkts) @ [pkts]"
  let ?read = "\<lambda>g. handleSocketMessage [] (concat (map (wire_bytes example_wire example_stream) g))"
  obtain sender' where sent:
    "transmit 8 example_stream example_template (map encodePacked example_messages) = Some (sender', pkts)"
    using transmit_on_wire [OF example_reliable _ example_stream_state(1), of 8 "map encodePacked example_messages"]
    unfolding pkts_def by (simp only: zero_less_numeral simp_thms) blast
  have loop: "length (fragment_loop z n fid data) = n" for z n fid data
    by (induction z n fid data rule: fragment_loop.induct) auto
  have "\<forall>m \<in> set example_messages. 0 < length (fragments 8 (encodePacked m)) \<and>
      length (fragments 8 (encodePacked m)) < 300"
    using example_messages_ok by (auto simp only: fragments_def loop)
  then have "length pkts < 65536 \<and> 0 < length pkts"
    unfolding length_on_wire pkts_def by (simp add: example_messages_def del: map_map)
  then have short: "length pkts < 65536" and "pkts \<noteq> []" by auto
  then have groups: "\<forall>g \<in> set ?groups. g \<noteq> [] \<and> set g \<subseteq> set pkts" by auto
  have all: "set pkts \<subseteq> set (concat ?groups)" by auto
  have key: "ws_AccessKey example_wire = []" by (simp add: example_wire_def)
  have "set (concat (map ?read ?groups)) = (\<Union>g \<in> set ?groups. set (?read g))"
    by (simp only: set_concat set_map image_image)
  from reliable_messages_in_order [OF _ _ example_reliable example_wire_template example_messages_ok
      example_stream_state sent short groups, of "concat (map ?read ?groups)" example_stream, unfolded key, OF _ _ this]
  obtain receiver' evs where "receive_all example_stream (concat (map ?read ?groups)) = Some (receiver', evs)"
    "map ev_message evs = example_messages" using all by auto
  moreover have "map ?read ?groups =
      map (handleSocketMessage []) (map (wire_bytes example_wire example_stream) (rev pkts) @
        [concat (map (wire_bytes example_wire example_stream) pkts)])" by (simp add: comp_def)
  ultimately show ?thesis using sent by metis
qed

end
