(* ===== verification/Spec2Isabelle.thy ===== *)
theory Spec2Isabelle
  imports MMQueries Boot NatTraversal TicketTheorems Utility Stats SecureTheorems WireTheorems
begin

text \<open>
  A verification development of the FAST Racing NEO game server (the Go module under \<^verbatim>\<open>src/\<close>).

  \<^bold>\<open>The program.\<close> A console first talks to the authentication server, which answers its login with a
  Kerberos ticket and the address of the secure server. With the ticket it connects to the secure
  server, which keeps three things for it: the lobbies (gatherings) players create, find, join and
  leave, in memory; the leaderboards, in memory and in a JSON file; and the station URLs under which
  consoles reach each other. \<^verbatim>\<open>main.go\<close> reads the configuration, the accounts and the leaderboard file and
  starts both servers in goroutines, with a page of statistics beside them. The servers sit on two
  vendored libraries, nex-go and common-go (\<^verbatim>\<open>src/third_party\<close>); the parts of them the server's behaviour
  depends on are modelled too.

  \<^bold>\<open>Theories and the code they model.\<close>

  \<^item> Prelude: machine words, hint collections, the stable sort, and the locales \<^verbatim>\<open>strict_weak_order\<close>,
    \<^verbatim>\<open>key_order\<close> and \<^verbatim>\<open>invariant_system\<close> that the orderings and the state machines below interpret.
  \<^item> GoStd, Base64, Json, Crypto: what the program computes with of Go's standard library (\<^verbatim>\<open>strconv\<close>,
    \<^verbatim>\<open>strings\<close>, \<^verbatim>\<open>path/filepath\<close>, \<^verbatim>\<open>encoding/hex\<close>, \<^verbatim>\<open>encoding/base64\<close>, \<^verbatim>\<open>encoding/json\<close> as parser and printer,
    MD5, HMAC and RC4).
  \<^item> NexCore, StationURL, Endpoint, Kerberos: \<^verbatim>\<open>third_party/nex-go\<close>: errors and result codes, the wire encoding
    of the primitive types with its decoding (locale \<^verbatim>\<open>codec\<close>), station URLs, connections and their lookup,
    tickets and the dates in them; and common-go's \<^verbatim>\<open>SendNotificationEvent\<close>.
  \<^item> Gathering, MMStore, MMSearch: \<^verbatim>\<open>matchmaking/store.go\<close>, \<^verbatim>\<open>search.go\<close> and the helpers of \<^verbatim>\<open>protocol.go\<close>: the store
    record with its sessions, the next gathering ID and the published notifications; create, join, leave,
    remove; search, ordering and the plain matchmaker.
  \<^item> MMExtension, MMHandlers, MMDispatch: every handler of \<^verbatim>\<open>matchmake_extension.go\<close>, \<^verbatim>\<open>match_making.go\<close> and
    \<^verbatim>\<open>match_making_ext.go\<close>, and the dispatcher \<^verbatim>\<open>handle\<close> over a datatype of requests.
  \<^item> MMLobby, MMSystem, MMPromises, MMTheorems, MMQueries: the abstract lobby machine the handlers refine,
    the transition system of requests and dropped connections, and their properties.
  \<^item> RankingStore, RankingQueries, RankingPersist, RankingFile, RankingOps, RankingSystem, RankingTheorems:
    \<^verbatim>\<open>ranking/store.go\<close> (entries, boards, pages, the JSON text, load and save with their failures), the
    handlers of \<^verbatim>\<open>handlers_ranking.go\<close> and of common-go, and the machine of requests, restarts and crashes.
  \<^item> Config, Accounts, AccountTheorems: \<^verbatim>\<open>globals/config.go\<close>, \<^verbatim>\<open>friends.go\<close>, \<^verbatim>\<open>accounts.go\<close>, \<^verbatim>\<open>validateConfig\<close> of \<^verbatim>\<open>main.go\<close>,
    and \<^verbatim>\<open>getPID\<close> and \<^verbatim>\<open>getName\<close> of \<^verbatim>\<open>handlers_misc.go\<close>.
  \<^item> StructHeader, LoginRequests, Startup, Boot: \<^verbatim>\<open>structure_header.go\<close> byte for byte; the logins it reads;
    the interleaving of the goroutines of \<^verbatim>\<open>main\<close>; the start of the process up to them.
  \<^item> Stations, StationTheorems, NatTraversal: \<^verbatim>\<open>handlers_secure_connection.go\<close>, the NAT traversal handlers of
    \<^verbatim>\<open>handlers_misc.go\<close>, their common-go counterparts, and the redirection and login check of
    \<^verbatim>\<open>protocols_authentication.go\<close>.
  \<^item> Tickets, TicketTheorems: common-go's ticket granting handlers as \<^verbatim>\<open>protocols_authentication.go\<close> sets them
    up, and the secure server's reading of a ticket in \<^verbatim>\<open>prudp_endpoint.go\<close>.
  \<^item> Utility, Stats: \<^verbatim>\<open>handlers_utility.go\<close> and \<^verbatim>\<open>stats.go\<close>.
  \<^item> Rc4Stream, Rmc, Prudp, Delivery: the transport of \<^verbatim>\<open>nex-go\<close>: RC4 as a stream that continues from packet
    to packet; \<^verbatim>\<open>rmc_message.go\<close>; packets, dispatch queues, sliding windows, fragments, acknowledgements
    and the keys of unreliable packets (\<^verbatim>\<open>prudp_connection.go\<close>, \<^verbatim>\<open>prudp_server.go\<close>, \<^verbatim>\<open>prudp_endpoint.go\<close> and
    the files of their parts); what the receiver makes of the packets of a sender.
  \<^item> Wire, WireTheorems: \<^verbatim>\<open>prudp_packet_v0.go\<close> and \<^verbatim>\<open>prudp_packet_v1.go\<close> byte for byte with their signatures
    and checksum, virtual ports, and the reading of datagrams in \<^verbatim>\<open>handleSocketMessage\<close>.
  \<^item> Lifecycle, LifecycleTheorems, SecureTheorems: a connection from SYN to DISCONNECT and its timers in
    \<^verbatim>\<open>prudp_endpoint.go\<close>; the secure server as one machine of packets, timeouts and requests, with the
    connection table, the store of the gatherings, and the handlers above answering what the transport
    delivers.

  \<^bold>\<open>How code becomes definitions.\<close> A function that changes state takes it and returns it changed; the
  store's mutex makes a handler one step, and where the code releases it in between
  (\<^verbatim>\<open>unregisterGatherings\<close>) each locked section is a step. Errors are the left side of a sum with the
  error and its code. A run-time panic is None or the outcome \<^verbatim>\<open>Panic\<close> where one is possible. The order
  in which Go visits a map is a function of the environment that lists the keys, and what is proved
  holds for every such order. Integers have their width as words; Go's \<^verbatim>\<open>int\<close> is \<^verbatim>\<open>int\<close>. The clock, random
  bytes, the operating system's answers and HMAC-SHA256 are arguments. Constants and structures of
  nex-protocols-go, which is not in the repository, are fields of the environments \<^verbatim>\<open>nex_proto\<close> and
  \<^verbatim>\<open>ranking_proto\<close>; protocol and method identifiers appear by name.

  \<^bold>\<open>What is shown.\<close> Lobbies: every handler refines a machine in which players change only what they
  may; in every reachable state a gathering has its owner and host among its participants and an exact
  head count; creating and automatic matchmaking always place the caller; what a dropped console leaves
  behind and who is told; what a search returns and in which order; that keys and passwords stay
  secret; and where the code lets a player through that another path stops. Leaderboards: boards hold
  exactly the best scores, pages and windows are cuts of one ordered list with the right ranks, what
  is acknowledged is in the file, a crash during a save leaves the old or the new store, and a saved
  store loads back. Logging in: the first login decides the layout of structures correctly and the
  detection always returns; the two servers agree on it in every interleaving exactly if the setting
  leaves headers on; a valid login leads into the secure server, which lets in nobody without a
  genuine, fresh ticket of its own, and which a short ticket crashes. Transport: a datagram reads back as
  the packets written into it; the messages of a reliable substream arrive as bytes over a network that
  loses, repeats and reorders datagrams, in order and unchanged; a console's SYN, CONNECT and first
  encrypted request change the gatherings as the handler does for the ticket's player; who is in a
  gathering came in with a ticket and still has a connection, unless a connection in use was taken over
  by another CONNECT; and where the code falls short: messages of 256 fragments, an odd
  acknowledgement that never returns, keys of unreliable packets that drift, a CONNECT and a request that
  need no ticket because the signature is not checked. Accounts, settings, stations and
  identifiers: names and PIDs are inverse, checked settings are usable, and what a player publishes is
  what others read.

  \<^bold>\<open>Bounds.\<close> The JSON parser is given fuel of twice the length of the text plus one and the nesting depth
  of 10000 that \<^verbatim>\<open>encoding/json\<close> allows; more fuel changes no answer, on any text (\<^verbatim>\<open>parse_json_fuel\<close>), so
  a refusal is never a lack of fuel. The walk over structure headers is a partial function whose termination is proved from the
  bytes each header takes. Gathering IDs are 32 bits wide and the property on their freshness states
  its bound. A ticket names PIDs in four bytes, so its properties speak of PIDs below 2 to the 32nd.
  Sequence IDs are 16 bits wide, so reliable delivery speaks of fewer than 65536 packets, and connection
  IDs 32 bits, so they are unique for the first 2 to the 32nd steps. A message has at most 255 fragments,
  331500 bytes at the size of 1300 this server uses, plus a last one that is not full. The loop that hands
  on queued packets ends because each turn takes one from the queue, and the one over an aggregate
  acknowledgement may not, which is a property.

  \<^bold>\<open>Not modelled.\<close> Of the transport: sockets, the clock with round trip times and the moments timers
  fire (a timer's firing is a step that may come at any time), the locks inside the handling of one
  packet, the Quazal mode and stream compression other than none, PRUDPLite and web sockets, HPP, and the
  verbose form of RMC messages. The bodies of requests belong to structures of nex-protocols-go: decoding
  them is the parameter \<^verbatim>\<open>decode_request_of\<close>, and a handler gets its decoded arguments, or the decoding error. Logging, the trace wrapper, the banner, the
  HTTP server and signal handling, which are input and output. A leaderboard file with \<^verbatim>\<open>null\<close> entries is
  not followed beyond the result \<^verbatim>\<open>LoadedNil\<close>. The helpers of the libraries that serve protocols this
  server does not register are left out. MD5 and RC4 are definitions; no claim is made about their
  strength.
\<close>

end
